theory Spec2Isabelle
  imports Complex_Main "HOL-Library.AList" "HOL-Library.Multiset" "HOL-Library.Product_Lexorder"
begin

section \<open>JavaScript numbers\<close>

text \<open>
  The server computes with JavaScript numbers. The embedding keeps every finite number as a
  real and the value \<open>NaN\<close> apart, with the arithmetic of the language on \<open>NaN\<close>: it
  propagates through \<open>+ - * /\<close>, \<open>Math.round\<close>, \<open>Math.abs\<close>, \<open>Math.min\<close> and
  \<open>Math.max\<close>, every ordering comparison with it is false, and \<open>!==\<close> with it is true.
  Rounding of doubles and the infinities are outside the embedding; no division of the
  modelled code has a zero divisor (each is guarded or divides by a positive constant).
\<close>

datatype jsnum = Num real | NaN

fun js_add :: "jsnum \<Rightarrow> jsnum \<Rightarrow> jsnum" where
  "js_add (Num a) (Num b) = Num (a + b)"
| "js_add _ _ = NaN"

fun js_sub :: "jsnum \<Rightarrow> jsnum \<Rightarrow> jsnum" where
  "js_sub (Num a) (Num b) = Num (a - b)"
| "js_sub _ _ = NaN"

fun js_mul :: "jsnum \<Rightarrow> jsnum \<Rightarrow> jsnum" where
  "js_mul (Num a) (Num b) = Num (a * b)"
| "js_mul _ _ = NaN"

fun js_div :: "jsnum \<Rightarrow> jsnum \<Rightarrow> jsnum" where
  "js_div (Num a) (Num b) = (if b = 0 then NaN else Num (a / b))"
| "js_div _ _ = NaN"

fun js_neg :: "jsnum \<Rightarrow> jsnum" where
  "js_neg (Num a) = Num (- a)"
| "js_neg NaN = NaN"

fun js_abs :: "jsnum \<Rightarrow> jsnum" where
  "js_abs (Num a) = Num \<bar>a\<bar>"
| "js_abs NaN = NaN"

text \<open>\<open>Math.round\<close>: the nearest integer, a tie going up.\<close>

fun js_round :: "jsnum \<Rightarrow> jsnum" where
  "js_round (Num a) = Num (of_int \<lfloor>a + 1 / 2\<rfloor>)"
| "js_round NaN = NaN"

fun js_pow10 :: "jsnum \<Rightarrow> jsnum" where
  "js_pow10 (Num a) = Num (10 powr a)"
| "js_pow10 NaN = NaN"

fun js_min2 :: "jsnum \<Rightarrow> jsnum \<Rightarrow> jsnum" where
  "js_min2 (Num a) (Num b) = Num (min a b)"
| "js_min2 _ _ = NaN"

fun js_max2 :: "jsnum \<Rightarrow> jsnum \<Rightarrow> jsnum" where
  "js_max2 (Num a) (Num b) = Num (max a b)"
| "js_max2 _ _ = NaN"

fun js_lt :: "jsnum \<Rightarrow> jsnum \<Rightarrow> bool" where
  "js_lt (Num a) (Num b) = (a < b)"
| "js_lt _ _ = False"

fun js_gt :: "jsnum \<Rightarrow> jsnum \<Rightarrow> bool" where
  "js_gt (Num a) (Num b) = (a > b)"
| "js_gt _ _ = False"

text \<open>\<open>a !== b\<close> on numbers: \<open>NaN\<close> differs from everything, itself included.\<close>

fun js_ne :: "jsnum \<Rightarrow> jsnum \<Rightarrow> bool" where
  "js_ne (Num a) (Num b) = (a \<noteq> b)"
| "js_ne _ _ = True"

text \<open>\<open>Math.max(...xs)\<close> and \<open>Math.min(...xs)\<close>; the server spreads non-empty arrays only.\<close>

fun js_maximum :: "jsnum list \<Rightarrow> jsnum" where
  "js_maximum [] = NaN"
| "js_maximum (x # xs) = foldl js_max2 x xs"

fun js_minimum :: "jsnum list \<Rightarrow> jsnum" where
  "js_minimum [] = NaN"
| "js_minimum (x # xs) = foldl js_min2 x xs"

text \<open>\<open>clamp(value, min, max) = Math.max(min, Math.min(max, value))\<close>.\<close>

definition clamp :: "real \<Rightarrow> real \<Rightarrow> real \<Rightarrow> real" where
  "clamp v lo hi = max lo (min hi v)"

definition js_clamp :: "jsnum \<Rightarrow> real \<Rightarrow> real \<Rightarrow> jsnum" where
  "js_clamp v lo hi = js_max2 (Num lo) (js_min2 (Num hi) v)"

text \<open>
  Reading a property an object does not have gives \<open>undefined\<close>, and \<open>undefined\<close> in
  arithmetic is \<open>NaN\<close>. A property read is an option; \<open>to_number\<close> is the conversion
  the arithmetic operators apply.
\<close>

fun to_number :: "jsnum option \<Rightarrow> jsnum" where
  "to_number None = NaN"
| "to_number (Some v) = v"

section \<open>Constants of the server\<close>

definition READY_CHECK_MS :: int where "READY_CHECK_MS = 10000"
definition RECONNECT_GRACE_MS :: int where "RECONNECT_GRACE_MS = 45000"
definition QUEUE_BASE_MMR_RANGE :: int where "QUEUE_BASE_MMR_RANGE = 120"
definition QUEUE_EXPAND_STEP :: int where "QUEUE_EXPAND_STEP = 40"
definition QUEUE_EXPAND_EVERY_MS :: int where "QUEUE_EXPAND_EVERY_MS = 10000"
definition QUEUE_MAX_MMR_RANGE :: int where "QUEUE_MAX_MMR_RANGE = 720"
definition QUEUE_REQUEUE_PRIORITY_MS :: int where "QUEUE_REQUEUE_PRIORITY_MS = 12000"
definition MATCH_MAX_DURATION_MS :: int where "MATCH_MAX_DURATION_MS = 8 * 60 * 1000"
definition DEFAULT_MAX_PING_MS :: real where "DEFAULT_MAX_PING_MS = 220"
definition ELO_K :: real where "ELO_K = 26"
definition ABANDON_PENALTY :: real where "ABANDON_PENALTY = 24"
definition DEFAULT_RATING :: real where "DEFAULT_RATING = 1000"

section \<open>Rating settlement\<close>

text \<open>
  A room member, as \<open>createRoomFromReady\<close> builds it. \<open>socketId\<close> and
  \<open>disconnectedAt\<close> are \<open>null\<close> or a value. The object has the properties listed here
  and no others: in particular it has \<open>ratingBefore\<close> and \<open>ratingAfter\<close> but no
  property \<open>rating\<close>.
\<close>

record member =
  m_playerId :: string
  m_nickname :: string
  m_partySize :: real
  m_ratingBefore :: jsnum
  m_ratingAfter :: jsnum
  m_team :: nat
  m_slots :: "nat list"
  m_reconnectToken :: string
  m_reconnectCount :: nat
  m_socketId :: "string option"
  m_disconnectedAt :: "int option"
  m_abandoned :: bool

text \<open>What \<open>member.rating\<close> evaluates to on a room member: the property is absent.\<close>

definition member_rating :: "member \<Rightarrow> jsnum option" where
  "member_rating m = None"

text \<open>
  \<open>ratingAverage(entries)\<close> reads \<open>entry.partySize\<close> and \<open>entry.rating\<close> of whatever
  objects it is given (queue entries in the match finder, room members in the rating
  settlement), so the two property reads are parameters. The two \<open>reduce\<close> calls are
  left folds from 0.
\<close>

definition ratingAverage :: "('a \<Rightarrow> jsnum option) \<Rightarrow> ('a \<Rightarrow> real) \<Rightarrow> 'a list \<Rightarrow> jsnum" where
  "ratingAverage rating_of partySize_of entries =
     (let totalWeight = foldl (\<lambda>sum entry. sum + partySize_of entry) 0 entries in
      if totalWeight \<le> 0 then Num DEFAULT_RATING
      else
        js_div
          (foldl (\<lambda>sum entry. js_add sum (js_mul (to_number (rating_of entry)) (Num (partySize_of entry))))
             (Num 0) entries)
          (Num totalWeight))"

record rating_change =
  rc_playerId :: string
  rc_delta :: jsnum
  rc_ratingBefore :: jsnum
  rc_ratingAfter :: jsnum
  rc_abandoned :: bool
  rc_reconnectCount :: nat
  rc_result :: string
  rc_team :: nat
  rc_slots :: "nat list"
  rc_partySize :: real

text \<open>
  The Elo step of \<open>buildRatingChanges\<close>: \<open>expected0\<close>, \<open>result0\<close> and \<open>delta0\<close> from
  the two team averages and the winner (\<open>null\<close>, 0 or 1).
\<close>

definition teamDelta0 :: "jsnum \<Rightarrow> jsnum \<Rightarrow> nat option \<Rightarrow> jsnum" where
  "teamDelta0 avg0 avg1 winnerTeam =
     (let expected0 = js_div (Num 1) (js_add (Num 1) (js_pow10 (js_div (js_sub avg1 avg0) (Num 400))));
          result0 = (case winnerTeam of None \<Rightarrow> Num (1 / 2) | Some w \<Rightarrow> if w = 0 then Num 1 else Num 0)
      in js_round (js_mul (Num ELO_K) (js_sub result0 expected0)))"

definition memberChange :: "jsnum \<Rightarrow> nat option \<Rightarrow> member \<Rightarrow> rating_change" where
  "memberChange delta0 winnerTeam member =
     (let delta = (if m_team member = 0 then delta0 else js_neg delta0);
          abandoned = m_abandoned member;
          delta = (if abandoned then js_sub delta (Num ABANDON_PENALTY) else delta);
          ratingAfter = js_clamp (js_round (js_add (m_ratingBefore member) delta)) 100 4000
      in \<lparr> rc_playerId = m_playerId member,
           rc_delta = delta,
           rc_ratingBefore = m_ratingBefore member,
           rc_ratingAfter = ratingAfter,
           rc_abandoned = abandoned,
           rc_reconnectCount = m_reconnectCount member,
           rc_result = (case winnerTeam of None \<Rightarrow> ''draw''
                        | Some w \<Rightarrow> if w = m_team member then ''win'' else ''loss''),
           rc_team = m_team member,
           rc_slots = m_slots member,
           rc_partySize = m_partySize member \<rparr>)"

definition buildRatingChanges :: "member list \<Rightarrow> nat option \<Rightarrow> rating_change list" where
  "buildRatingChanges participants winnerTeam =
     (let team0 = filter (\<lambda>member. m_team member = 0) participants;
          team1 = filter (\<lambda>member. m_team member = 1) participants;
          avg0 = ratingAverage member_rating m_partySize team0;
          avg1 = ratingAverage member_rating m_partySize team1;
          delta0 = teamDelta0 avg0 avg1 winnerTeam
      in map (memberChange delta0 winnerTeam) participants)"

section \<open>Rooms and end conditions\<close>

text \<open>
  A room. \<open>r_members\<close> is the \<open>Map\<close> from player id to member in insertion order.
  \<open>r_score\<close> is \<open>room.lastSnapshot.score\<close>: every snapshot of the engine carries the
  pair of team scores (both start at 0 and a point adds 1), so the defaults behind
  \<open>??\<close> in \<open>shouldEndRoom\<close> and \<open>endRoom\<close> are never taken. The engine itself, the
  per-seat inputs and the snapshot cadence are not part of the embedding.
\<close>

record room =
  r_id :: string
  r_playlist :: string
  r_region :: string
  r_seed :: string
  r_startedAt :: int
  r_members :: "(string \<times> member) list"
  r_score :: "nat \<times> nat"
  r_ended :: bool

text \<open>Truthiness of a socket id (\<open>null\<close> and the empty string are falsy) and of a timestamp
  (\<open>null\<close> and 0 are falsy).\<close>

fun truthy_str :: "string option \<Rightarrow> bool" where
  "truthy_str None = False"
| "truthy_str (Some s) = (s \<noteq> [])"

fun truthy_time :: "int option \<Rightarrow> bool" where
  "truthy_time None = False"
| "truthy_time (Some t) = (t \<noteq> 0)"

fun js_ge :: "jsnum \<Rightarrow> jsnum \<Rightarrow> bool" where
  "js_ge (Num a) (Num b) = (a \<ge> b)"
| "js_ge _ _ = False"

text \<open>The reasons the server passes to \<open>endRoom\<close>: the three of \<open>shouldEndRoom\<close>
  (\<open>Limite de puntuacion alcanzado (N)\<close>, \<open>Tiempo maximo de partida alcanzado\<close>,
  \<open>Equipo completo abandono la partida\<close>) and the one of \<open>shutdown\<close>
  (\<open>Servidor en shutdown\<close>).\<close>

datatype end_reason = ScoreLimitReached | MaxDurationReached | TeamAbandoned | ServerShutdown

text \<open>\<open>score[0] === score[1] ? null : score[0] > score[1] ? 0 : 1\<close>\<close>

definition score_winner :: "nat \<times> nat \<Rightarrow> nat option" where
  "score_winner score = (if fst score = snd score then None else if fst score > snd score then Some 0 else Some 1)"

text \<open>The body of the member loop of \<open>shouldEndRoom\<close> that writes the flag. All reads of
  the clock within one call are one value \<open>now\<close>.\<close>

definition markAbandoned :: "int \<Rightarrow> member \<Rightarrow> member" where
  "markAbandoned now member =
     (if \<not> truthy_str (m_socketId member) \<and> truthy_time (m_disconnectedAt member) then
        (case m_disconnectedAt member of
           Some t \<Rightarrow> if now - t > RECONNECT_GRACE_MS then member\<lparr>m_abandoned := True\<rparr> else member
         | None \<Rightarrow> member)
      else member)"

definition teamActive :: "(string \<times> member) list \<Rightarrow> nat \<Rightarrow> bool" where
  "teamActive members t = list_ex (\<lambda>(k, member). \<not> m_abandoned member \<and> m_team member = t) members"

text \<open>
  \<open>shouldEndRoom(room)\<close>: the decision (\<open>null\<close> or reason and winner) and the room with
  the flags the member loop wrote. \<open>SCORE_LIMIT\<close> is read from the environment at start-up
  (7 by default) and is a parameter here.
\<close>

definition shouldEndRoom :: "jsnum \<Rightarrow> room \<Rightarrow> int \<Rightarrow> (end_reason \<times> nat option) option \<times> room" where
  "shouldEndRoom SCORE_LIMIT room now =
     (let score = r_score room in
      if js_ge (Num (real (max (fst score) (snd score)))) SCORE_LIMIT then
        (Some (ScoreLimitReached, score_winner score), room)
      else if now - r_startedAt room > MATCH_MAX_DURATION_MS then
        (Some (MaxDurationReached, score_winner score), room)
      else
        (let members = map (\<lambda>(k, member). (k, markAbandoned now member)) (r_members room);
             room' = room\<lparr>r_members := members\<rparr>;
             active0 = teamActive members 0;
             active1 = teamActive members 1
         in if \<not> active0 \<or> \<not> active1 then
              (Some (TeamAbandoned,
                 if \<not> active0 \<and> \<not> active1 then None else if active0 then Some 0 else Some 1), room')
            else (None, room')))"

text \<open>
  The three end conditions as predicates of the room the tick examines. A member counts
  as abandoned in (c) when the flag is already set or this evaluation sets it.
\<close>

definition score_limit_reached :: "jsnum \<Rightarrow> room \<Rightarrow> bool" where
  "score_limit_reached SCORE_LIMIT room =
     js_ge (Num (real (max (fst (r_score room)) (snd (r_score room))))) SCORE_LIMIT"

definition duration_exceeded :: "room \<Rightarrow> int \<Rightarrow> bool" where
  "duration_exceeded room now = (now - r_startedAt room > MATCH_MAX_DURATION_MS)"

definition grace_expired :: "int \<Rightarrow> member \<Rightarrow> bool" where
  "grace_expired now member =
     (\<not> truthy_str (m_socketId member) \<and>
      (case m_disconnectedAt member of None \<Rightarrow> False | Some t \<Rightarrow> t \<noteq> 0 \<and> now - t > RECONNECT_GRACE_MS))"

definition team_all_abandoned :: "room \<Rightarrow> int \<Rightarrow> nat \<Rightarrow> bool" where
  "team_all_abandoned room now t =
     list_all (\<lambda>(k, member). m_team member = t \<longrightarrow> m_abandoned member \<or> grace_expired now member)
       (r_members room)"

section \<open>Queue entries and playlists\<close>

text \<open>
  A queue entry, as \<open>createQueueEntry\<close> builds it, with the \<open>bucketKey\<close> that
  \<open>enqueueFromSocketState\<close> adds. The party size is a number between 1 and the playlist's
  maximum (a client may send a fraction, and \<open>clamp\<close> keeps it); the rating may be \<open>NaN\<close>.
\<close>

record queue_entry =
  q_id :: string
  q_socketId :: string
  q_playerId :: string
  q_nickname :: string
  q_partySize :: real
  q_rating :: jsnum
  q_joinedAt :: int
  q_playlist :: string
  q_region :: string
  q_inputMode :: string
  q_pingMs :: real
  q_maxPingMs :: real
  q_bucketKey :: string

record playlist_config =
  pc_id :: string
  pc_label :: string
  pc_teamSize :: nat
  pc_totalSeats :: nat
  pc_teamSlots :: "nat list \<times> nat list"
  pc_maxPartySize :: nat

definition ranked :: playlist_config where
  "ranked = \<lparr> pc_id = ''ranked'', pc_label = ''2v2 Ranked'', pc_teamSize = 2, pc_totalSeats = 4,
     pc_teamSlots = ([0, 1], [2, 3]), pc_maxPartySize = 2 \<rparr>"

definition duel :: playlist_config where
  "duel = \<lparr> pc_id = ''duel'', pc_label = ''1v1 Duel'', pc_teamSize = 1, pc_totalSeats = 2,
     pc_teamSlots = ([0], [2]), pc_maxPartySize = 1 \<rparr>"

text \<open>\<open>PLAYLISTS[playlist] ?? PLAYLISTS.ranked\<close>, on the playlist names the server stores.\<close>

definition getPlaylistConfig :: "string \<Rightarrow> playlist_config" where
  "getPlaylistConfig playlist =
     (if playlist = ''ranked'' then ranked else if playlist = ''duel'' then duel else ranked)"

text \<open>\<open>playlistConfig.teamSlots[team]\<close> for the teams 0 and 1.\<close>

definition teamSlots :: "playlist_config \<Rightarrow> nat \<Rightarrow> nat list" where
  "teamSlots cfg team = (if team = 0 then fst (pc_teamSlots cfg) else snd (pc_teamSlots cfg))"

definition inputModeCompatible :: "string \<Rightarrow> string \<Rightarrow> bool" where
  "inputModeCompatible a b = (a = ''mixed'' \<or> b = ''mixed'' \<or> a = b)"

definition mmrRangeForEntry :: "queue_entry \<Rightarrow> int \<Rightarrow> int" where
  "mmrRangeForEntry entry now =
     (let waitMs = max 0 (now - q_joinedAt entry);
          expansions = waitMs div QUEUE_EXPAND_EVERY_MS
      in min QUEUE_MAX_MMR_RANGE (QUEUE_BASE_MMR_RANGE + expansions * QUEUE_EXPAND_STEP))"

section \<open>MatchFinder\<close>

text \<open>
  \<open>comboCompatible(entries, now)\<close>. The checks of one pair \<open>(a, b)\<close> with \<open>a\<close> before
  \<open>b\<close>; the outer loop checks \<open>a.pingMs > a.maxPingMs\<close> and then every later \<open>b\<close>. The
  function has no effect, so the first failing check and the conjunction of all checks
  give the same result.
\<close>

definition pairCompatible :: "int \<Rightarrow> queue_entry \<Rightarrow> queue_entry \<Rightarrow> bool" where
  "pairCompatible now a b =
     (inputModeCompatible (q_inputMode a) (q_inputMode b) \<and>
      \<not> js_gt (js_abs (js_sub (q_rating a) (q_rating b)))
            (Num (real_of_int (min (mmrRangeForEntry a now) (mmrRangeForEntry b now)))) \<and>
      \<not> (q_pingMs a > q_maxPingMs b \<or> q_pingMs b > q_maxPingMs a))"

fun comboCompatible :: "queue_entry list \<Rightarrow> int \<Rightarrow> bool" where
  "comboCompatible [] now = True"
| "comboCompatible (a # rest) now =
     (\<not> q_pingMs a > q_maxPingMs a \<and> list_all (pairCompatible now a) rest \<and> comboCompatible rest now)"

text \<open>
  \<open>findBestTeamPartition(entries, teamSize)\<close>. \<open>evaluatePartition(indices)\<close> splits the
  entries by membership of their index in \<open>indices\<close>, keeps a split where both teams hold
  exactly \<open>teamSize\<close> seats, and replaces \<open>best\<close> only by a strictly smaller difference of
  the team averages. The seat sums are the running sums of the source.
\<close>

record partition_best =
  pb_team0 :: "queue_entry list"
  pb_team1 :: "queue_entry list"
  pb_diff :: jsnum

definition evaluatePartition ::
  "queue_entry list \<Rightarrow> nat \<Rightarrow> nat list \<Rightarrow> partition_best option \<Rightarrow> partition_best option" where
  "evaluatePartition entries teamSize indices best =
     (let team0 = map (nth entries) (filter (\<lambda>index. index \<in> set indices) [0..<length entries]);
          team1 = map (nth entries) (filter (\<lambda>index. index \<notin> set indices) [0..<length entries]);
          team0Seats = sum_list (map q_partySize team0);
          team1Seats = sum_list (map q_partySize team1)
      in if team0Seats \<noteq> real teamSize \<or> team1Seats \<noteq> real teamSize then best
         else
           (let avg0 = ratingAverage (\<lambda>entry. Some (q_rating entry)) q_partySize team0;
                avg1 = ratingAverage (\<lambda>entry. Some (q_rating entry)) q_partySize team1;
                diff = js_abs (js_sub avg0 avg1);
                found = \<lparr> pb_team0 = team0, pb_team1 = team1, pb_diff = diff \<rparr>
            in case best of
                 None \<Rightarrow> Some found
               | Some b \<Rightarrow> if js_lt diff (pb_diff b) then Some found else best))"

text \<open>
  The inner \<open>dfs(startIndex, currentSeats)\<close> with its \<open>for\<close> loop. \<open>chosen\<close> is the stack
  of picked indices; the loop variable runs over the list \<open>is\<close> of the indices from
  \<open>startIndex\<close> to the end, and the recursive call gets the indices after the picked one.
\<close>

fun partition_dfs ::
    "queue_entry list \<Rightarrow> nat \<Rightarrow> nat list \<Rightarrow> nat list \<Rightarrow> real \<Rightarrow> partition_best option \<Rightarrow> partition_best option"
  and partition_loop ::
    "queue_entry list \<Rightarrow> nat \<Rightarrow> nat list \<Rightarrow> nat list \<Rightarrow> real \<Rightarrow> partition_best option \<Rightarrow> partition_best option"
where
  "partition_dfs entries teamSize chosen is currentSeats best =
     (if currentSeats = real teamSize then evaluatePartition entries teamSize chosen best
      else if currentSeats > real teamSize then best
      else partition_loop entries teamSize chosen is currentSeats best)"
| "partition_loop entries teamSize chosen [] currentSeats best = best"
| "partition_loop entries teamSize chosen (i # is) currentSeats best =
     partition_loop entries teamSize chosen is currentSeats
       (partition_dfs entries teamSize (chosen @ [i]) is (currentSeats + q_partySize (entries ! i)) best)"

record partition_result =
  pr_assignmentByEntryId :: "string \<rightharpoonup> nat"
  pr_teamDiff :: jsnum

definition findBestTeamPartition :: "queue_entry list \<Rightarrow> nat \<Rightarrow> partition_result option" where
  "findBestTeamPartition entries teamSize =
     (case partition_dfs entries teamSize [] [0..<length entries] 0 None of
        None \<Rightarrow> None
      | Some best \<Rightarrow>
          Some \<lparr> pr_assignmentByEntryId =
                   foldl (\<lambda>m entry. m(q_id entry \<mapsto> 1))
                     (foldl (\<lambda>m entry. m(q_id entry \<mapsto> 0)) Map.empty (pb_team0 best))
                     (pb_team1 best),
                 pr_teamDiff = pb_diff best \<rparr>)"

text \<open>
  \<open>assignSlots(entries, assignmentByEntryId, playlistConfig)\<close>. The first loop fails on
  an entry without a team; \<open>byTeam[team]\<close> keeps the entries of a team in their order.
  The comparator orders by party size, larger first, and then by join time; \<open>sort\<close> is
  stable. \<open>assignTeam\<close> is the loop over one team's sorted entries with its pool of seats:
  the inner loop \<open>for (i = 0; i < entry.partySize; i += 1)\<close> shifts one seat for every
  natural number below the party size.
\<close>

fun assignTeam ::
  "nat list \<Rightarrow> queue_entry list \<Rightarrow> (string \<rightharpoonup> nat list) \<Rightarrow> (string \<rightharpoonup> nat list) option" where
  "assignTeam pool [] result = Some result"
| "assignTeam pool (entry # rest) result =
     (if q_partySize entry > real (length pool) then None
      else
        (let n = nat \<lceil>q_partySize entry\<rceil>
         in assignTeam (drop n pool) rest (result(q_id entry \<mapsto> take n pool))))"

definition byTeam :: "queue_entry list \<Rightarrow> (string \<rightharpoonup> nat) \<Rightarrow> nat \<Rightarrow> queue_entry list" where
  "byTeam entries assignmentByEntryId team =
     sort_key (\<lambda>entry. (- q_partySize entry, q_joinedAt entry))
       (filter (\<lambda>entry. assignmentByEntryId (q_id entry) = Some team) entries)"

definition assignSlots ::
  "queue_entry list \<Rightarrow> (string \<rightharpoonup> nat) \<Rightarrow> playlist_config \<Rightarrow> (string \<rightharpoonup> nat list) option" where
  "assignSlots entries assignmentByEntryId playlistConfig =
     (if list_ex (\<lambda>entry. assignmentByEntryId (q_id entry) = None) entries then None
      else
        (case assignTeam (teamSlots playlistConfig 0) (byTeam entries assignmentByEntryId 0) Map.empty of
           None \<Rightarrow> None
         | Some result \<Rightarrow>
             assignTeam (teamSlots playlistConfig 1) (byTeam entries assignmentByEntryId 1) result))"

record candidate =
  c_entries :: "queue_entry list"
  c_assignmentByEntryId :: "string \<rightharpoonup> nat"
  c_slotsByEntryId :: "string \<rightharpoonup> nat list"
  c_playlist :: string
  c_region :: string
  c_oldestJoinedAt :: int
  c_mmrSpan :: jsnum
  c_teamDiff :: jsnum
  c_avgPing :: real

text \<open>\<open>compareCandidate(a, b)\<close>, on \<open>best\<close> (possibly \<open>null\<close>) and a new candidate.\<close>

fun compareCandidate :: "candidate option \<Rightarrow> candidate \<Rightarrow> candidate" where
  "compareCandidate None b = b"
| "compareCandidate (Some a) b =
     (if c_oldestJoinedAt a \<noteq> c_oldestJoinedAt b then
        (if c_oldestJoinedAt a < c_oldestJoinedAt b then a else b)
      else if js_ne (c_mmrSpan a) (c_mmrSpan b) then
        (if js_lt (c_mmrSpan a) (c_mmrSpan b) then a else b)
      else if js_ne (c_teamDiff a) (c_teamDiff b) then
        (if js_lt (c_teamDiff a) (c_teamDiff b) then a else b)
      else if c_avgPing a \<le> c_avgPing b then a else b)"

text \<open>
  \<open>evaluateCurrent()\<close> of \<open>findBestCandidate\<close>, with \<open>current\<close> and \<open>best\<close> as
  arguments. It runs only on a selection whose seats add up to \<open>totalSeats\<close>; both
  playlists have a positive \<open>totalSeats\<close>, so the selection is never empty and
  \<open>current[0]\<close> exists (on the empty selection the source would throw; the first
  equation stands for that case, which no call reaches).
\<close>

fun evaluateCurrent ::
  "playlist_config \<Rightarrow> int \<Rightarrow> queue_entry list \<Rightarrow> candidate option \<Rightarrow> candidate option" where
  "evaluateCurrent playlistConfig now [] best = best"
| "evaluateCurrent playlistConfig now (first # others) best =
     (let current = first # others in
      if \<not> comboCompatible current now then best
      else
        (case findBestTeamPartition current (pc_teamSize playlistConfig) of
           None \<Rightarrow> best
         | Some partition' \<Rightarrow>
             (case assignSlots current (pr_assignmentByEntryId partition') playlistConfig of
                None \<Rightarrow> best
              | Some slotMap \<Rightarrow>
                  (let ratings = map q_rating current;
                       pings = map q_pingMs current;
                       found = \<lparr> c_entries = current,
                                 c_assignmentByEntryId = pr_assignmentByEntryId partition',
                                 c_slotsByEntryId = slotMap,
                                 c_playlist = q_playlist first,
                                 c_region = q_region first,
                                 c_oldestJoinedAt = min_list (map q_joinedAt current),
                                 c_mmrSpan = js_sub (js_maximum ratings) (js_minimum ratings),
                                 c_teamDiff = pr_teamDiff partition',
                                 c_avgPing = foldl (\<lambda>sum ping. sum + ping) 0 pings / real (length pings) \<rparr>
                   in Some (compareCandidate best found)))))"

text \<open>
  The outer \<open>dfs(startIndex, seatCount)\<close> with its loop over \<open>searchPool\<close>. \<open>current\<close>
  is the stack of picked entries; \<open>pool\<close> is the part of \<open>searchPool\<close> from
  \<open>startIndex\<close> on, and the recursive call gets the part after the picked entry.
\<close>

fun candidate_dfs ::
    "playlist_config \<Rightarrow> int \<Rightarrow> queue_entry list \<Rightarrow> queue_entry list \<Rightarrow> real \<Rightarrow> candidate option \<Rightarrow> candidate option"
  and candidate_loop ::
    "playlist_config \<Rightarrow> int \<Rightarrow> queue_entry list \<Rightarrow> queue_entry list \<Rightarrow> real \<Rightarrow> candidate option \<Rightarrow> candidate option"
where
  "candidate_dfs playlistConfig now current pool seatCount best =
     (if seatCount = real (pc_totalSeats playlistConfig) then evaluateCurrent playlistConfig now current best
      else if seatCount > real (pc_totalSeats playlistConfig) then best
      else candidate_loop playlistConfig now current pool seatCount best)"
| "candidate_loop playlistConfig now current [] seatCount best = best"
| "candidate_loop playlistConfig now current (entry # pool) seatCount best =
     candidate_loop playlistConfig now current pool seatCount
       (candidate_dfs playlistConfig now (current @ [entry]) pool (seatCount + q_partySize entry) best)"

definition findBestCandidate :: "queue_entry list \<Rightarrow> int \<Rightarrow> playlist_config \<Rightarrow> candidate option" where
  "findBestCandidate entries now playlistConfig =
     (if length entries < 2 then None
      else
        (let ordered = sort_key q_joinedAt entries;
             searchPool = take 16 ordered
         in candidate_dfs playlistConfig now [] searchPool 0 None))"

text \<open>
  What a returned combination assigns: the entries of a team, in the order of the
  combination, and the seats of all its entries, read from \<open>slotsByEntryId\<close>.
\<close>

definition team_entries :: "candidate \<Rightarrow> nat \<Rightarrow> queue_entry list" where
  "team_entries c team = filter (\<lambda>entry. c_assignmentByEntryId c (q_id entry) = Some team) (c_entries c)"

definition seats_of :: "(string \<rightharpoonup> nat list) \<Rightarrow> queue_entry \<Rightarrow> nat list" where
  "seats_of slotsByEntryId entry = (case slotsByEntryId (q_id entry) of None \<Rightarrow> [] | Some slots \<Rightarrow> slots)"

definition assigned_seats :: "candidate \<Rightarrow> nat list" where
  "assigned_seats c = concat (map (seats_of (c_slotsByEntryId c)) (c_entries c))"

section \<open>Strings and request payloads\<close>

text \<open>
  Strings are lists of ASCII characters. \<open>toLowerCase\<close> maps the letters A-Z, \<open>trim\<close>
  removes the ASCII white space at both ends, \<open>slice(0, n)\<close> is \<open>take n\<close>, and \<open>dec\<close>
  is the decimal rendering of a sequence number in a template string.
\<close>

definition lower_char :: "char \<Rightarrow> char" where
  "lower_char c =
     (case map_of (zip ''ABCDEFGHIJKLMNOPQRSTUVWXYZ'' ''abcdefghijklmnopqrstuvwxyz'') c of
        None \<Rightarrow> c | Some d \<Rightarrow> d)"

definition js_toLowerCase :: "string \<Rightarrow> string" where
  "js_toLowerCase s = map lower_char s"

definition is_space :: "char \<Rightarrow> bool" where
  "is_space c = (c \<in> set [CHR '' '', CHR 0x09, CHR 0x0A, CHR 0x0B, CHR 0x0C, CHR 0x0D])"

definition js_trim :: "string \<Rightarrow> string" where
  "js_trim s = rev (dropWhile is_space (rev (dropWhile is_space s)))"

function dec :: "nat \<Rightarrow> string" where
  "dec n = (if n < 10 then [''0123456789'' ! n] else dec (n div 10) @ [''0123456789'' ! (n mod 10)])"
  by pat_completeness auto
termination by (relation "measure id") auto

declare dec.simps [simp del]

text \<open>\<open>String(value ?? "Jugador").trim().slice(0, 18) || "Jugador"\<close>\<close>

definition sanitizeNickname :: "string option \<Rightarrow> string" where
  "sanitizeNickname v =
     (let s = take 18 (js_trim (case v of None \<Rightarrow> ''Jugador'' | Some x \<Rightarrow> x))
      in if s = [] then ''Jugador'' else s)"

definition normalizePlaylist :: "string option \<Rightarrow> string" where
  "normalizePlaylist v =
     (let normalized = js_trim (js_toLowerCase (case v of None \<Rightarrow> ''ranked'' | Some x \<Rightarrow> x))
      in if normalized = ''duel'' \<or> normalized = ''1v1'' then ''duel'' else ''ranked'')"

definition normalizeRegion :: "string option \<Rightarrow> string" where
  "normalizeRegion v =
     (let normalized = take 8 (js_trim (js_toLowerCase (case v of None \<Rightarrow> ''na'' | Some x \<Rightarrow> x)))
      in if normalized = [] then ''na'' else normalized)"

definition normalizeInputMode :: "string option \<Rightarrow> string" where
  "normalizeInputMode v =
     (let normalized = js_toLowerCase (case v of None \<Rightarrow> ''mixed'' | Some x \<Rightarrow> x)
      in if normalized = ''keyboard'' \<or> normalized = ''controller'' then normalized else ''mixed'')"

text \<open>\<open>`${entry.playlist}|${entry.region}`\<close>\<close>

definition getBucketKey :: "string \<Rightarrow> string \<Rightarrow> string" where
  "getBucketKey playlist region = playlist @ ''|'' @ region"

text \<open>
  The payload of \<open>joinQueue\<close> (and the object \<open>cancelReadyCheck\<close> builds for a
  re-queue). A field is absent or present; text fields are strings, numeric fields are
  numbers. \<open>number_or v d\<close> is \<open>Number(v) || d\<close>: the default for an absent field,
  for \<open>NaN\<close> and for 0.
\<close>

record queue_payload =
  p_nickname :: "string option"
  p_partySize :: "jsnum option"
  p_playlist :: "string option"
  p_region :: "string option"
  p_inputMode :: "string option"
  p_maxPingMs :: "jsnum option"

fun number_or :: "jsnum option \<Rightarrow> real \<Rightarrow> real" where
  "number_or (Some (Num x)) d = (if x = 0 then d else x)"
| "number_or _ d = d"

section \<open>The state of the server\<close>

text \<open>The state the server keeps per connection (\<open>socketState\<close>); the statistics and
  the latency probe timer are left out.\<close>

record sock_state =
  ss_socketId :: string
  ss_playerId :: string
  ss_nickname :: string
  ss_rating :: jsnum
  ss_partySize :: real
  ss_playlist :: string
  ss_region :: string
  ss_inputMode :: string
  ss_pendingReadyId :: "string option"
  ss_roomId :: "string option"
  ss_slots :: "nat list"
  ss_reconnect :: "(string \<times> string) option"
  ss_pingMs :: real

record ready_member =
  rm_socketId :: string
  rm_playerId :: string
  rm_nickname :: string
  rm_partySize :: real
  rm_ratingBefore :: jsnum
  rm_team :: nat
  rm_slots :: "nat list"
  rm_reconnectToken :: string
  rm_inputMode :: string

text \<open>
  A ready-check. \<open>rd_accepted\<close> is the \<open>Set\<close> of player ids in insertion order.
  \<open>rd_timerDueAt\<close> is the time for which \<open>setTimeout\<close> arms \<open>timeoutHandle\<close>; the timer
  is cleared exactly where the ready-check leaves \<open>pendingReadyById\<close>.
\<close>

record ready_check =
  rd_id :: string
  rd_playlist :: string
  rd_region :: string
  rd_seed :: string
  rd_members :: "ready_member list"
  rd_accepted :: "string list"
  rd_createdAt :: int
  rd_expiresAt :: int
  rd_timerDueAt :: int

text \<open>A player of the in-memory persistence and a stored match.\<close>

record player =
  pl_playerId :: string
  pl_tokenHash :: string
  pl_nickname :: string
  pl_rating :: jsnum
  pl_games :: nat
  pl_wins :: nat
  pl_losses :: nat
  pl_abandons :: nat
  pl_createdAt :: int
  pl_updatedAt :: int

record match_record =
  mr_matchId :: string
  mr_playlist :: string
  mr_seed :: string
  mr_team0Score :: nat
  mr_team1Score :: nat
  mr_winnerTeam :: "nat option"
  mr_startedAt :: int
  mr_endedAt :: int
  mr_players :: "rating_change list"
  mr_storedAt :: int

text \<open>
  What the server sends. An emission goes to one socket (\<open>socket.emit\<close>) or to a
  socket.io room (\<open>io.to(room.id).emit\<close>); payloads keep the fields the properties
  speak of. \<open>ForcedDisconnect\<close> is \<open>socket.disconnect(true)\<close>.
\<close>

datatype target = ToSocket string | ToRoom string

datatype out_event =
    Queued nat nat
  | QueueUpdate nat nat
  | ServerNotice string
  | ReadyCheck string int nat nat
  | ReadyUpdate string nat nat
  | ReadyCancelled string string
  | MatchFound string "nat list" string
  | MatchRejoined string "nat list" string
  | StateSnapshot string
  | PlayerLeft string string
  | PlayerPresence string bool
  | MatchEnded string end_reason "nat option" "nat \<times> nat" "rating_change list"
  | Identity string string
  | ForcedDisconnect

text \<open>
  The process-wide state. Rooms and ready-checks are objects: \<open>roomHeap\<close> and
  \<open>readyHeap\<close> hold every object ever created, an object is named by its index, and
  the maps \<open>activeRooms\<close> and \<open>pendingReadyById\<close> map an id to an object, in insertion
  order. \<open>queueByBucket\<close> is a \<open>Map\<close> in insertion order as well. \<open>sockets\<close> is
  \<open>io.sockets.sockets\<close>, the connected sockets. \<open>playersById\<close>,
  \<open>playerIdByTokenHash\<close> and \<open>matches\<close> are the in-memory persistence. \<open>emitted\<close> is
  the log of emissions, and \<open>drawn\<close> counts the random strings drawn so far.
\<close>

record server =
  queueByBucket :: "(string \<times> queue_entry list) list"
  queueEntryBySocket :: "string \<rightharpoonup> (string \<times> queue_entry)"
  roomHeap :: "room list"
  activeRooms :: "(string \<times> nat) list"
  readyHeap :: "ready_check list"
  pendingReadyById :: "(string \<times> nat) list"
  socketState :: "string \<rightharpoonup> sock_state"
  playerSocket :: "string \<rightharpoonup> string"
  roomSequence :: nat
  readySequence :: nat
  sockets :: "string set"
  playersById :: "string \<rightharpoonup> player"
  playerIdByTokenHash :: "string \<rightharpoonup> string"
  matches :: "match_record list"
  emitted :: "(target \<times> out_event) list"
  drawn :: nat

text \<open>\<open>io.sockets.sockets.get(id)?.emit(...)\<close> and \<open>io.to(room).emit(...)\<close>.\<close>

definition emit_to :: "string \<Rightarrow> out_event \<Rightarrow> server \<Rightarrow> server" where
  "emit_to sid ev s = (if sid \<in> sockets s then s\<lparr>emitted := emitted s @ [(ToSocket sid, ev)]\<rparr> else s)"

definition emit_room :: "string \<Rightarrow> out_event \<Rightarrow> server \<Rightarrow> server" where
  "emit_room rid ev s = s\<lparr>emitted := emitted s @ [(ToRoom rid, ev)]\<rparr>"

text \<open>Writing one field group of a connection's state, when the connection has a state.\<close>

definition update_state :: "string \<Rightarrow> (sock_state \<Rightarrow> sock_state) \<Rightarrow> server \<Rightarrow> server" where
  "update_state sid f s =
     (case socketState s sid of
        None \<Rightarrow> s
      | Some st \<Rightarrow> s\<lparr>socketState := (socketState s)(sid \<mapsto> f st)\<rparr>)"

text \<open>
  Random strings (\<open>randomUUID()\<close>, the seed, a hashed fresh session token) come from a
  supply \<open>rnd\<close>, a parameter of every function that draws; the n-th draw is \<open>rnd n\<close>.
\<close>

definition draw :: "(nat \<Rightarrow> string) \<Rightarrow> server \<Rightarrow> string \<times> server" where
  "draw rnd s = (rnd (drawn s), s\<lparr>drawn := drawn s + 1\<rparr>)"

section \<open>QueueManager\<close>

text \<open>\<open>list.findIndex(p)\<close> counted from 0 (the length of the list when nothing matches,
  a case the callers do not reach) and \<open>findIndex\<close> followed by \<open>splice(index, 1)\<close>.\<close>

definition index_of :: "('a \<Rightarrow> bool) \<Rightarrow> 'a list \<Rightarrow> nat" where
  "index_of P xs = length (takeWhile (\<lambda>x. \<not> P x) xs)"

fun remove_first :: "('a \<Rightarrow> bool) \<Rightarrow> 'a list \<Rightarrow> 'a list" where
  "remove_first P [] = []"
| "remove_first P (x # xs) = (if P x then xs else x # remove_first P xs)"

text \<open>
  \<open>removeQueueEntry(socketId)\<close>: the removed entry (or \<open>null\<close>) and the new state. When
  the bucket is not in the map the source works on a fresh empty array and its
  \<open>delete\<close> finds nothing.
\<close>

definition removeQueueEntry :: "string \<Rightarrow> server \<Rightarrow> queue_entry option \<times> server" where
  "removeQueueEntry socketId s =
     (case queueEntryBySocket s socketId of
        None \<Rightarrow> (None, s)
      | Some (bucketKey, entry) \<Rightarrow>
          (let s1 =
                 (case map_of (queueByBucket s) bucketKey of
                    None \<Rightarrow> s
                  | Some list \<Rightarrow>
                      (let list' = remove_first (\<lambda>e. q_id e = q_id entry) list
                       in if list' = [] then s\<lparr>queueByBucket := AList.delete bucketKey (queueByBucket s)\<rparr>
                          else s\<lparr>queueByBucket := AList.update bucketKey list' (queueByBucket s)\<rparr>))
           in (Some entry, s1\<lparr>queueEntryBySocket := (queueEntryBySocket s1)(socketId := None)\<rparr>)))"

text \<open>\<open>updateQueuePositions(bucketKey)\<close>: sorts the bucket in place and reports rank and
  size to every entry whose socket is connected.\<close>

definition updateQueuePositions :: "int \<Rightarrow> string \<Rightarrow> server \<Rightarrow> server" where
  "updateQueuePositions now bucketKey s =
     (case map_of (queueByBucket s) bucketKey of
        None \<Rightarrow> s
      | Some unsorted \<Rightarrow>
          (let list = sort_key q_joinedAt unsorted;
               s1 = s\<lparr>queueByBucket := AList.update bucketKey list (queueByBucket s)\<rparr>
           in foldl (\<lambda>st (index, entry). emit_to (q_socketId entry) (QueueUpdate (index + 1) (length list)) st)
                s1 (enumerate 0 list)))"

definition updateAllQueuePositions :: "int \<Rightarrow> server \<Rightarrow> server" where
  "updateAllQueuePositions now s =
     foldl (\<lambda>st key. updateQueuePositions now key st) s (map fst (queueByBucket s))"

text \<open>\<open>MemoryPersistence.updateNickname(playerId, nickname)\<close>; its result is not used.\<close>

definition updateNickname :: "int \<Rightarrow> string \<Rightarrow> string \<Rightarrow> server \<Rightarrow> server" where
  "updateNickname now playerId nickname s =
     (case playersById s playerId of
        None \<Rightarrow> s
      | Some p \<Rightarrow>
          s\<lparr>playersById := (playersById s)(playerId \<mapsto>
               p\<lparr>pl_nickname := sanitizeNickname (Some nickname), pl_updatedAt := now\<rparr>)\<rparr>)"

text \<open>
  \<open>enqueueFromSocketState(state, payload, priorityMs)\<close>. \<open>state\<close> is the state object
  of the connection \<open>sid\<close> (every caller has checked that it exists). The entry gets the
  id \<open>q_\<close> followed by a fresh UUID, and the join time \<open>Date.now() - Math.max(0,
  priorityMs)\<close>.
\<close>

definition enqueueFromSocketState ::
  "(nat \<Rightarrow> string) \<Rightarrow> int \<Rightarrow> string \<Rightarrow> queue_payload \<Rightarrow> int \<Rightarrow> server \<Rightarrow> server" where
  "enqueueFromSocketState rnd now sid payload priorityMs s =
     (case socketState s sid of
        None \<Rightarrow> s
      | Some state \<Rightarrow>
          (let playlist = normalizePlaylist (p_playlist payload);
               playlistConfig = getPlaylistConfig playlist;
               region = normalizeRegion (p_region payload);
               inputMode = normalizeInputMode (p_inputMode payload);
               nickname = sanitizeNickname
                  (case p_nickname payload of None \<Rightarrow> Some (ss_nickname state) | Some n \<Rightarrow> Some n);
               requestedParty = clamp (number_or (p_partySize payload) 1) 1 4;
               partySize = clamp requestedParty 1 (real (pc_maxPartySize playlistConfig));
               maxPingMs = clamp (number_or (p_maxPingMs payload) DEFAULT_MAX_PING_MS) 80 500;
               state' = state\<lparr>ss_nickname := nickname, ss_partySize := partySize, ss_playlist := playlist,
                               ss_region := region, ss_inputMode := inputMode\<rparr>;
               s1 = s\<lparr>socketState := (socketState s)(sid \<mapsto> state')\<rparr>;
               s2 = updateNickname now (ss_playerId state') nickname s1;
               joinedAt = now - max 0 priorityMs;
               (uuid, s3) = draw rnd s2;
               key = getBucketKey playlist region;
               entry = \<lparr> q_id = ''q_'' @ uuid, q_socketId = ss_socketId state', q_playerId = ss_playerId state',
                         q_nickname = nickname, q_partySize = partySize, q_rating = ss_rating state',
                         q_joinedAt = joinedAt, q_playlist = playlist, q_region = region,
                         q_inputMode = inputMode, q_pingMs = ss_pingMs state', q_maxPingMs = maxPingMs,
                         q_bucketKey = key \<rparr>;
               old = (case map_of (queueByBucket s3) key of None \<Rightarrow> [] | Some l \<Rightarrow> l);
               list = sort_key q_joinedAt (old @ [entry]);
               s4 = s3\<lparr>queueByBucket := AList.update key list (queueByBucket s3),
                       queueEntryBySocket := (queueEntryBySocket s3)(ss_socketId state' \<mapsto> (key, entry))\<rparr>;
               s5 = emit_to (ss_socketId state')
                      (Queued (index_of (\<lambda>item. q_id item = q_id entry) list + 1) (length list)) s4;
               s6 = (if requestedParty \<noteq> partySize
                     then emit_to (ss_socketId state') (ServerNotice ''Party size ajustado'') s5 else s5)
           in updateQueuePositions now key s6))"

section \<open>ReadyCheckCoordinator\<close>

definition clearPendingReadyAssociation :: "ready_check \<Rightarrow> server \<Rightarrow> server" where
  "clearPendingReadyAssociation ready s =
     foldl (\<lambda>st member.
              update_state (rm_socketId member)
                (\<lambda>state. if ss_pendingReadyId state = Some (rd_id ready)
                          then state\<lparr>ss_pendingReadyId := None\<rparr> else state) st)
       s (rd_members ready)"

text \<open>The object \<open>cancelReadyCheck\<close> passes to \<open>enqueueFromSocketState\<close> for a member.\<close>

definition requeuePayload :: "ready_check \<Rightarrow> ready_member \<Rightarrow> queue_payload" where
  "requeuePayload ready member =
     \<lparr> p_nickname = Some (rm_nickname member), p_partySize = Some (Num (rm_partySize member)),
       p_playlist = Some (rd_playlist ready), p_region = Some (rd_region ready),
       p_inputMode = Some (rm_inputMode member), p_maxPingMs = None \<rparr>"

text \<open>The body of the second member loop of \<open>cancelReadyCheck\<close>, with its four
  \<open>continue\<close> guards.\<close>

definition requeueMember ::
  "(nat \<Rightarrow> string) \<Rightarrow> int \<Rightarrow> ready_check \<Rightarrow> bool \<Rightarrow> string option \<Rightarrow> server \<Rightarrow> ready_member \<Rightarrow> server" where
  "requeueMember rnd now ready acceptedOnly excludePlayerId s member =
     (if Some (rm_playerId member) = excludePlayerId then s
      else if acceptedOnly \<and> rm_playerId member \<notin> set (rd_accepted ready) then s
      else
        (case playerSocket s (rm_playerId member) of
           None \<Rightarrow> s
         | Some currentSocketId \<Rightarrow>
             if currentSocketId = [] then s
             else
               (case socketState s currentSocketId of
                  None \<Rightarrow> s
                | Some state \<Rightarrow>
                    if truthy_str (ss_roomId state) then s
                    else
                      enqueueFromSocketState rnd now currentSocketId (requeuePayload ready member)
                        QUEUE_REQUEUE_PRIORITY_MS (snd (removeQueueEntry currentSocketId s)))))"

text \<open>
  \<open>cancelReadyCheck(ready, reason, { acceptedOnly, excludePlayerId })\<close>, on the
  ready-check object \<open>a\<close>.
\<close>

definition cancelReadyCheck ::
  "(nat \<Rightarrow> string) \<Rightarrow> int \<Rightarrow> nat \<Rightarrow> string \<Rightarrow> bool \<Rightarrow> string option \<Rightarrow> server \<Rightarrow> server" where
  "cancelReadyCheck rnd now a reason acceptedOnly excludePlayerId s =
     (let ready = readyHeap s ! a in
      if map_of (pendingReadyById s) (rd_id ready) = None then s
      else
        (let s1 = s\<lparr>pendingReadyById := AList.delete (rd_id ready) (pendingReadyById s)\<rparr>;
             s2 = clearPendingReadyAssociation ready s1;
             s3 = foldl (\<lambda>st member. emit_to (rm_socketId member) (ReadyCancelled (rd_id ready) reason) st)
                    s2 (rd_members ready)
         in foldl (requeueMember rnd now ready acceptedOnly excludePlayerId) s3 (rd_members ready)))"

text \<open>
  The members of a new ready-check: \<open>selected.map(...).filter(Boolean)\<close>. An entry
  without a team or without seats is dropped; every other entry draws its reconnect
  token \<open>rc_\<close> followed by a fresh UUID.
\<close>

fun buildMembers ::
  "(nat \<Rightarrow> string) \<Rightarrow> candidate \<Rightarrow> queue_entry list \<Rightarrow> server \<Rightarrow> ready_member list \<times> server" where
  "buildMembers rnd c [] s = ([], s)"
| "buildMembers rnd c (entry # rest) s =
     (case (c_assignmentByEntryId c (q_id entry), c_slotsByEntryId c (q_id entry)) of
        (Some team, Some slots) \<Rightarrow>
          (let (uuid, s1) = draw rnd s;
               (members, s2) = buildMembers rnd c rest s1
           in (\<lparr> rm_socketId = q_socketId entry, rm_playerId = q_playerId entry,
                  rm_nickname = q_nickname entry, rm_partySize = q_partySize entry,
                  rm_ratingBefore = q_rating entry, rm_team = team, rm_slots = slots,
                  rm_reconnectToken = ''rc_'' @ uuid, rm_inputMode = q_inputMode entry \<rparr> # members, s2))
      | _ \<Rightarrow> buildMembers rnd c rest s)"

text \<open>
  One pass of the \<open>while (true)\<close> loop of \<open>tryCreateReadyChecks\<close> after a candidate was
  found and its entries were spliced out of the bucket: the new ready-check with its
  timer, the \<open>pendingReadyId\<close> of its members and their invitations. \<open>selected\<close> is in
  the order of the splice loop, which walks the bucket from its end.
\<close>

definition createReadyCheck ::
  "(nat \<Rightarrow> string) \<Rightarrow> int \<Rightarrow> candidate \<Rightarrow> queue_entry list \<Rightarrow> server \<Rightarrow> server" where
  "createReadyCheck rnd now c selected s =
     (let readyId = ''ready-'' @ dec (readySequence s);
          s1 = s\<lparr>readySequence := readySequence s + 1\<rparr>;
          (seed, s2) = draw rnd s1;
          (members, s3) = buildMembers rnd c selected s2
      in if members = [] then s3
         else
           (let ready = \<lparr> rd_id = readyId,
                          rd_playlist = (case selected of [] \<Rightarrow> [] | e # _ \<Rightarrow> q_playlist e),
                          rd_region = (case selected of [] \<Rightarrow> [] | e # _ \<Rightarrow> q_region e),
                          rd_seed = seed, rd_members = members, rd_accepted = [],
                          rd_createdAt = now, rd_expiresAt = now + READY_CHECK_MS,
                          rd_timerDueAt = now + READY_CHECK_MS + 80 \<rparr>;
                s4 = s3\<lparr>readyHeap := readyHeap s3 @ [ready],
                        pendingReadyById := AList.update readyId (length (readyHeap s3)) (pendingReadyById s3)\<rparr>
            in foldl (\<lambda>st member.
                        emit_to (rm_socketId member)
                          (ReadyCheck readyId (rd_expiresAt ready) 0 (length members))
                          (update_state (rm_socketId member) (\<lambda>state. state\<lparr>ss_pendingReadyId := Some readyId\<rparr>) st))
                 s4 members))"

lemma filter_out_shorter:
  "filter P (rev xs) \<noteq> [] \<Longrightarrow> length (filter (\<lambda>x. \<not> P x) xs) < length xs"
proof -
  assume "filter P (rev xs) \<noteq> []"
  then obtain x where "x \<in> set xs" "P x" by (metis filter_False set_rev)
  then show ?thesis by (metis length_filter_less)
qed

text \<open>
  The \<open>while (true)\<close> loop of \<open>tryCreateReadyChecks\<close>. \<open>list\<close> is the array of the
  bucket, which the loop splices in place, so the map entry changes with it. Every pass
  that does not \<open>break\<close> removes at least one entry.
\<close>

function readyLoop ::
  "(nat \<Rightarrow> string) \<Rightarrow> int \<Rightarrow> string \<Rightarrow> playlist_config \<Rightarrow> queue_entry list \<Rightarrow> server \<Rightarrow> server" where
  "readyLoop rnd now bucketKey playlistConfig list s =
     (case findBestCandidate list now playlistConfig of
        None \<Rightarrow> s
      | Some c \<Rightarrow>
          (let selected = filter (\<lambda>entry. q_id entry \<in> set (map q_id (c_entries c))) (rev list) in
           if selected = [] then s
           else
             (let list' = filter (\<lambda>entry. q_id entry \<notin> set (map q_id (c_entries c))) list;
                  s1 = foldl (\<lambda>st entry. st\<lparr>queueEntryBySocket := (queueEntryBySocket st)(q_socketId entry := None)\<rparr>)
                         s selected;
                  s2 = (if list' = [] then s1\<lparr>queueByBucket := AList.delete bucketKey (queueByBucket s1)\<rparr>
                        else s1\<lparr>queueByBucket := AList.update bucketKey list' (queueByBucket s1)\<rparr>)
              in readyLoop rnd now bucketKey playlistConfig list' (createReadyCheck rnd now c selected s2))))"
  by pat_completeness auto
termination
  by (relation "measure (\<lambda>(rnd, now, bucketKey, playlistConfig, list, s). length list)")
     (auto intro: filter_out_shorter)

declare readyLoop.simps [simp del]

definition tryCreateReadyChecks :: "(nat \<Rightarrow> string) \<Rightarrow> int \<Rightarrow> string \<Rightarrow> server \<Rightarrow> server" where
  "tryCreateReadyChecks rnd now bucketKey s =
     (case map_of (queueByBucket s) bucketKey of
        None \<Rightarrow> s
      | Some list \<Rightarrow>
          if length list < 2 then s
          else
            (let playlist = (case list of [] \<Rightarrow> ''ranked'' | e # _ \<Rightarrow> q_playlist e);
                 playlistConfig = getPlaylistConfig playlist
             in updateQueuePositions now bucketKey (readyLoop rnd now bucketKey playlistConfig list s)))"

definition tickQueueMatchmaking :: "(nat \<Rightarrow> string) \<Rightarrow> int \<Rightarrow> server \<Rightarrow> server" where
  "tickQueueMatchmaking rnd now s =
     foldl (\<lambda>st key. tryCreateReadyChecks rnd now key st) s (map fst (queueByBucket s))"

section \<open>RoomManager\<close>

text \<open>
  \<open>createRoomFromReady(ready)\<close>. The room gets the id \<open>match-\<close> followed by the room
  sequence number, the engine's initial score 0-0 and one member per member of the
  ready-check; a member whose socket is not connected starts disconnected.
\<close>

definition roomMemberOf :: "server \<Rightarrow> int \<Rightarrow> ready_member \<Rightarrow> member" where
  "roomMemberOf s now member =
     \<lparr> m_playerId = rm_playerId member, m_nickname = rm_nickname member,
       m_partySize = rm_partySize member, m_ratingBefore = rm_ratingBefore member,
       m_ratingAfter = rm_ratingBefore member, m_team = rm_team member, m_slots = rm_slots member,
       m_reconnectToken = rm_reconnectToken member, m_reconnectCount = 0,
       m_socketId = (if rm_socketId member \<in> sockets s then Some (rm_socketId member) else None),
       m_disconnectedAt = (if rm_socketId member \<in> sockets s then None else Some now),
       m_abandoned = False \<rparr>"

definition createRoomFromReady :: "int \<Rightarrow> ready_check \<Rightarrow> server \<Rightarrow> server" where
  "createRoomFromReady now ready s =
     (let roomId = ''match-'' @ dec (roomSequence s);
          s1 = s\<lparr>roomSequence := roomSequence s + 1\<rparr>;
          members = foldl (\<lambda>ms member. AList.update (rm_playerId member) (roomMemberOf s now member) ms)
                      [] (rd_members ready);
          room = \<lparr> r_id = roomId, r_playlist = rd_playlist ready, r_region = rd_region ready,
                   r_seed = rd_seed ready, r_startedAt = now, r_members = members,
                   r_score = (0, 0), r_ended = False \<rparr>;
          s2 = foldl (\<lambda>st member.
                        update_state (rm_socketId member)
                          (\<lambda>state. state\<lparr>ss_roomId := Some roomId, ss_slots := rm_slots member,
                                         ss_pendingReadyId := None,
                                         ss_reconnect := Some (roomId, rm_reconnectToken member)\<rparr>) st)
                 s1 (rd_members ready);
          s3 = s2\<lparr>roomHeap := roomHeap s2 @ [room],
                  activeRooms := AList.update roomId (length (roomHeap s2)) (activeRooms s2)\<rparr>
      in foldl (\<lambda>st member.
                  emit_to (rm_socketId member) (StateSnapshot roomId)
                    (emit_to (rm_socketId member)
                       (MatchFound roomId (rm_slots member) (rm_reconnectToken member)) st))
           s3 (rd_members ready))"

text \<open>\<open>ready.accepted.add(playerId)\<close>\<close>

definition set_add :: "string \<Rightarrow> string list \<Rightarrow> string list" where
  "set_add x xs = (if x \<in> set xs then xs else xs @ [x])"

text \<open>
  \<open>acceptReady(socket, payload)\<close>. \<open>matchId\<close> is \<open>payload.matchId\<close> when present, and
  \<open>accept\<close> is false exactly when \<open>payload.accept === false\<close>.
\<close>

definition acceptReady ::
  "(nat \<Rightarrow> string) \<Rightarrow> int \<Rightarrow> string \<Rightarrow> string option \<Rightarrow> bool \<Rightarrow> server \<Rightarrow> server" where
  "acceptReady rnd now sid matchId accept s =
     (case socketState s sid of
        None \<Rightarrow> s
      | Some state \<Rightarrow>
          if \<not> truthy_str (ss_pendingReadyId state) then s
          else
            (let readyId = (case matchId of Some m \<Rightarrow> m
                            | None \<Rightarrow> (case ss_pendingReadyId state of Some p \<Rightarrow> p | None \<Rightarrow> [])) in
             case map_of (pendingReadyById s) readyId of
               None \<Rightarrow> update_state sid (\<lambda>st. st\<lparr>ss_pendingReadyId := None\<rparr>) s
             | Some a \<Rightarrow>
                 (let ready = readyHeap s ! a in
                  case find (\<lambda>entry. rm_playerId entry = ss_playerId state) (rd_members ready) of
                    None \<Rightarrow> s
                  | Some member \<Rightarrow>
                      if \<not> accept then
                        cancelReadyCheck rnd now a ''Un jugador rechazo el ready-check'' True
                          (Some (ss_playerId state)) s
                      else
                        (let ready' = ready\<lparr>rd_accepted := set_add (ss_playerId state) (rd_accepted ready)\<rparr>;
                             s1 = s\<lparr>readyHeap := (readyHeap s)[a := ready']\<rparr>;
                             s2 = foldl (\<lambda>st readyMember.
                                           emit_to (rm_socketId readyMember)
                                             (ReadyUpdate (rd_id ready') (length (rd_accepted ready'))
                                                (length (rd_members ready'))) st)
                                    s1 (rd_members ready')
                         in if length (rd_accepted ready') < length (rd_members ready') then s2
                            else
                              createRoomFromReady now ready'
                                (clearPendingReadyAssociation ready'
                                   (s2\<lparr>pendingReadyById := AList.delete (rd_id ready') (pendingReadyById s2)\<rparr>))))))"

text \<open>Reading and writing a member of a room object.\<close>

definition room_member :: "server \<Rightarrow> nat \<Rightarrow> string \<Rightarrow> member option" where
  "room_member s a playerId = map_of (r_members (roomHeap s ! a)) playerId"

definition update_member :: "nat \<Rightarrow> string \<Rightarrow> (member \<Rightarrow> member) \<Rightarrow> server \<Rightarrow> server" where
  "update_member a playerId f s =
     (let room = roomHeap s ! a in
      s\<lparr>roomHeap := (roomHeap s)[a := room\<lparr>r_members := AList.map_entry playerId f (r_members room)\<rparr>]\<rparr>)"

text \<open>\<open>state.roomId = null; state.slots = []; state.reconnect = null\<close>\<close>

definition clearRoomOfState :: "sock_state \<Rightarrow> sock_state" where
  "clearRoomOfState state = state\<lparr>ss_roomId := None, ss_slots := [], ss_reconnect := None\<rparr>"

text \<open>\<open>markMemberDisconnected(state, reason)\<close> for the state of connection \<open>sid\<close>.\<close>

definition markMemberDisconnected :: "int \<Rightarrow> string \<Rightarrow> string \<Rightarrow> server \<Rightarrow> server" where
  "markMemberDisconnected now sid reason s =
     (case socketState s sid of
        None \<Rightarrow> s
      | Some state \<Rightarrow>
          (case ss_roomId state of
             None \<Rightarrow> s
           | Some roomId \<Rightarrow>
               if roomId = [] then s
               else
                 (case map_of (activeRooms s) roomId of
                    None \<Rightarrow> update_state sid clearRoomOfState s
                  | Some a \<Rightarrow>
                      (case room_member s a (ss_playerId state) of
                         None \<Rightarrow> update_state sid clearRoomOfState s
                       | Some member \<Rightarrow>
                           (let s1 = update_member a (ss_playerId state)
                                       (\<lambda>m. m\<lparr>m_socketId := None,
                                               m_disconnectedAt :=
                                                 (if truthy_time (m_disconnectedAt m) then m_disconnectedAt m
                                                  else Some now)\<rparr>) s;
                                s2 = emit_room (r_id (roomHeap s ! a)) (PlayerLeft (m_playerId member) reason) s1
                            in update_state sid (\<lambda>st. st\<lparr>ss_roomId := None, ss_slots := []\<rparr>) s2)))))"

section \<open>ReconnectionManager\<close>

text \<open>
  \<open>tryReconnectToRoom(socket, state, reconnectPayload)\<close> for the connection \<open>sid\<close>:
  the result and the new state. A rejected attempt returns before any write.
\<close>

definition tryReconnectToRoom ::
  "int \<Rightarrow> string \<Rightarrow> string option \<Rightarrow> string option \<Rightarrow> server \<Rightarrow> bool \<times> server" where
  "tryReconnectToRoom now sid roomId token s =
     (case socketState s sid of
        None \<Rightarrow> (False, s)
      | Some state \<Rightarrow>
          if \<not> truthy_str roomId \<or> \<not> truthy_str token then (False, s)
          else
            (case (roomId, token) of
               (Some rid, Some tok) \<Rightarrow>
                 (case map_of (activeRooms s) rid of
                    None \<Rightarrow> (False, s)
                  | Some a \<Rightarrow>
                      (case room_member s a (ss_playerId state) of
                         None \<Rightarrow> (False, s)
                       | Some member \<Rightarrow>
                           if m_reconnectToken member \<noteq> tok then (False, s)
                           else if truthy_time (m_disconnectedAt member) \<and>
                                   (case m_disconnectedAt member of
                                      Some t \<Rightarrow> now - t > RECONNECT_GRACE_MS | None \<Rightarrow> False)
                           then (False, s)
                           else
                             (let room = roomHeap s ! a;
                                  s1 = (case m_socketId member of
                                          Some old \<Rightarrow> if old \<noteq> [] \<and> old \<noteq> sid
                                                      then emit_to old ForcedDisconnect s else s
                                        | None \<Rightarrow> s);
                                  s2 = update_member a (ss_playerId state)
                                         (\<lambda>m. m\<lparr>m_socketId := Some sid, m_disconnectedAt := None,
                                                 m_reconnectCount := m_reconnectCount m + 1\<rparr>) s1;
                                  s3 = update_state sid
                                         (\<lambda>st. st\<lparr>ss_roomId := Some (r_id room), ss_slots := m_slots member,
                                                   ss_reconnect := Some (r_id room, m_reconnectToken member)\<rparr>) s2;
                                  s4 = emit_to sid (MatchRejoined (r_id room) (m_slots member) (m_reconnectToken member)) s3;
                                  s5 = emit_to sid (StateSnapshot (r_id room)) s4
                              in (True, emit_room (r_id room) (PlayerPresence (m_playerId member) True) s5))))
             | _ \<Rightarrow> (False, s)))"

text \<open>The handler of \<open>leaveMatch\<close> for the connection \<open>sid\<close>.\<close>

definition leaveMatch :: "int \<Rightarrow> string \<Rightarrow> server \<Rightarrow> server" where
  "leaveMatch now sid s =
     (case socketState s sid of
        None \<Rightarrow> s
      | Some currentState \<Rightarrow>
          (case ss_roomId currentState of
             None \<Rightarrow> s
           | Some roomId \<Rightarrow>
               if roomId = [] then s
               else
                 (case map_of (activeRooms s) roomId of
                    None \<Rightarrow> update_state sid clearRoomOfState s
                  | Some a \<Rightarrow>
                      (case room_member s a (ss_playerId currentState) of
                         None \<Rightarrow> s
                       | Some member \<Rightarrow>
                           (let room = roomHeap s ! a;
                                s1 = update_member a (ss_playerId currentState)
                                       (\<lambda>m. m\<lparr>m_socketId := None, m_disconnectedAt := Some now,
                                               m_abandoned := True\<rparr>) s;
                                s2 = emit_room (r_id room) (PlayerPresence (m_playerId member) False) s1;
                                s3 = emit_room (r_id room)
                                       (PlayerLeft (m_playerId member) ''Jugador salio de la partida'') s2
                            in update_state sid clearRoomOfState s3)))))"

section \<open>Ending a room\<close>

text \<open>
  The environment of a run: the score limit read at start-up, the hash function of
  session tokens, and the supply of random strings.
\<close>

record env =
  env_SCORE_LIMIT :: jsnum
  env_hashToken :: "string \<Rightarrow> string"
  env_rnd :: "nat \<Rightarrow> string"

text \<open>
  \<open>MemoryPersistence.createPlayer(nickname, tokenHash, providedPlayerId)\<close>: the new
  player and the new state.
\<close>

definition createPlayer ::
  "(nat \<Rightarrow> string) \<Rightarrow> int \<Rightarrow> string \<Rightarrow> string \<Rightarrow> string option \<Rightarrow> server \<Rightarrow> player \<times> server" where
  "createPlayer rnd now nickname tokenHash providedPlayerId s =
     (let (playerId, s1) =
            (if truthy_str providedPlayerId
             then (case providedPlayerId of Some p \<Rightarrow> (p, s) | None \<Rightarrow> ([], s))
             else (let (uuid, s') = draw rnd s in (''p_'' @ uuid, s')));
          p = \<lparr> pl_playerId = playerId, pl_tokenHash = tokenHash, pl_nickname = nickname,
                pl_rating = Num DEFAULT_RATING, pl_games = 0, pl_wins = 0, pl_losses = 0, pl_abandons = 0,
                pl_createdAt = now, pl_updatedAt = now \<rparr>
      in (p, s1\<lparr>playersById := (playersById s1)(playerId \<mapsto> p),
                playerIdByTokenHash := (playerIdByTokenHash s1)(tokenHash \<mapsto> playerId)\<rparr>))"

text \<open>\<open>createSessionToken()\<close>: two fresh UUIDs, concatenated.\<close>

definition createSessionToken :: "(nat \<Rightarrow> string) \<Rightarrow> server \<Rightarrow> string \<times> server" where
  "createSessionToken rnd s =
     (let (u1, s1) = draw rnd s; (u2, s2) = draw rnd s1 in (u1 @ u2, s2))"

text \<open>The body of the loop of \<open>MemoryPersistence.applyMatchResult\<close> for one entry of
  \<open>matchRecord.players\<close>.\<close>

definition applyPlayerResult :: "env \<Rightarrow> int \<Rightarrow> server \<Rightarrow> rating_change \<Rightarrow> server" where
  "applyPlayerResult e now s entry =
     (let s1 =
            (case playersById s (rc_playerId entry) of
               Some p \<Rightarrow> s
             | None \<Rightarrow>
                 (let (token, s') = createSessionToken (env_rnd e) s;
                      (created, s'') =
                        createPlayer (env_rnd e) now
                          (''Jugador-'' @ drop (length (rc_playerId entry) - 4) (rc_playerId entry))
                          (env_hashToken e token) (Some (rc_playerId entry)) s'
                  in s''\<lparr>playersById := (playersById s'')(pl_playerId created \<mapsto>
                          created\<lparr>pl_rating := rc_ratingBefore entry\<rparr>)\<rparr>))
      in case playersById s1 (rc_playerId entry) of
           None \<Rightarrow> s1
         | Some target \<Rightarrow>
             s1\<lparr>playersById := (playersById s1)(rc_playerId entry \<mapsto>
                  target\<lparr>pl_rating := js_clamp (js_round (rc_ratingAfter entry)) 100 4000,
                         pl_games := pl_games target + 1,
                         pl_wins := (if rc_result entry = ''win'' then pl_wins target + 1 else pl_wins target),
                         pl_losses := (if rc_result entry \<noteq> ''win'' \<and> rc_result entry = ''loss''
                                       then pl_losses target + 1 else pl_losses target),
                         pl_abandons := (if rc_abandoned entry then pl_abandons target + 1
                                         else pl_abandons target),
                         pl_updatedAt := now\<rparr>)\<rparr>)"

definition applyMatchResult :: "env \<Rightarrow> int \<Rightarrow> match_record \<Rightarrow> server \<Rightarrow> server" where
  "applyMatchResult e now matchRecord s =
     (let s1 = foldl (applyPlayerResult e now) s (mr_players matchRecord)
      in s1\<lparr>matches := matches s1 @ [matchRecord\<lparr>mr_storedAt := now\<rparr>]\<rparr>)"

text \<open>\<open>finishRoomForSockets(room, payload)\<close> on the room object \<open>a\<close>.\<close>

definition finishRoomForSockets :: "nat \<Rightarrow> out_event \<Rightarrow> server \<Rightarrow> server" where
  "finishRoomForSockets a payload s =
     foldl (\<lambda>st (k, member).
              (case m_socketId member of
                 None \<Rightarrow> st
               | Some socketId \<Rightarrow>
                   if socketId = [] then st
                   else emit_to socketId payload (update_state socketId clearRoomOfState st)))
       s (r_members (roomHeap s ! a))"

text \<open>
  \<open>endRoom(room, reason, explicitWinner)\<close> is asynchronous. \<open>endRoomStart\<close> is the
  part that runs at the call: the guard on \<open>room.ended\<close>, the removal from
  \<open>activeRooms\<close>, the rating changes and the call of \<open>applyMatchResult\<close>, whose body
  (in-memory persistence) runs to its end before it returns. It gives the payload of
  the notification still to be sent, or nothing when the guard returned.
  \<open>endRoom\<close> adds the part after \<open>await\<close>, \<open>finishRoomForSockets\<close>.
\<close>

definition endRoomStart ::
  "env \<Rightarrow> int \<Rightarrow> nat \<Rightarrow> end_reason \<Rightarrow> nat option \<Rightarrow> server \<Rightarrow> out_event option \<times> server" where
  "endRoomStart e now a reason explicitWinner s =
     (let room = roomHeap s ! a in
      if r_ended room then (None, s)
      else
        (let team0 = fst (r_score room);
             team1 = snd (r_score room);
             winnerTeam = (case explicitWinner of
                             None \<Rightarrow> if team0 = team1 then None else if team0 > team1 then Some 0 else Some 1
                           | Some w \<Rightarrow> Some w);
             participants = map snd (r_members room);
             ratingChanges = buildRatingChanges participants winnerTeam;
             byPlayerId = map_of (rev (map (\<lambda>c. (rc_playerId c, c)) ratingChanges));
             members' = map (\<lambda>(k, member).
                               (k, case byPlayerId (m_playerId member) of
                                     None \<Rightarrow> member
                                   | Some change \<Rightarrow> member\<lparr>m_ratingAfter := rc_ratingAfter change\<rparr>))
                          (r_members room);
             s1 = s\<lparr>roomHeap := (roomHeap s)[a := room\<lparr>r_ended := True, r_members := members'\<rparr>],
                     activeRooms := AList.delete (r_id room) (activeRooms s)\<rparr>;
             s2 = foldl (\<lambda>st member.
                           (case byPlayerId (m_playerId member) of
                              None \<Rightarrow> st
                            | Some change \<Rightarrow>
                                (case playerSocket st (m_playerId member) of
                                   None \<Rightarrow> st
                                 | Some socketId \<Rightarrow>
                                     if socketId = [] then st
                                     else update_state socketId
                                            (\<lambda>state. state\<lparr>ss_rating := rc_ratingAfter change\<rparr>) st)))
                    s1 participants;
             s3 = applyMatchResult e now
                    \<lparr> mr_matchId = r_id room, mr_playlist = r_playlist room, mr_seed = r_seed room,
                      mr_team0Score = team0, mr_team1Score = team1, mr_winnerTeam = winnerTeam,
                      mr_startedAt = r_startedAt room, mr_endedAt = now, mr_players = ratingChanges,
                      mr_storedAt = now \<rparr> s2
         in (Some (MatchEnded (r_id room) reason winnerTeam (team0, team1) ratingChanges), s3)))"

definition endRoom :: "env \<Rightarrow> int \<Rightarrow> nat \<Rightarrow> end_reason \<Rightarrow> nat option \<Rightarrow> server \<Rightarrow> server" where
  "endRoom e now a reason explicitWinner s =
     (case endRoomStart e now a reason explicitWinner s of
        (None, s1) \<Rightarrow> s1
      | (Some payload, s1) \<Rightarrow> finishRoomForSockets a payload s1)"

text \<open>
  One room of \<open>tickRooms\<close>: skipped when ended; otherwise the engine's step gives the
  new snapshot (its score is \<open>score\<close>), \<open>shouldEndRoom\<close> is evaluated and, on a decision,
  \<open>endRoom\<close> is called without \<open>await\<close>: its start runs now, and the notification is
  queued behind the rest of the tick. The inputs, the bots and the snapshot broadcast
  of the tick are not modelled.
\<close>

definition tickRoom ::
  "env \<Rightarrow> int \<Rightarrow> (string \<Rightarrow> nat \<times> nat) \<Rightarrow> server \<times> (nat \<times> out_event) list \<Rightarrow> nat
     \<Rightarrow> server \<times> (nat \<times> out_event) list" where
  "tickRoom e now engine acc a =
     (let s = fst acc; room = roomHeap s ! a in
      if r_ended room then acc
      else
        (let stepped = room\<lparr>r_score := engine (r_id room)\<rparr>;
             (endDecision, room') = shouldEndRoom (env_SCORE_LIMIT e) stepped now;
             s1 = s\<lparr>roomHeap := (roomHeap s)[a := room']\<rparr>
         in case endDecision of
              None \<Rightarrow> (s1, snd acc)
            | Some (reason, winner) \<Rightarrow>
                (case endRoomStart e now a reason winner s1 of
                   (None, s2) \<Rightarrow> (s2, snd acc)
                 | (Some payload, s2) \<Rightarrow> (s2, snd acc @ [(a, payload)]))))"

definition tickRooms :: "env \<Rightarrow> int \<Rightarrow> (string \<Rightarrow> nat \<times> nat) \<Rightarrow> server \<Rightarrow> server" where
  "tickRooms e now engine s =
     (let (s1, pending) = foldl (tickRoom e now engine) (s, []) (map snd (activeRooms s))
      in foldl (\<lambda>st (a, payload). finishRoomForSockets a payload st) s1 pending)"

text \<open>\<open>shutdown(signal)\<close>: the pending ready-checks are dropped with their timers, every
  active room is ended with \<open>await\<close>.\<close>

definition shutdown :: "env \<Rightarrow> int \<Rightarrow> server \<Rightarrow> server" where
  "shutdown e now s =
     foldl (\<lambda>st a. endRoom e now a ServerShutdown None st) (s\<lparr>pendingReadyById := []\<rparr>)
       (map snd (activeRooms s))"

section \<open>Connections and the handlers of client events\<close>

record auth =
  au_playerId :: "string option"
  au_playerToken :: "string option"
  au_nickname :: "string option"
  au_reconnect :: "(string option \<times> string option) option"

text \<open>
  \<open>MemoryPersistence.getOrCreatePlayer({ playerId, playerToken, nickname })\<close>: the
  player found or created, and the new state. \<open>touchPlayer\<close> is the update of a
  player that was found: \<open>player.nickname = cleanNickname; player.updatedAt = Date.now()\<close>.
\<close>

definition touchPlayer :: "int \<Rightarrow> string \<Rightarrow> string \<Rightarrow> player \<Rightarrow> server \<Rightarrow> player \<times> server" where
  "touchPlayer now key cleanNickname p s =
     (let p' = p\<lparr>pl_nickname := cleanNickname, pl_updatedAt := now\<rparr>
      in (p', s\<lparr>playersById := (playersById s)(key \<mapsto> p')\<rparr>))"

definition getOrCreatePlayer ::
  "env \<Rightarrow> int \<Rightarrow> string option \<Rightarrow> string option \<Rightarrow> string option \<Rightarrow> server \<Rightarrow> player \<times> server" where
  "getOrCreatePlayer e now playerId playerToken nickname s =
     (let cleanNickname = sanitizeNickname nickname;
          suppliedToken = js_trim (case playerToken of None \<Rightarrow> [] | Some t \<Rightarrow> t);
          suppliedHash = (if suppliedToken = [] then None else Some (env_hashToken e suppliedToken));
          byIdAndToken =
            (case (playerId, suppliedHash) of
               (Some pid, Some h) \<Rightarrow>
                 (if pid = [] then None
                  else (case playersById s pid of
                          Some p \<Rightarrow> if pl_tokenHash p = h then Some (pid, p) else None
                        | None \<Rightarrow> None))
             | _ \<Rightarrow> None);
          byToken =
            (case suppliedHash of
               Some h \<Rightarrow>
                 (case playerIdByTokenHash s h of
                    Some tokenOwnerId \<Rightarrow>
                      (if tokenOwnerId = [] then None
                       else (case playersById s tokenOwnerId of
                               Some p \<Rightarrow> Some (tokenOwnerId, p) | None \<Rightarrow> None))
                  | None \<Rightarrow> None)
             | None \<Rightarrow> None)
      in case byIdAndToken of
           Some (key, p) \<Rightarrow> touchPlayer now key cleanNickname p s
         | None \<Rightarrow>
             (case byToken of
                Some (key, p) \<Rightarrow> touchPlayer now key cleanNickname p s
              | None \<Rightarrow>
                  (let (issuedToken, s1) = createSessionToken (env_rnd e) s
                   in createPlayer (env_rnd e) now cleanNickname (env_hashToken e issuedToken) playerId s1)))"

text \<open>
  The handler of \<open>connection\<close> for a new socket \<open>sid\<close>, which socket.io has added to
  its connected sockets. The identity comes from the in-memory persistence, which does
  not fail.
\<close>

definition connection :: "env \<Rightarrow> int \<Rightarrow> string \<Rightarrow> auth \<Rightarrow> server \<Rightarrow> server" where
  "connection e now sid au s0 =
     (let s = s0\<lparr>sockets := insert sid (sockets s0)\<rparr>;
          nicknameFromAuth = sanitizeNickname (au_nickname au);
          (p, s1) = getOrCreatePlayer e now (au_playerId au) (au_playerToken au) (Some nicknameFromAuth) s
      in     (let s2 = (case playerSocket s1 (pl_playerId p) of
                          Some prev \<Rightarrow>
                            if prev \<noteq> [] \<and> prev \<noteq> sid
                            then emit_to prev ForcedDisconnect
                                   (emit_to prev (ServerNotice ''Tu cuenta se conecto desde otro cliente.'') s1)
                            else s1
                        | None \<Rightarrow> s1);
                  s3 = s2\<lparr>playerSocket := (playerSocket s2)(pl_playerId p \<mapsto> sid),
                          socketState := (socketState s2)(sid \<mapsto>
                             \<lparr> ss_socketId = sid, ss_playerId = pl_playerId p, ss_nickname = pl_nickname p,
                               ss_rating = pl_rating p, ss_partySize = 1, ss_playlist = ''ranked'',
                               ss_region = ''na'', ss_inputMode = ''mixed'', ss_pendingReadyId = None,
                               ss_roomId = None, ss_slots = [], ss_reconnect = None, ss_pingMs = 80 \<rparr>)\<rparr>;
                  s4 = emit_to sid (Identity (pl_playerId p) (pl_nickname p)) s3;
                  (reconnectOk, s5) =
                    tryReconnectToRoom now sid
                      (case au_reconnect au of None \<Rightarrow> None | Some r \<Rightarrow> fst r)
                      (case au_reconnect au of None \<Rightarrow> None | Some r \<Rightarrow> snd r) s4
              in if \<not> reconnectOk \<and> truthy_str (case au_reconnect au of None \<Rightarrow> None | Some r \<Rightarrow> fst r)
                 then emit_to sid (ServerNotice ''No se pudo reconectar a la partida previa.'') s5
                 else s5))"

definition joinQueue :: "env \<Rightarrow> int \<Rightarrow> string \<Rightarrow> queue_payload \<Rightarrow> server \<Rightarrow> server" where
  "joinQueue e now sid payload s =
     (case socketState s sid of
        None \<Rightarrow> s
      | Some socketStateEntry \<Rightarrow>
          if truthy_str (ss_roomId socketStateEntry)
          then emit_to sid (ServerNotice ''Ya estas en una partida activa.'') s
          else if truthy_str (ss_pendingReadyId socketStateEntry)
          then emit_to sid (ServerNotice ''Ya tienes un ready-check pendiente.'') s
          else
            tickQueueMatchmaking (env_rnd e) now
              (enqueueFromSocketState (env_rnd e) now sid
                 (payload\<lparr>p_nickname :=
                    Some (case p_nickname payload of None \<Rightarrow> ss_nickname socketStateEntry | Some n \<Rightarrow> n)\<rparr>)
                 0 (snd (removeQueueEntry sid s))))"

definition leaveQueue :: "int \<Rightarrow> string \<Rightarrow> server \<Rightarrow> server" where
  "leaveQueue now sid s =
     (case removeQueueEntry sid s of
        (Some removed, s1) \<Rightarrow>
          if q_bucketKey removed \<noteq> [] then updateQueuePositions now (q_bucketKey removed) s1
          else updateAllQueuePositions now s1
      | (None, s1) \<Rightarrow> updateAllQueuePositions now s1)"

text \<open>The handler of \<open>pingPong\<close>; \<open>sentAt\<close> is \<open>Number(payload?.t)\<close>.\<close>

definition pingPong :: "int \<Rightarrow> string \<Rightarrow> jsnum \<Rightarrow> server \<Rightarrow> server" where
  "pingPong now sid sentAt s =
     (case sentAt of
        NaN \<Rightarrow> s
      | Num t \<Rightarrow>
          update_state sid
            (\<lambda>entry. entry\<lparr>ss_pingMs :=
               real_of_int \<lfloor>ss_pingMs entry * (7 / 10) + clamp (real_of_int now - t) 1 1000 * (3 / 10) + 1 / 2\<rfloor>\<rparr>) s)"

text \<open>
  The handler of \<open>disconnect\<close>. socket.io removes the socket from its connected sockets
  before the handler runs.
\<close>

definition disconnect :: "env \<Rightarrow> int \<Rightarrow> string \<Rightarrow> server \<Rightarrow> server" where
  "disconnect e now sid s0 =
     (let s = s0\<lparr>sockets := sockets s0 - {sid}\<rparr> in
      case socketState s sid of
        None \<Rightarrow> s
      | Some current \<Rightarrow>
          (let s1 = snd (removeQueueEntry sid s);
               s2 = (case ss_pendingReadyId current of
                       None \<Rightarrow> s1
                     | Some pendingReadyId \<Rightarrow>
                         if pendingReadyId = [] then s1
                         else
                           (case map_of (pendingReadyById s1) pendingReadyId of
                              None \<Rightarrow> s1
                            | Some a \<Rightarrow>
                                cancelReadyCheck (env_rnd e) now a ''Jugador desconectado durante ready-check''
                                  True (Some (ss_playerId current)) s1));
               s3 = markMemberDisconnected now sid ''Jugador desconectado'' s2;
               s4 = (if playerSocket s3 (ss_playerId current) = Some sid
                     then s3\<lparr>playerSocket := (playerSocket s3)(ss_playerId current := None)\<rparr> else s3);
               s5 = s4\<lparr>socketState := (socketState s4)(sid := None)\<rparr>
           in updateAllQueuePositions now s5))"

text \<open>
  The callback of the timer of the ready-check object \<open>a\<close>. The timer is armed for
  \<open>rd_timerDueAt\<close> and is cleared where the ready-check leaves \<open>pendingReadyById\<close>, so
  the callback runs only at or after that time, on a ready-check that is still pending.
\<close>

definition readyTimeout :: "env \<Rightarrow> int \<Rightarrow> nat \<Rightarrow> server \<Rightarrow> server" where
  "readyTimeout e now a s =
     (if a < length (readyHeap s) \<and> rd_timerDueAt (readyHeap s ! a) \<le> now
      then
        (case map_of (pendingReadyById s) (rd_id (readyHeap s ! a)) of
           None \<Rightarrow> s
         | Some current \<Rightarrow> cancelReadyCheck (env_rnd e) now current ''Ready-check expiro'' True None s)
      else s)"

section \<open>Events\<close>

text \<open>
  Everything that changes the state after start-up: the handlers of the client events,
  a new connection, the two periodic timers (queue scan and room tick, with what the
  engine returns for each room), the timer of a ready-check, and the shutdown. The
  handler of \<open>playerInput\<close> writes the inputs of the engine only, which are not part of
  the state here.
\<close>

datatype event =
    Connection string auth
  | JoinQueue string queue_payload
  | LeaveQueue string
  | ReadyCheckResponse string "string option" bool
  | LeaveMatch string
  | PlayerInput string
  | PingPong string jsnum
  | Disconnect string
  | QueueScan
  | RoomTick "string \<Rightarrow> nat \<times> nat"
  | ReadyTimer nat
  | Shutdown

fun handle :: "env \<Rightarrow> int \<Rightarrow> event \<Rightarrow> server \<Rightarrow> server" where
  "handle e now (Connection sid au) s = connection e now sid au s"
| "handle e now (JoinQueue sid payload) s = joinQueue e now sid payload s"
| "handle e now (LeaveQueue sid) s = leaveQueue now sid s"
| "handle e now (ReadyCheckResponse sid matchId accept) s = acceptReady (env_rnd e) now sid matchId accept s"
| "handle e now (LeaveMatch sid) s = leaveMatch now sid s"
| "handle e now (PlayerInput sid) s = s"
| "handle e now (PingPong sid sentAt) s = pingPong now sid sentAt s"
| "handle e now (Disconnect sid) s = disconnect e now sid s"
| "handle e now QueueScan s = tickQueueMatchmaking (env_rnd e) now s"
| "handle e now (RoomTick engine) s = tickRooms e now engine s"
| "handle e now (ReadyTimer a) s = readyTimeout e now a s"
| "handle e now Shutdown s = shutdown e now s"

section \<open>Example data\<close>

text \<open>Two members of a 1v1 room, both rated 1000, one per team, both connected.\<close>

definition exA :: member where
  "exA = \<lparr> m_playerId = ''pA'', m_nickname = ''A'', m_partySize = 1, m_ratingBefore = Num 1000,
     m_ratingAfter = Num 1000, m_team = 0, m_slots = [0], m_reconnectToken = ''rc_A'',
     m_reconnectCount = 0, m_socketId = Some ''sA'', m_disconnectedAt = None, m_abandoned = False \<rparr>"

definition exB :: member where
  "exB = \<lparr> m_playerId = ''pB'', m_nickname = ''B'', m_partySize = 1, m_ratingBefore = Num 1000,
     m_ratingAfter = Num 1000, m_team = 1, m_slots = [2], m_reconnectToken = ''rc_B'',
     m_reconnectCount = 0, m_socketId = Some ''sB'', m_disconnectedAt = None, m_abandoned = False \<rparr>"

text \<open>A 1v1 room started at time 1000 with the score 3-1; both members lost their
  connection at time 50000. A server whose only room it is.\<close>

definition exRoomGone :: room where
  "exRoomGone = \<lparr> r_id = ''match-3'', r_playlist = ''duel'', r_region = ''na'', r_seed = ''seed'',
     r_startedAt = 1000,
     r_members = [(''pA'', exA\<lparr>m_socketId := None, m_disconnectedAt := Some 50000\<rparr>),
                  (''pB'', exB\<lparr>m_socketId := None, m_disconnectedAt := Some 50000\<rparr>)],
     r_score = (3, 1), r_ended = False \<rparr>"

definition exServerGone :: server where
  "exServerGone = \<lparr> queueByBucket = [], queueEntryBySocket = Map.empty,
     roomHeap = [exRoomGone], activeRooms = [(''match-3'', 0)], readyHeap = [], pendingReadyById = [],
     socketState = Map.empty, playerSocket = Map.empty,
     roomSequence = 2, readySequence = 1, sockets = {},
     playersById = Map.empty, playerIdByTokenHash = Map.empty, matches = [], emitted = [], drawn = 0 \<rparr>"

text \<open>Two solo parties waiting for a 1v1 match in the same bucket.\<close>

definition exQ1 :: queue_entry where
  "exQ1 = \<lparr> q_id = ''q_1'', q_socketId = ''sA'', q_playerId = ''pA'', q_nickname = ''A'',
     q_partySize = 1, q_rating = Num 1000, q_joinedAt = 100, q_playlist = ''duel'', q_region = ''na'',
     q_inputMode = ''mixed'', q_pingMs = 80, q_maxPingMs = 220, q_bucketKey = ''duel|na'' \<rparr>"

definition exQ2 :: queue_entry where
  "exQ2 = \<lparr> q_id = ''q_2'', q_socketId = ''sB'', q_playerId = ''pB'', q_nickname = ''B'',
     q_partySize = 1, q_rating = Num 1000, q_joinedAt = 200, q_playlist = ''duel'', q_region = ''na'',
     q_inputMode = ''mixed'', q_pingMs = 90, q_maxPingMs = 220, q_bucketKey = ''duel|na'' \<rparr>"

text \<open>
  A server with one running 1v1 room, \<open>match-2\<close>, started at time 1000: player \<open>pA\<close> on
  connection \<open>sA\<close> against player \<open>pB\<close> on connection \<open>sB\<close>, both connected.
\<close>

definition exStateA :: sock_state where
  "exStateA = \<lparr> ss_socketId = ''sA'', ss_playerId = ''pA'', ss_nickname = ''A'', ss_rating = Num 1000,
     ss_partySize = 1, ss_playlist = ''duel'', ss_region = ''na'', ss_inputMode = ''mixed'',
     ss_pendingReadyId = None, ss_roomId = Some ''match-2'', ss_slots = [0],
     ss_reconnect = Some (''match-2'', ''rc_A''), ss_pingMs = 80 \<rparr>"

definition exStateB :: sock_state where
  "exStateB = \<lparr> ss_socketId = ''sB'', ss_playerId = ''pB'', ss_nickname = ''B'', ss_rating = Num 1000,
     ss_partySize = 1, ss_playlist = ''duel'', ss_region = ''na'', ss_inputMode = ''mixed'',
     ss_pendingReadyId = None, ss_roomId = Some ''match-2'', ss_slots = [2],
     ss_reconnect = Some (''match-2'', ''rc_B''), ss_pingMs = 90 \<rparr>"

definition exServer :: server where
  "exServer = \<lparr> queueByBucket = [], queueEntryBySocket = Map.empty,
     roomHeap = [\<lparr> r_id = ''match-2'', r_playlist = ''duel'', r_region = ''na'', r_seed = ''seed'',
                   r_startedAt = 1000, r_members = [(''pA'', exA), (''pB'', exB)],
                   r_score = (0, 0), r_ended = False \<rparr>],
     activeRooms = [(''match-2'', 0)], readyHeap = [], pendingReadyById = [],
     socketState = [''sA'' \<mapsto> exStateA, ''sB'' \<mapsto> exStateB],
     playerSocket = [''pA'' \<mapsto> ''sA'', ''pB'' \<mapsto> ''sB''],
     roomSequence = 2, readySequence = 1, sockets = {''sA'', ''sB''},
     playersById = Map.empty, playerIdByTokenHash = Map.empty, matches = [], emitted = [], drawn = 0 \<rparr>"

text \<open>An environment: score limit 7, and stand-ins for the token hash and the UUID supply.\<close>

definition exEnv :: env where
  "exEnv = \<lparr> env_SCORE_LIMIT = Num 7, env_hashToken = (\<lambda>t. ''h'' @ t), env_rnd = (\<lambda>n. ''u'') \<rparr>"

text \<open>The handshake of a client of player \<open>pA\<close> that asks to rejoin \<open>match-2\<close> with the
  reconnect token of \<open>pA\<close>.\<close>

definition exAuth :: auth where
  "exAuth = \<lparr> au_playerId = Some ''pA'', au_playerToken = None, au_nickname = Some ''A'',
     au_reconnect = Some (Some ''match-2'', Some ''rc_A'') \<rparr>"

text \<open>
  The server after \<open>pA\<close> left \<open>match-2\<close> at time 6000, with a new connection \<open>sA2\<close> of
  \<open>pA\<close> that has its state and has not yet asked to rejoin.
\<close>

definition exServerRejoining :: server where
  "exServerRejoining =
     (let s = handle exEnv 6000 (LeaveMatch ''sA'') exServer
      in s\<lparr>sockets := insert ''sA2'' (sockets s),
            playerSocket := (playerSocket s)(''pA'' \<mapsto> ''sA2''),
            socketState := (socketState s)(''sA2'' \<mapsto>
              exStateA\<lparr>ss_socketId := ''sA2'', ss_roomId := None, ss_slots := [], ss_reconnect := None\<rparr>)\<rparr>)"

text \<open>
  Two idle connections \<open>sA\<close> (player \<open>pA\<close>) and \<open>sB\<close> (player \<open>pB\<close>) that last queued for
  a 1v1 match with the region \<open>us east 1\<close>, which \<open>normalizeRegion\<close> stored as
  \<open>us east\<close> followed by a space; the request they sent (\<open>exJoin\<close>); and the server
  with their ready-check \<open>ready-1\<close> pending, created at time 2000 and accepted by \<open>pA\<close>.
\<close>

definition exJoin :: queue_payload where
  "exJoin = \<lparr> p_nickname = None, p_partySize = Some (Num 1), p_playlist = Some ''duel'',
      p_region = Some ''us east 1'', p_inputMode = None, p_maxPingMs = None \<rparr>"

definition exIdle :: "string \<Rightarrow> string \<Rightarrow> string option \<Rightarrow> sock_state" where
  "exIdle sid pid pending = \<lparr> ss_socketId = sid, ss_playerId = pid, ss_nickname = pid,
     ss_rating = Num 1000, ss_partySize = 1, ss_playlist = ''duel'', ss_region = ''us east '',
     ss_inputMode = ''mixed'', ss_pendingReadyId = pending, ss_roomId = None, ss_slots = [],
     ss_reconnect = None, ss_pingMs = 80 \<rparr>"

definition exReady :: ready_check where
  "exReady = \<lparr> rd_id = ''ready-1'', rd_playlist = ''duel'', rd_region = ''us east '', rd_seed = ''seed'',
     rd_members =
       [\<lparr> rm_socketId = ''sB'', rm_playerId = ''pB'', rm_nickname = ''pB'', rm_partySize = 1,
           rm_ratingBefore = Num 1000, rm_team = 1, rm_slots = [2], rm_reconnectToken = ''rc_B'',
           rm_inputMode = ''mixed'' \<rparr>,
        \<lparr> rm_socketId = ''sA'', rm_playerId = ''pA'', rm_nickname = ''pA'', rm_partySize = 1,
           rm_ratingBefore = Num 1000, rm_team = 0, rm_slots = [0], rm_reconnectToken = ''rc_A'',
           rm_inputMode = ''mixed'' \<rparr>],
     rd_accepted = [''pA''], rd_createdAt = 2000, rd_expiresAt = 12000, rd_timerDueAt = 12080 \<rparr>"

definition exConnected :: server where
  "exConnected = \<lparr> queueByBucket = [], queueEntryBySocket = Map.empty,
     roomHeap = [], activeRooms = [], readyHeap = [], pendingReadyById = [],
     socketState = [''sA'' \<mapsto> exIdle ''sA'' ''pA'' None, ''sB'' \<mapsto> exIdle ''sB'' ''pB'' None],
     playerSocket = [''pA'' \<mapsto> ''sA'', ''pB'' \<mapsto> ''sB''],
     roomSequence = 1, readySequence = 1, sockets = {''sA'', ''sB''},
     playersById = Map.empty, playerIdByTokenHash = Map.empty, matches = [], emitted = [], drawn = 0 \<rparr>"

definition exPending :: server where
  "exPending = exConnected
     \<lparr> readyHeap := [exReady], pendingReadyById := [(''ready-1'', 0)],
       socketState := [''sA'' \<mapsto> exIdle ''sA'' ''pA'' (Some ''ready-1''),
                       ''sB'' \<mapsto> exIdle ''sB'' ''pB'' (Some ''ready-1'')],
       readySequence := 2 \<rparr>"

section \<open>Rating settlement: what the code computes\<close>

lemma foldl_const_NaN: "foldl (\<lambda>sum entry. NaN) NaN xs = NaN"
  by (induction xs) simp_all

text \<open>
  The weighted average of a non-empty team of room members is \<open>NaN\<close>: the fold multiplies
  the absent property \<open>rating\<close> by the party size.
\<close>

lemma ratingAverage_member_NaN:
  assumes "team \<noteq> []" and "0 < foldl (\<lambda>sum entry. sum + m_partySize entry) 0 team"
  shows "ratingAverage member_rating m_partySize team = NaN"
proof -
  obtain x xs where t: "team = x # xs" using assms(1) by (cases team) auto
  have "foldl (\<lambda>sum entry. js_add sum (js_mul (to_number (member_rating entry)) (Num (m_partySize entry))))
          (Num 0) team = NaN"
    by (simp add: t member_rating_def foldl_const_NaN)
  with assms(2) show ?thesis by (simp add: ratingAverage_def Let_def)
qed

text \<open>
  The Elo step itself, on two equal finite averages: 13 for a win of team 0, -13 for a
  win of team 1, 0 for a draw. This is the value the settlement would reach if the
  averages were numbers.
\<close>

lemma teamDelta0_equal_averages:
  "teamDelta0 (Num a) (Num a) (Some 0) = Num 13 \<and>
   teamDelta0 (Num a) (Num a) (Some 1) = Num (- 13) \<and>
   teamDelta0 (Num a) (Num a) None = Num 0"
  by (simp add: teamDelta0_def ELO_K_def Let_def)

text \<open>
  C8. Two teams with equal pre-match ratings (one member each, both rated 1000, nobody
  abandoned) and a decisive win of team 0: the claim asks for a positive delta for the
  winner and its negation for the loser. \<open>buildRatingChanges\<close> returns \<open>NaN\<close> as the
  delta and as the rating after the match of both members, for the win and for the draw.
\<close>

theorem buildRatingChanges_equal_ratings_NaN:
  "map rc_delta (buildRatingChanges [exA, exB] (Some 0)) = [NaN, NaN] \<and>
   map rc_ratingAfter (buildRatingChanges [exA, exB] (Some 0)) = [NaN, NaN] \<and>
   map rc_delta (buildRatingChanges [exA, exB] None) = [NaN, NaN] \<and>
   \<not> js_gt (rc_delta (hd (buildRatingChanges [exA, exB] (Some 0)))) (Num 0)"
  by (simp add: buildRatingChanges_def ratingAverage_def memberChange_def teamDelta0_def
      member_rating_def js_clamp_def exA_def exB_def Let_def)

section \<open>End conditions\<close>

lemma score_winner_cases:
  "score_winner (a, b) = (if a = b then None else if a > b then Some 0 else Some 1)"
  by (simp add: score_winner_def)

lemma markAbandoned_flag:
  "m_abandoned (markAbandoned now member) = (m_abandoned member \<or> grace_expired now member)"
  by (auto simp: markAbandoned_def grace_expired_def split: option.splits)

lemma markAbandoned_team: "m_team (markAbandoned now member) = m_team member"
  by (auto simp: markAbandoned_def split: option.splits)

lemma teamActive_marked:
  "teamActive (map (\<lambda>(k, member). (k, markAbandoned now member)) (r_members room)) t
     = (\<not> team_all_abandoned room now t)"
  by (auto simp: teamActive_def team_all_abandoned_def list_ex_iff list_all_iff markAbandoned_flag
        markAbandoned_team split_beta)

lemma shouldEndRoom_score: "r_score (snd (shouldEndRoom L room now)) = r_score room"
  by (simp add: shouldEndRoom_def Let_def)

lemma shouldEndRoom_id: "r_id (snd (shouldEndRoom L room now)) = r_id room"
  by (simp add: shouldEndRoom_def Let_def)

lemma endRoomStart_null_winner:
  "\<not> r_ended (roomHeap s ! a) \<Longrightarrow>
     fst (endRoomStart e now a reason None s) =
       Some (MatchEnded (r_id (roomHeap s ! a)) reason
              (if fst (r_score (roomHeap s ! a)) = snd (r_score (roomHeap s ! a)) then None
               else if fst (r_score (roomHeap s ! a)) > snd (r_score (roomHeap s ! a)) then Some 0 else Some 1)
              (r_score (roomHeap s ! a))
              (buildRatingChanges (map snd (r_members (roomHeap s ! a)))
                 (if fst (r_score (roomHeap s ! a)) = snd (r_score (roomHeap s ! a)) then None
                  else if fst (r_score (roomHeap s ! a)) > snd (r_score (roomHeap s ! a)) then Some 0 else Some 1)))"
  by (simp add: endRoomStart_def Let_def)

text \<open>
  C3. The decision of \<open>shouldEndRoom\<close> is that of the first satisfied condition in the
  order (a) score limit, (b) maximum duration, (c) a team whose members are all abandoned.
  (a) and (b) name the team with the higher score (\<open>None\<close> on a tie); (c) names the
  team that is not abandoned, and \<open>None\<close> when both are; with no condition satisfied
  there is no decision. The tick hands the decision to \<open>endRoom\<close>, and \<open>endRoom\<close> reads a
  \<open>None\<close> winner as no winner given: the room then ends with the team with the higher
  score as its winner (\<open>None\<close> only on a tie), also when the decision was (c) with both
  teams abandoned.
\<close>

theorem shouldEndRoom_decision_and_endRoom_winner:
  assumes "shouldEndRoom L room now = (d, room')"
  shows
    "(score_limit_reached L room \<longrightarrow>
        d = Some (ScoreLimitReached,
              if fst (r_score room) = snd (r_score room) then None
              else if fst (r_score room) > snd (r_score room) then Some 0 else Some 1)) \<and>
     (\<not> score_limit_reached L room \<and> duration_exceeded room now \<longrightarrow>
        d = Some (MaxDurationReached,
              if fst (r_score room) = snd (r_score room) then None
              else if fst (r_score room) > snd (r_score room) then Some 0 else Some 1)) \<and>
     (\<not> score_limit_reached L room \<and> \<not> duration_exceeded room now \<and>
      (team_all_abandoned room now 0 \<or> team_all_abandoned room now 1) \<longrightarrow>
        d = Some (TeamAbandoned,
              if team_all_abandoned room now 0 \<and> team_all_abandoned room now 1 then None
              else if team_all_abandoned room now 1 then Some 0 else Some 1)) \<and>
     (\<not> score_limit_reached L room \<and> \<not> duration_exceeded room now \<and>
      \<not> team_all_abandoned room now 0 \<and> \<not> team_all_abandoned room now 1 \<longrightarrow> d = None) \<and>
     (roomHeap s ! a = room' \<and> \<not> r_ended room' \<longrightarrow>
        fst (endRoomStart e now a reason None s) =
          Some (MatchEnded (r_id room) reason
                 (if fst (r_score room) = snd (r_score room) then None
                  else if fst (r_score room) > snd (r_score room) then Some 0 else Some 1)
                 (r_score room)
                 (buildRatingChanges (map snd (r_members room'))
                    (if fst (r_score room) = snd (r_score room) then None
                     else if fst (r_score room) > snd (r_score room) then Some 0 else Some 1))))"
proof -
  have 1: "(score_limit_reached L room \<longrightarrow>
        d = Some (ScoreLimitReached,
              if fst (r_score room) = snd (r_score room) then None
              else if fst (r_score room) > snd (r_score room) then Some 0 else Some 1)) \<and>
     (\<not> score_limit_reached L room \<and> duration_exceeded room now \<longrightarrow>
        d = Some (MaxDurationReached,
              if fst (r_score room) = snd (r_score room) then None
              else if fst (r_score room) > snd (r_score room) then Some 0 else Some 1)) \<and>
     (\<not> score_limit_reached L room \<and> \<not> duration_exceeded room now \<and>
      (team_all_abandoned room now 0 \<or> team_all_abandoned room now 1) \<longrightarrow>
        d = Some (TeamAbandoned,
              if team_all_abandoned room now 0 \<and> team_all_abandoned room now 1 then None
              else if team_all_abandoned room now 1 then Some 0 else Some 1)) \<and>
     (\<not> score_limit_reached L room \<and> \<not> duration_exceeded room now \<and>
      \<not> team_all_abandoned room now 0 \<and> \<not> team_all_abandoned room now 1 \<longrightarrow> d = None)"
    using assms
    unfolding shouldEndRoom_def score_limit_reached_def duration_exceeded_def Let_def teamActive_marked
      score_winner_def
    by (auto split: if_splits)
  from assms have r: "room' = snd (shouldEndRoom L room now)" by simp
  have 2: "roomHeap s ! a = room' \<and> \<not> r_ended room' \<longrightarrow>
        fst (endRoomStart e now a reason None s) =
          Some (MatchEnded (r_id room) reason
                 (if fst (r_score room) = snd (r_score room) then None
                  else if fst (r_score room) > snd (r_score room) then Some 0 else Some 1)
                 (r_score room)
                 (buildRatingChanges (map snd (r_members room'))
                    (if fst (r_score room) = snd (r_score room) then None
                     else if fst (r_score room) > snd (r_score room) then Some 0 else Some 1)))"
    using endRoomStart_null_winner[of s a e now reason]
    by (auto simp: r shouldEndRoom_score shouldEndRoom_id)
  from 1 2 show ?thesis by (intro conjI) (elim conjE, assumption)+
qed

text \<open>
  A 1v1 room with the score 3-1 whose two members both lost their connection at time
  50000, examined by the tick at time 100000: \<open>shouldEndRoom\<close> decides
  \<open>(TeamAbandoned, None)\<close>, and the match is stored with winner team 0, a win for
  \<open>pA\<close> and a loss for \<open>pB\<close>.
\<close>

theorem shouldEndRoom_decision_and_endRoom_winner_witness:
  "fst (shouldEndRoom (Num 7) exRoomGone 100000) = Some (TeamAbandoned, None) \<and>
   \<not> score_limit_reached (Num 7) exRoomGone \<and> \<not> duration_exceeded exRoomGone 100000 \<and>
   team_all_abandoned exRoomGone 100000 0 \<and> team_all_abandoned exRoomGone 100000 1 \<and>
   map mr_winnerTeam (matches (handle exEnv 100000 (RoomTick (\<lambda>rid. (3, 1))) exServerGone)) = [Some 0] \<and>
   map (\<lambda>r. map rc_result (mr_players r))
     (matches (handle exEnv 100000 (RoomTick (\<lambda>rid. (3, 1))) exServerGone)) = [[''win'', ''loss'']]"
proof -
  obtain d room' where e: "shouldEndRoom (Num 7) exRoomGone 100000 = (d, room')"
    by (cases "shouldEndRoom (Num 7) exRoomGone 100000") auto
  have a: "\<not> score_limit_reached (Num 7) exRoomGone"
    by (simp add: score_limit_reached_def exRoomGone_def)
  have b: "\<not> duration_exceeded exRoomGone 100000"
    by (simp add: duration_exceeded_def exRoomGone_def MATCH_MAX_DURATION_MS_def)
  have c0: "team_all_abandoned exRoomGone 100000 0"
    by (simp add: team_all_abandoned_def grace_expired_def exRoomGone_def exA_def exB_def
        RECONNECT_GRACE_MS_def)
  have c1: "team_all_abandoned exRoomGone 100000 1"
    by (simp add: team_all_abandoned_def grace_expired_def exRoomGone_def exA_def exB_def
        RECONNECT_GRACE_MS_def)
  from shouldEndRoom_decision_and_endRoom_winner[OF e] a b c0 c1
  have d: "d = Some (TeamAbandoned, None)" by simp
  have m: "matches (handle exEnv 100000 (RoomTick (\<lambda>rid. (3, 1))) exServerGone) =
     [\<lparr>mr_matchId = ''match-3'', mr_playlist = ''duel'', mr_seed = ''seed'',
       mr_team0Score = 3, mr_team1Score = 1, mr_winnerTeam = Some 0,
       mr_startedAt = 1000, mr_endedAt = 100000,
       mr_players = buildRatingChanges
          [exA\<lparr>m_socketId := None, m_disconnectedAt := Some 50000, m_abandoned := True\<rparr>,
           exB\<lparr>m_socketId := None, m_disconnectedAt := Some 50000, m_abandoned := True\<rparr>] (Some 0),
       mr_storedAt = 100000\<rparr>]"
    by (simp add: exServerGone_def exRoomGone_def exA_def exB_def exEnv_def
        tickRooms_def tickRoom_def shouldEndRoom_def markAbandoned_def teamActive_def endRoomStart_def
        buildRatingChanges_def memberChange_def ratingAverage_def teamDelta0_def member_rating_def
        applyMatchResult_def applyPlayerResult_def createSessionToken_def createPlayer_def draw_def
        finishRoomForSockets_def update_state_def emit_to_def Let_def
        RECONNECT_GRACE_MS_def MATCH_MAX_DURATION_MS_def)
  have r: "map (\<lambda>r. map rc_result (mr_players r))
     (matches (handle exEnv 100000 (RoomTick (\<lambda>rid. (3, 1))) exServerGone)) = [[''win'', ''loss'']]"
    unfolding m by (simp add: buildRatingChanges_def memberChange_def Let_def exA_def exB_def)
  have w: "map mr_winnerTeam (matches (handle exEnv 100000 (RoomTick (\<lambda>rid. (3, 1))) exServerGone)) = [Some 0]"
    unfolding m by simp
  from e d a b c0 c1 w r show ?thesis by simp
qed

section \<open>MatchFinder: what every evaluated selection satisfies\<close>

text \<open>
  \<open>best\<close> only ever changes in \<open>evaluateCurrent\<close>, to a candidate built from the
  current selection after it passed \<open>comboCompatible\<close>, \<open>findBestTeamPartition\<close> and
  \<open>assignSlots\<close>. A property that \<open>evaluateCurrent\<close> keeps therefore holds of the
  result of the whole search.
\<close>

lemma compareCandidate_cases:
  "compareCandidate best found = found \<or> best = Some (compareCandidate best found)"
  by (cases best) auto

lemma evaluateCurrent_cases:
  "evaluateCurrent cfg now current best = best \<or>
   (\<exists>p slotMap found. current \<noteq> [] \<and> comboCompatible current now \<and>
      findBestTeamPartition current (pc_teamSize cfg) = Some p \<and>
      assignSlots current (pr_assignmentByEntryId p) cfg = Some slotMap \<and>
      c_entries found = current \<and> c_assignmentByEntryId found = pr_assignmentByEntryId p \<and>
      c_slotsByEntryId found = slotMap \<and>
      evaluateCurrent cfg now current best = Some found)"
proof (cases current)
  case Nil
  then show ?thesis by simp
next
  case (Cons first others)
  show ?thesis
  proof (cases "comboCompatible current now")
    case False
    then show ?thesis unfolding Cons by (simp del: comboCompatible.simps)
  next
    case True
    note cc = True
    show ?thesis
    proof (cases "findBestTeamPartition current (pc_teamSize cfg)")
      case None
      then show ?thesis using cc unfolding Cons by (simp del: comboCompatible.simps)
    next
      case (Some p)
      note fp = Some
      show ?thesis
      proof (cases "assignSlots current (pr_assignmentByEntryId p) cfg")
        case None
        then show ?thesis using cc fp unfolding Cons by (simp del: comboCompatible.simps)
      next
        case (Some slotMap)
        note sm = Some
        obtain found where e: "evaluateCurrent cfg now current best = Some (compareCandidate best found)"
          and f: "c_entries found = current" "c_assignmentByEntryId found = pr_assignmentByEntryId p"
                 "c_slotsByEntryId found = slotMap"
          using cc fp sm unfolding Cons
          by (simp del: comboCompatible.simps js_maximum.simps js_minimum.simps min_list.simps add: Let_def)
        from compareCandidate_cases[of best found] show ?thesis
        proof
          assume "compareCandidate best found = found"
          with e have "evaluateCurrent cfg now current best = Some found" by simp
          moreover have "current \<noteq> []" using Cons by simp
          ultimately show ?thesis using f cc fp sm by blast
        next
          assume "best = Some (compareCandidate best found)"
          with e show ?thesis by simp
        qed
      qed
    qed
  qed
qed

definition removable :: "(queue_entry list \<Rightarrow> bool) \<Rightarrow> bool" where
  "removable D = (\<forall>xs ys zs. D (xs @ ys @ zs) \<longrightarrow> D (xs @ zs))"

definition evaluate_keeps ::
  "playlist_config \<Rightarrow> int \<Rightarrow> (queue_entry list \<Rightarrow> bool) \<Rightarrow> (candidate \<Rightarrow> bool) \<Rightarrow> bool" where
  "evaluate_keeps cfg now D Q =
     (\<forall>current best. D current \<longrightarrow> (\<forall>c. best = Some c \<longrightarrow> Q c) \<longrightarrow>
        (\<forall>c. evaluateCurrent cfg now current best = Some c \<longrightarrow> Q c))"

lemma candidate_dfs_invariant:
  "evaluate_keeps cfg now D Q \<Longrightarrow> removable D \<Longrightarrow> D (current @ pool) \<Longrightarrow> (\<forall>c. best = Some c \<longrightarrow> Q c) \<Longrightarrow>
           (\<forall>c. candidate_dfs cfg now current pool seats best = Some c \<longrightarrow> Q c)"
  "evaluate_keeps cfg now D Q \<Longrightarrow> removable D \<Longrightarrow> D (current @ pool) \<Longrightarrow> (\<forall>c. best = Some c \<longrightarrow> Q c) \<Longrightarrow>
           (\<forall>c. candidate_loop cfg now current pool seats best = Some c \<longrightarrow> Q c)"
proof (induction cfg now current pool seats best and cfg now current pool seats best
       rule: candidate_dfs_candidate_loop.induct)
  case (1 playlistConfig now current pool seatCount best)
  show ?case
  proof (cases "seatCount = real (pc_totalSeats playlistConfig)")
    case True
    have "D (current @ pool @ [])" using 1(4) by simp
    with 1(3) have "D (current @ [])" unfolding removable_def by blast
    then have "D current" by simp
    with 1(2) 1(5) have "\<forall>c. evaluateCurrent playlistConfig now current best = Some c \<longrightarrow> Q c"
      unfolding evaluate_keeps_def by blast
    with True show ?thesis by simp
  next
    case False
    note ne = False
    show ?thesis
    proof (cases "seatCount > real (pc_totalSeats playlistConfig)")
      case True
      with ne 1(5) show ?thesis by simp
    next
      case False
      from 1(1)[OF ne False 1(2) 1(3) 1(4) 1(5)] ne False show ?thesis by simp
    qed
  qed
next
  case (2 playlistConfig now current seatCount best)
  then show ?case by simp
next
  case (3 playlistConfig now current entry pool seatCount best)
  have d1: "D ((current @ [entry]) @ pool)" using 3(5) by simp
  have "D (current @ [entry] @ pool)" using 3(5) by simp
  with 3(4) have d2: "D (current @ pool)" unfolding removable_def by blast
  from 3(1)[OF 3(3) 3(4) d1 3(6)]
  have "\<forall>c. candidate_dfs playlistConfig now (current @ [entry]) pool (seatCount + q_partySize entry) best = Some c \<longrightarrow> Q c" .
  from 3(2)[OF 3(3) 3(4) d2 this] show ?case by simp
qed

lemma findBestCandidate_invariant:
  assumes "evaluate_keeps cfg now D Q" and "removable D" and "D (take 16 (sort_key q_joinedAt entries))"
    and "findBestCandidate entries now cfg = Some c"
  shows "Q c"
proof -
  from assms(4) have "candidate_dfs cfg now [] (take 16 (sort_key q_joinedAt entries)) 0 None = Some c"
    by (simp add: findBestCandidate_def Let_def split: if_splits)
  moreover have "D ([] @ take 16 (sort_key q_joinedAt entries))" using assms(3) by simp
  ultimately show ?thesis using candidate_dfs_invariant(1)[OF assms(1) assms(2), of "[]" _ None 0] by blast
qed

lemma removable_True: "removable (\<lambda>xs. True)"
  by (simp add: removable_def)

lemma removable_distinct_ids: "removable (\<lambda>xs. distinct (map q_id xs))"
  by (auto simp: removable_def)

lemma evaluate_keeps_compatible:
  "evaluate_keeps cfg now (\<lambda>xs. True) (\<lambda>c. comboCompatible (c_entries c) now)"
  unfolding evaluate_keeps_def
proof (intro allI impI)
  fix current best c
  assume b: "\<forall>c. best = Some c \<longrightarrow> comboCompatible (c_entries c) now"
    and e: "evaluateCurrent cfg now current best = Some c"
  from evaluateCurrent_cases[of cfg now current best] show "comboCompatible (c_entries c) now"
  proof
    assume "evaluateCurrent cfg now current best = best"
    with e b show ?thesis by simp
  next
    assume "\<exists>p slotMap found. current \<noteq> [] \<and> comboCompatible current now \<and>
      findBestTeamPartition current (pc_teamSize cfg) = Some p \<and>
      assignSlots current (pr_assignmentByEntryId p) cfg = Some slotMap \<and>
      c_entries found = current \<and> c_assignmentByEntryId found = pr_assignmentByEntryId p \<and>
      c_slotsByEntryId found = slotMap \<and>
      evaluateCurrent cfg now current best = Some found"
    with e show ?thesis by auto
  qed
qed

lemma comboCompatible_ping:
  "comboCompatible xs now \<Longrightarrow> a \<in> set xs \<Longrightarrow> b \<in> set xs \<Longrightarrow> q_pingMs a \<le> q_maxPingMs b"
proof (induction xs)
  case Nil
  then show ?case by simp
next
  case (Cons x xs)
  then show ?case
    by (auto simp: list_all_iff pairCompatible_def)
qed

text \<open>The search on the two waiting solo parties of the 1v1 example.\<close>

lemma findBestCandidate_example:
  "\<exists>c. findBestCandidate [exQ1, exQ2] 300 duel = Some c \<and> c_entries c = [exQ1, exQ2] \<and>
     map (c_assignmentByEntryId c) [''q_1'', ''q_2''] = [Some 0, Some 1] \<and>
     map (c_slotsByEntryId c) [''q_1'', ''q_2''] = [Some [0], Some [2]]"
  by (simp add: findBestCandidate_def exQ1_def exQ2_def duel_def Let_def findBestTeamPartition_def evaluatePartition_def
   assignSlots_def byTeam_def teamSlots_def pairCompatible_def inputModeCompatible_def mmrRangeForEntry_def ratingAverage_def
   QUEUE_MAX_MMR_RANGE_def QUEUE_BASE_MMR_RANGE_def QUEUE_EXPAND_EVERY_MS_def QUEUE_EXPAND_STEP_def DEFAULT_RATING_def)

section \<open>MatchFinder: latency tolerance\<close>

text \<open>
  C5. In a combination that \<open>findBestCandidate\<close> returns, the observed latency of no
  entry exceeds the declared maximum of any entry of the combination (its own included):
  the tolerance holds in both directions for every pair.
\<close>

theorem findBestCandidate_latency:
  "findBestCandidate entries now playlistConfig = Some c \<Longrightarrow>
     a \<in> set (c_entries c) \<Longrightarrow> b \<in> set (c_entries c) \<Longrightarrow>
     q_pingMs a \<le> q_maxPingMs b \<and> q_pingMs b \<le> q_maxPingMs a"
proof -
  assume f: "findBestCandidate entries now playlistConfig = Some c"
    and a: "a \<in> set (c_entries c)" and b: "b \<in> set (c_entries c)"
  have "comboCompatible (c_entries c) now"
    using findBestCandidate_invariant[OF evaluate_keeps_compatible removable_True _ f] by simp
  with a b show ?thesis by (simp add: comboCompatible_ping)
qed

theorem findBestCandidate_latency_witness:
  "findBestCandidate [exQ1, exQ2] 300 duel \<noteq> None \<and>
   q_pingMs exQ1 \<le> q_maxPingMs exQ2 \<and> q_pingMs exQ2 \<le> q_maxPingMs exQ1"
proof -
  obtain c where c: "findBestCandidate [exQ1, exQ2] 300 duel = Some c" and e: "c_entries c = [exQ1, exQ2]"
    using findBestCandidate_example by blast
  have "exQ1 \<in> set (c_entries c)" "exQ2 \<in> set (c_entries c)" using e by simp_all
  from findBestCandidate_latency[OF c this] c show ?thesis by simp
qed

section \<open>MatchFinder: seat-exact teams and seats\<close>

text \<open>
  Every \<open>best\<close> of the partition search is a split of the entries by a set of indices
  in which both teams hold exactly \<open>teamSize\<close> seats.
\<close>

definition part_ok :: "queue_entry list \<Rightarrow> nat \<Rightarrow> partition_best \<Rightarrow> bool" where
  "part_ok entries teamSize pb =
     (\<exists>P. pb_team0 pb = map (nth entries) (filter P [0..<length entries]) \<and>
          pb_team1 pb = map (nth entries) (filter (\<lambda>i. \<not> P i) [0..<length entries]) \<and>
          sum_list (map q_partySize (pb_team0 pb)) = real teamSize \<and>
          sum_list (map q_partySize (pb_team1 pb)) = real teamSize)"

lemma evaluatePartition_ok:
  assumes "\<forall>b. best = Some b \<longrightarrow> part_ok entries teamSize b"
  shows "\<forall>b. evaluatePartition entries teamSize indices best = Some b \<longrightarrow> part_ok entries teamSize b"
proof (intro allI impI)
  fix b assume e: "evaluatePartition entries teamSize indices best = Some b"
  let ?t0 = "map (nth entries) (filter (\<lambda>index. index \<in> set indices) [0..<length entries])"
  let ?t1 = "map (nth entries) (filter (\<lambda>index. index \<notin> set indices) [0..<length entries])"
  show "part_ok entries teamSize b"
  proof (cases "sum_list (map q_partySize ?t0) \<noteq> real teamSize \<or> sum_list (map q_partySize ?t1) \<noteq> real teamSize")
    case True
    with e have "best = Some b" by (simp add: evaluatePartition_def Let_def)
    with assms show ?thesis by simp
  next
    case False
    then have s: "sum_list (map q_partySize ?t0) = real teamSize" "sum_list (map q_partySize ?t1) = real teamSize"
      by simp_all
    from e False have "best = Some b \<or> (pb_team0 b = ?t0 \<and> pb_team1 b = ?t1)"
      by (auto simp: evaluatePartition_def Let_def split: option.splits if_splits)
    then show ?thesis
    proof
      assume "best = Some b" with assms show ?thesis by simp
    next
      assume "pb_team0 b = ?t0 \<and> pb_team1 b = ?t1"
      with s show ?thesis unfolding part_ok_def
        by (intro exI[of _ "\<lambda>index. index \<in> set indices"]) simp
    qed
  qed
qed

lemma partition_dfs_ok:
  "(\<forall>b. best = Some b \<longrightarrow> part_ok entries teamSize b) \<Longrightarrow>
     (\<forall>b. partition_dfs entries teamSize chosen is seats best = Some b \<longrightarrow> part_ok entries teamSize b)"
  "(\<forall>b. best = Some b \<longrightarrow> part_ok entries teamSize b) \<Longrightarrow>
     (\<forall>b. partition_loop entries teamSize chosen is seats best = Some b \<longrightarrow> part_ok entries teamSize b)"
proof (induction entries teamSize chosen "is" seats best and entries teamSize chosen "is" seats best
       rule: partition_dfs_partition_loop.induct)
  case (1 entries teamSize chosen "is" currentSeats best)
  show ?case
  proof (cases "currentSeats = real teamSize")
    case True
    with evaluatePartition_ok[OF 1(2)] show ?thesis by simp
  next
    case False
    note ne = False
    show ?thesis
    proof (cases "currentSeats > real teamSize")
      case True
      with ne 1(2) show ?thesis by simp
    next
      case False
      from 1(1)[OF ne False 1(2)] ne False show ?thesis by simp
    qed
  qed
next
  case (2 entries teamSize chosen currentSeats best)
  then show ?case by simp
next
  case (3 entries teamSize chosen i "is" currentSeats best)
  from 3(2)[OF 3(1)[OF 3(3)]] show ?case by simp
qed

definition teamAssignment :: "queue_entry list \<Rightarrow> queue_entry list \<Rightarrow> string \<rightharpoonup> nat" where
  "teamAssignment team0 team1 =
     foldl (\<lambda>m entry. m(q_id entry \<mapsto> 1)) (foldl (\<lambda>m entry. m(q_id entry \<mapsto> 0)) Map.empty team0) team1"

lemma findBestTeamPartition_ok:
  assumes "findBestTeamPartition entries teamSize = Some pr"
  shows "\<exists>pb. part_ok entries teamSize pb \<and> pr_assignmentByEntryId pr = teamAssignment (pb_team0 pb) (pb_team1 pb)"
proof -
  from assms obtain pb where d: "partition_dfs entries teamSize [] [0..<length entries] 0 None = Some pb"
    and a: "pr_assignmentByEntryId pr = teamAssignment (pb_team0 pb) (pb_team1 pb)"
    by (auto simp: findBestTeamPartition_def teamAssignment_def split: option.splits)
  from partition_dfs_ok(1)[of None entries teamSize "[]" "[0..<length entries]" 0] d
  have "part_ok entries teamSize pb" by simp
  with a show ?thesis by blast
qed

lemma foldl_upd_const:
  "foldl (\<lambda>m entry. m(k entry \<mapsto> v)) m0 xs k' = (if k' \<in> k ` set xs then Some v else m0 k')"
  by (induction xs arbitrary: m0) auto

lemma teamAssignment_apply:
  "teamAssignment team0 team1 k =
     (if k \<in> q_id ` set team1 then Some 1 else if k \<in> q_id ` set team0 then Some 0 else None)"
  by (simp add: teamAssignment_def foldl_upd_const)

lemma teamAssignment_index:
  assumes d: "distinct (map q_id entries)" and i: "i < length entries"
  shows "teamAssignment (map (nth entries) (filter P [0..<length entries]))
           (map (nth entries) (filter (\<lambda>i. \<not> P i) [0..<length entries])) (q_id (entries ! i))
         = Some (if P i then 0 else 1)"
proof -
  have inj: "\<And>j. j < length entries \<Longrightarrow> q_id (entries ! j) = q_id (entries ! i) \<Longrightarrow> j = i"
    using d i by (metis distinct_conv_nth length_map nth_map)
  have m: "(q_id (entries ! i) \<in> q_id ` set (map (nth entries) (filter Q [0..<length entries]))) = Q i" for Q
  proof -
    have s: "set (map (nth entries) (filter Q [0..<length entries])) = {entries ! j | j. j < length entries \<and> Q j}"
      by auto
    show ?thesis
    proof
      assume "q_id (entries ! i) \<in> q_id ` set (map (nth entries) (filter Q [0..<length entries]))"
      then obtain j where "j < length entries" "Q j" "q_id (entries ! i) = q_id (entries ! j)"
        unfolding s by blast
      with inj[of j] show "Q i" by simp
    next
      assume "Q i"
      with i have "entries ! i \<in> set (map (nth entries) (filter Q [0..<length entries]))"
        unfolding s by blast
      then show "q_id (entries ! i) \<in> q_id ` set (map (nth entries) (filter Q [0..<length entries]))"
        by (rule imageI)
    qed
  qed
  show ?thesis unfolding teamAssignment_apply m by simp
qed

lemma filter_by_assignment:
  assumes d: "distinct (map q_id entries)"
    and a: "\<And>i. i < length entries \<Longrightarrow> asg (q_id (entries ! i)) = Some (if P i then 0 else (1::nat))"
  shows "filter (\<lambda>e. asg (q_id e) = Some 0) entries = map (nth entries) (filter P [0..<length entries])"
    and "filter (\<lambda>e. asg (q_id e) = Some 1) entries = map (nth entries) (filter (\<lambda>i. \<not> P i) [0..<length entries])"
proof -
  have "filter (\<lambda>e. asg (q_id e) = Some 0) (map (nth entries) [0..<length entries])
        = map (nth entries) (filter P [0..<length entries])"
    unfolding filter_map by (rule arg_cong[where f="map (nth entries)"], rule filter_cong) (auto simp: a)
  then show "filter (\<lambda>e. asg (q_id e) = Some 0) entries = map (nth entries) (filter P [0..<length entries])"
    by (simp only: map_nth)
  have "filter (\<lambda>e. asg (q_id e) = Some 1) (map (nth entries) [0..<length entries])
        = map (nth entries) (filter (\<lambda>i. \<not> P i) [0..<length entries])"
    unfolding filter_map by (rule arg_cong[where f="map (nth entries)"], rule filter_cong) (auto simp: a)
  then show "filter (\<lambda>e. asg (q_id e) = Some 1) entries = map (nth entries) (filter (\<lambda>i. \<not> P i) [0..<length entries])"
    by (simp only: map_nth)
qed


lemma assignTeam_frame:
  "assignTeam pool es r = Some r' \<Longrightarrow> k \<notin> q_id ` set es \<Longrightarrow> r' k = r k"
proof (induction es arbitrary: pool r)
  case Nil
  then show ?case by simp
next
  case (Cons e es)
  from Cons.prems(1) have a: "assignTeam (drop (nat \<lceil>q_partySize e\<rceil>) pool) es
      (r(q_id e \<mapsto> take (nat \<lceil>q_partySize e\<rceil>) pool)) = Some r'"
    by (simp add: Let_def split: if_splits)
  from Cons.prems(2) have k: "k \<notin> q_id ` set es" "k \<noteq> q_id e" by auto
  from Cons.IH[OF a k(1)] k(2) show ?case by simp
qed

lemma assignTeam_dom_mono:
  "assignTeam pool es r = Some r' \<Longrightarrow> r k \<noteq> None \<Longrightarrow> r' k \<noteq> None"
proof (induction es arbitrary: pool r)
  case Nil
  then show ?case by simp
next
  case (Cons e es)
  from Cons.prems(1) have a: "assignTeam (drop (nat \<lceil>q_partySize e\<rceil>) pool) es
      (r(q_id e \<mapsto> take (nat \<lceil>q_partySize e\<rceil>) pool)) = Some r'"
    by (simp add: Let_def split: if_splits)
  have "(r(q_id e \<mapsto> take (nat \<lceil>q_partySize e\<rceil>) pool)) k \<noteq> None" using Cons.prems(2) by simp
  from Cons.IH[OF a this] show ?case .
qed

lemma assignTeam_dom:
  "assignTeam pool es r = Some r' \<Longrightarrow> e \<in> set es \<Longrightarrow> r' (q_id e) \<noteq> None"
proof (induction es arbitrary: pool r)
  case Nil
  then show ?case by simp
next
  case (Cons x es)
  from Cons.prems(1) have a: "assignTeam (drop (nat \<lceil>q_partySize x\<rceil>) pool) es
      (r(q_id x \<mapsto> take (nat \<lceil>q_partySize x\<rceil>) pool)) = Some r'"
    by (simp add: Let_def split: if_splits)
  show ?case
  proof (cases "e = x")
    case True
    have "(r(q_id x \<mapsto> take (nat \<lceil>q_partySize x\<rceil>) pool)) (q_id e) \<noteq> None" using True by simp
    from assignTeam_dom_mono[OF a this] show ?thesis .
  next
    case False
    with Cons.prems(2) have "e \<in> set es" by simp
    from Cons.IH[OF a this] show ?thesis .
  qed
qed

lemma assignTeam_take:
  "assignTeam pool es r = Some r' \<Longrightarrow> distinct (map q_id es) \<Longrightarrow>
     concat (map (seats_of r') es) = take (sum_list (map (\<lambda>e. nat \<lceil>q_partySize e\<rceil>) es)) pool \<and>
     sum_list (map (\<lambda>e. nat \<lceil>q_partySize e\<rceil>) es) \<le> length pool"
proof (induction es arbitrary: pool r)
  case Nil
  then show ?case by simp
next
  case (Cons e es)
  let ?n = "nat \<lceil>q_partySize e\<rceil>"
  from Cons.prems(1) have le: "q_partySize e \<le> real (length pool)"
    and a: "assignTeam (drop ?n pool) es (r(q_id e \<mapsto> take ?n pool)) = Some r'"
    by (simp_all add: Let_def split: if_splits)
  from le have "q_partySize e \<le> of_int (int (length pool))" by simp
  then have "\<lceil>q_partySize e\<rceil> \<le> int (length pool)" by (rule ceiling_le)
  then have n: "?n \<le> length pool" by (simp only: nat_le_iff)
  from Cons.prems(2) have d: "distinct (map q_id es)" and ne: "q_id e \<notin> q_id ` set es" by auto
  from Cons.IH[OF a d] have ih: "concat (map (seats_of r') es) =
      take (sum_list (map (\<lambda>e. nat \<lceil>q_partySize e\<rceil>) es)) (drop ?n pool)"
    and k: "sum_list (map (\<lambda>e. nat \<lceil>q_partySize e\<rceil>) es) \<le> length (drop ?n pool)" by simp_all
  from assignTeam_frame[OF a ne] have se: "seats_of r' e = take ?n pool" by (simp add: seats_of_def)
  from k have "sum_list (map (\<lambda>e. nat \<lceil>q_partySize e\<rceil>) es) \<le> length pool - ?n"
    by (simp only: length_drop)
  with n have b: "?n + sum_list (map (\<lambda>e. nat \<lceil>q_partySize e\<rceil>) es) \<le> length pool" by linarith
  have "concat (map (seats_of r') (e # es)) = take ?n pool @ concat (map (seats_of r') es)"
    using se by simp
  also have "\<dots> = take (?n + sum_list (map (\<lambda>e. nat \<lceil>q_partySize e\<rceil>) es)) pool"
    unfolding ih by (simp only: take_add)
  finally show ?case using b by simp
qed

lemma partySize_sum_le_ceiling:
  "sum_list (map q_partySize es) \<le> real (sum_list (map (\<lambda>e. nat \<lceil>q_partySize e\<rceil>) es))"
proof (induction es)
  case Nil
  then show ?case by simp
next
  case (Cons e es)
  have "q_partySize e \<le> real (nat \<lceil>q_partySize e\<rceil>)" by (rule real_nat_ceiling_ge)
  with Cons show ?case by simp
qed

lemma assignTeam_full:
  assumes "assignTeam pool es r = Some r'" and "distinct (map q_id es)"
    and "sum_list (map q_partySize es) = real (length pool)"
  shows "concat (map (seats_of r') es) = pool"
proof -
  from assignTeam_take[OF assms(1,2)]
  have t: "concat (map (seats_of r') es) = take (sum_list (map (\<lambda>e. nat \<lceil>q_partySize e\<rceil>) es)) pool"
    and k: "sum_list (map (\<lambda>e. nat \<lceil>q_partySize e\<rceil>) es) \<le> length pool" by simp_all
  from partySize_sum_le_ceiling[of es] assms(3)
  have "length pool \<le> sum_list (map (\<lambda>e. nat \<lceil>q_partySize e\<rceil>) es)" by simp
  with k have "sum_list (map (\<lambda>e. nat \<lceil>q_partySize e\<rceil>) es) = length pool" by simp
  with t show ?thesis by simp
qed

lemma sum_list_map_mset_cong:
  fixes f :: "'a \<Rightarrow> real"
  shows "mset xs = mset ys \<Longrightarrow> sum_list (map f xs) = sum_list (map f ys)"
proof -
  assume "mset xs = mset ys"
  then have "mset (map f xs) = mset (map f ys)" by (metis mset_map)
  then have "sum_mset (mset (map f xs)) = sum_mset (mset (map f ys))" by simp
  then show ?thesis by (simp only: sum_mset_sum_list)
qed

lemma mset_concat_map_split:
  "mset xs = mset ys + mset zs \<Longrightarrow>
     mset (concat (map g xs)) = mset (concat (map g ys)) + mset (concat (map g zs))"
proof -
  assume "mset xs = mset ys + mset zs"
  then have "mset xs = mset (ys @ zs)" by simp
  then have "mset (map (\<lambda>x. mset (g x)) xs) = mset (map (\<lambda>x. mset (g x)) (ys @ zs))" by (metis mset_map)
  then have "sum_mset (mset (map (\<lambda>x. mset (g x)) xs)) = sum_mset (mset (map (\<lambda>x. mset (g x)) (ys @ zs)))"
    by simp
  then have "sum_list (map (\<lambda>x. mset (g x)) xs) = sum_list (map (\<lambda>x. mset (g x)) (ys @ zs))"
    by (simp only: sum_mset_sum_list)
  then show ?thesis by (simp add: mset_concat comp_def)
qed


lemma mset_concat_map_cong:
  "mset xs = mset ys \<Longrightarrow> mset (concat (map g xs)) = mset (concat (map g ys))"
  using mset_concat_map_split[of xs ys "[]" g] by simp

lemma distinct_map_mset_cong:
  "mset xs = mset ys \<Longrightarrow> distinct (map f xs) \<Longrightarrow> distinct (map f ys)"
proof -
  assume m: "mset xs = mset ys" and d: "distinct (map f xs)"
  from m have "mset (map f xs) = mset (map f ys)" by (metis mset_map)
  with d show ?thesis by (metis mset_eq_imp_distinct_iff)
qed

definition wf_playlist :: "playlist_config \<Rightarrow> bool" where
  "wf_playlist cfg =
     (length (teamSlots cfg 0) = pc_teamSize cfg \<and> length (teamSlots cfg 1) = pc_teamSize cfg \<and>
      distinct (teamSlots cfg 0 @ teamSlots cfg 1))"

lemma wf_getPlaylistConfig: "wf_playlist (getPlaylistConfig playlist)"
  by (simp add: wf_playlist_def getPlaylistConfig_def ranked_def duel_def teamSlots_def)

lemma assignSlots_full:
  assumes as: "assignSlots cur asg cfg = Some m"
    and d: "distinct (map q_id cur)"
    and t0: "filter (\<lambda>e. asg (q_id e) = Some 0) cur = team0"
    and t1: "filter (\<lambda>e. asg (q_id e) = Some 1) cur = team1"
    and ms: "mset cur = mset team0 + mset team1"
    and s0: "sum_list (map q_partySize team0) = real (length (teamSlots cfg 0))"
    and s1: "sum_list (map q_partySize team1) = real (length (teamSlots cfg 1))"
  shows "mset (concat (map (seats_of m) cur)) = mset (teamSlots cfg 0 @ teamSlots cfg 1)"
    and "\<forall>e\<in>set cur. m (q_id e) \<noteq> None"
proof -
  let ?bt0 = "byTeam cur asg 0" and ?bt1 = "byTeam cur asg 1"
  from as obtain r0 where a0: "assignTeam (teamSlots cfg 0) ?bt0 Map.empty = Some r0"
    and a1: "assignTeam (teamSlots cfg 1) ?bt1 r0 = Some m"
    by (auto simp: assignSlots_def split: if_splits option.splits)
  have m0: "mset ?bt0 = mset team0" and m1: "mset ?bt1 = mset team1"
    unfolding byTeam_def t0 t1 by (simp_all only: mset_sort)
  have d0: "distinct (map q_id team0)" and d1: "distinct (map q_id team1)"
    using d t0 t1 distinct_map_filter by blast+
  have db0: "distinct (map q_id ?bt0)" using distinct_map_mset_cong[OF m0[symmetric] d0] .
  have db1: "distinct (map q_id ?bt1)" using distinct_map_mset_cong[OF m1[symmetric] d1] .
  have sb0: "sum_list (map q_partySize ?bt0) = real (length (teamSlots cfg 0))"
    using sum_list_map_mset_cong[OF m0, of q_partySize] s0 by simp
  have sb1: "sum_list (map q_partySize ?bt1) = real (length (teamSlots cfg 1))"
    using sum_list_map_mset_cong[OF m1, of q_partySize] s1 by simp
  have c0: "concat (map (seats_of r0) ?bt0) = teamSlots cfg 0" using assignTeam_full[OF a0 db0 sb0] .
  have c1: "concat (map (seats_of m) ?bt1) = teamSlots cfg 1" using assignTeam_full[OF a1 db1 sb1] .
  have in0: "\<And>e. e \<in> set ?bt0 \<Longrightarrow> asg (q_id e) = Some 0"
    and in1: "\<And>e. e \<in> set ?bt1 \<Longrightarrow> asg (q_id e) = Some 1"
    by (auto simp: byTeam_def)
  have keep: "seats_of m e = seats_of r0 e" if "e \<in> set ?bt0" for e
  proof -
    have "q_id e \<notin> q_id ` set ?bt1"
    proof
      assume "q_id e \<in> q_id ` set ?bt1"
      then obtain e' where "e' \<in> set ?bt1" "q_id e = q_id e'" by blast
      with in1[of e'] in0[OF that] show False by simp
    qed
    from assignTeam_frame[OF a1 this] show ?thesis by (simp add: seats_of_def)
  qed
  have mm: "map (seats_of m) ?bt0 = map (seats_of r0) ?bt0" using keep by simp
  have c0': "concat (map (seats_of m) ?bt0) = teamSlots cfg 0" unfolding mm by (rule c0)
  have "mset (concat (map (seats_of m) cur))
        = mset (concat (map (seats_of m) team0)) + mset (concat (map (seats_of m) team1))"
    using mset_concat_map_split[OF ms] .
  also have "mset (concat (map (seats_of m) team0)) = mset (concat (map (seats_of m) ?bt0))"
    using mset_concat_map_cong[OF m0[symmetric]] .
  also have "mset (concat (map (seats_of m) team1)) = mset (concat (map (seats_of m) ?bt1))"
    using mset_concat_map_cong[OF m1[symmetric]] .
  finally show "mset (concat (map (seats_of m) cur)) = mset (teamSlots cfg 0 @ teamSlots cfg 1)"
    using c0' c1 by simp
  show "\<forall>e\<in>set cur. m (q_id e) \<noteq> None"
  proof
    fix e assume e: "e \<in> set cur"
    then have "e \<in># mset cur" by simp
    then have "e \<in># mset team0 + mset team1" using ms by simp
    then have "e \<in> set ?bt0 \<or> e \<in> set ?bt1" using m0 m1 by (metis set_mset_mset union_iff)
    then show "m (q_id e) \<noteq> None"
    proof
      assume "e \<in> set ?bt0"
      from assignTeam_dom_mono[OF a1 assignTeam_dom[OF a0 this]] show ?thesis .
    next
      assume "e \<in> set ?bt1"
      from assignTeam_dom[OF a1 this] show ?thesis .
    qed
  qed
qed

definition cand_ok :: "playlist_config \<Rightarrow> candidate \<Rightarrow> bool" where
  "cand_ok cfg c =
     (sum_list (map q_partySize (team_entries c 0)) = real (pc_teamSize cfg) \<and>
      sum_list (map q_partySize (team_entries c 1)) = real (pc_teamSize cfg) \<and>
      mset (c_entries c) = mset (team_entries c 0) + mset (team_entries c 1) \<and>
      (\<forall>e\<in>set (c_entries c). c_slotsByEntryId c (q_id e) \<noteq> None) \<and>
      mset (assigned_seats c) = mset (teamSlots cfg 0 @ teamSlots cfg 1))"

lemma evaluate_keeps_cand_ok:
  assumes wf: "wf_playlist cfg"
  shows "evaluate_keeps cfg now (\<lambda>xs. distinct (map q_id xs)) (cand_ok cfg)"
  unfolding evaluate_keeps_def
proof (intro allI impI)
  fix current best c
  assume d: "distinct (map q_id current)"
    and b: "\<forall>c. best = Some c \<longrightarrow> cand_ok cfg c"
    and e: "evaluateCurrent cfg now current best = Some c"
  from evaluateCurrent_cases[of cfg now current best] show "cand_ok cfg c"
  proof
    assume "evaluateCurrent cfg now current best = best"
    with e b show ?thesis by simp
  next
    assume "\<exists>p slotMap found. current \<noteq> [] \<and> comboCompatible current now \<and>
      findBestTeamPartition current (pc_teamSize cfg) = Some p \<and>
      assignSlots current (pr_assignmentByEntryId p) cfg = Some slotMap \<and>
      c_entries found = current \<and> c_assignmentByEntryId found = pr_assignmentByEntryId p \<and>
      c_slotsByEntryId found = slotMap \<and>
      evaluateCurrent cfg now current best = Some found"
    with e obtain p slotMap where fp: "findBestTeamPartition current (pc_teamSize cfg) = Some p"
      and sl: "assignSlots current (pr_assignmentByEntryId p) cfg = Some slotMap"
      and ce: "c_entries c = current" and ca: "c_assignmentByEntryId c = pr_assignmentByEntryId p"
      and cs: "c_slotsByEntryId c = slotMap" by auto
    from findBestTeamPartition_ok[OF fp] obtain pb where ok: "part_ok current (pc_teamSize cfg) pb"
      and asg: "pr_assignmentByEntryId p = teamAssignment (pb_team0 pb) (pb_team1 pb)" by blast
    from ok obtain P where p0: "pb_team0 pb = map (nth current) (filter P [0..<length current])"
      and p1: "pb_team1 pb = map (nth current) (filter (\<lambda>i. \<not> P i) [0..<length current])"
      and s0: "sum_list (map q_partySize (pb_team0 pb)) = real (pc_teamSize cfg)"
      and s1: "sum_list (map q_partySize (pb_team1 pb)) = real (pc_teamSize cfg)"
      unfolding part_ok_def by blast
    have idx: "\<And>i. i < length current \<Longrightarrow>
        pr_assignmentByEntryId p (q_id (current ! i)) = Some (if P i then 0 else 1)"
      unfolding asg p0 p1 using teamAssignment_index[OF d] by blast
    have f0: "filter (\<lambda>e. pr_assignmentByEntryId p (q_id e) = Some 0) current = pb_team0 pb"
      unfolding p0 using filter_by_assignment(1)[OF d, of "pr_assignmentByEntryId p" P] idx by blast
    have f1: "filter (\<lambda>e. pr_assignmentByEntryId p (q_id e) = Some 1) current = pb_team1 pb"
      unfolding p1 using filter_by_assignment(2)[OF d, of "pr_assignmentByEntryId p" P] idx by blast
    have "mset (pb_team0 pb) + mset (pb_team1 pb) = mset (map (nth current) [0..<length current])"
      unfolding p0 p1 by (simp only: mset_map mset_filter image_mset_union[symmetric] multiset_partition[symmetric])
    then have ms: "mset current = mset (pb_team0 pb) + mset (pb_team1 pb)" by (simp only: map_nth)
    from wf have l0: "length (teamSlots cfg 0) = pc_teamSize cfg" and l1: "length (teamSlots cfg 1) = pc_teamSize cfg"
      by (simp_all add: wf_playlist_def)
    from assignSlots_full[OF sl d f0 f1 ms] s0 s1 l0 l1
    have r1: "mset (concat (map (seats_of slotMap) current)) = mset (teamSlots cfg 0 @ teamSlots cfg 1)"
      and r2: "\<forall>e\<in>set current. slotMap (q_id e) \<noteq> None" by simp_all
    show ?thesis
      unfolding cand_ok_def team_entries_def assigned_seats_def ce ca cs f0 f1
      using s0 s1 ms r1 r2 by simp
  qed
qed

lemma findBestCandidate_cand_ok:
  assumes f: "findBestCandidate entries now cfg = Some c" and d: "distinct (map q_id entries)"
    and wf: "wf_playlist cfg"
  shows "cand_ok cfg c"
proof -
  have "mset (sort_key q_joinedAt entries) = mset entries" by simp
  from distinct_map_mset_cong[OF this[symmetric] d]
  have "distinct (map q_id (sort_key q_joinedAt entries))" .
  then have "distinct (take 16 (map q_id (sort_key q_joinedAt entries)))" by (rule distinct_take)
  then have "distinct (map q_id (take 16 (sort_key q_joinedAt entries)))" by (simp only: take_map)
  from findBestCandidate_invariant[OF evaluate_keeps_cand_ok[OF wf] removable_distinct_ids this f]
  show ?thesis .
qed

text \<open>
  C4. In a combination that \<open>findBestCandidate\<close> returns for a playlist, with the ids
  of the queue entries distinct (they are fresh UUIDs): the party sizes of the entries
  assigned to team 0 add up to exactly \<open>teamSize\<close>, so do those of team 1, every entry
  is on one of the two teams and has seats, no seat is assigned twice, and the assigned
  seats are exactly the seats the playlist configures for the two teams.
\<close>

theorem findBestCandidate_seat_exact:
  "findBestCandidate entries now (getPlaylistConfig playlist) = Some c \<Longrightarrow>
   distinct (map q_id entries) \<Longrightarrow>
     sum_list (map q_partySize (team_entries c 0)) = real (pc_teamSize (getPlaylistConfig playlist)) \<and>
     sum_list (map q_partySize (team_entries c 1)) = real (pc_teamSize (getPlaylistConfig playlist)) \<and>
     mset (c_entries c) = mset (team_entries c 0) + mset (team_entries c 1) \<and>
     list_all (\<lambda>entry. c_slotsByEntryId c (q_id entry) \<noteq> None) (c_entries c) \<and>
     distinct (assigned_seats c) \<and>
     set (assigned_seats c) =
       set (teamSlots (getPlaylistConfig playlist) 0) \<union> set (teamSlots (getPlaylistConfig playlist) 1)"
proof -
  assume f: "findBestCandidate entries now (getPlaylistConfig playlist) = Some c"
    and d: "distinct (map q_id entries)"
  let ?cfg = "getPlaylistConfig playlist"
  from findBestCandidate_cand_ok[OF f d wf_getPlaylistConfig] have ok: "cand_ok ?cfg c" .
  then have m: "mset (assigned_seats c) = mset (teamSlots ?cfg 0 @ teamSlots ?cfg 1)"
    by (simp add: cand_ok_def)
  have "distinct (teamSlots ?cfg 0 @ teamSlots ?cfg 1)"
    using wf_getPlaylistConfig[of playlist] by (simp add: wf_playlist_def)
  with m have dist: "distinct (assigned_seats c)" by (metis mset_eq_imp_distinct_iff)
  from m have "set (assigned_seats c) = set (teamSlots ?cfg 0 @ teamSlots ?cfg 1)" by (rule mset_eq_setD)
  then have st: "set (assigned_seats c) = set (teamSlots ?cfg 0) \<union> set (teamSlots ?cfg 1)" by simp
  from ok dist st show ?thesis by (simp add: cand_ok_def list_all_iff)
qed

theorem findBestCandidate_seat_exact_witness:
  "findBestCandidate [exQ1, exQ2] 300 (getPlaylistConfig ''duel'') \<noteq> None \<and>
   distinct (map q_id [exQ1, exQ2]) \<and>
   (\<exists>c. findBestCandidate [exQ1, exQ2] 300 (getPlaylistConfig ''duel'') = Some c \<and>
        team_entries c 0 = [exQ1] \<and> team_entries c 1 = [exQ2] \<and> assigned_seats c = [0, 2] \<and>
        set (assigned_seats c) = {0, 2})"
proof -
  have g: "getPlaylistConfig ''duel'' = duel" by (simp add: getPlaylistConfig_def)
  from findBestCandidate_example obtain c where
    "findBestCandidate [exQ1, exQ2] 300 duel = Some c \<and> c_entries c = [exQ1, exQ2] \<and>
     map (c_assignmentByEntryId c) [''q_1'', ''q_2''] = [Some 0, Some 1] \<and>
     map (c_slotsByEntryId c) [''q_1'', ''q_2''] = [Some [0], Some [2]]" ..
  note ex = this
  have c: "findBestCandidate [exQ1, exQ2] 300 duel = Some c" and e: "c_entries c = [exQ1, exQ2]"
    and a: "map (c_assignmentByEntryId c) [''q_1'', ''q_2''] = [Some 0, Some 1]"
    and sl: "map (c_slotsByEntryId c) [''q_1'', ''q_2''] = [Some [0], Some [2]]"
    using ex by (simp_all only:)
  have d: "distinct (map q_id [exQ1, exQ2])" by (simp add: exQ1_def exQ2_def)
  have c': "findBestCandidate [exQ1, exQ2] 300 (getPlaylistConfig ''duel'') = Some c" using c g by simp
  have t0: "team_entries c 0 = [exQ1]" and t1: "team_entries c 1 = [exQ2]"
    using e a by (simp_all add: team_entries_def exQ1_def exQ2_def)
  have s: "assigned_seats c = [0, 2]"
    using e sl by (simp add: assigned_seats_def seats_of_def exQ1_def exQ2_def)
  from findBestCandidate_seat_exact[OF c' d]
  have "set (assigned_seats c) = set (teamSlots (getPlaylistConfig ''duel'') 0) \<union> set (teamSlots (getPlaylistConfig ''duel'') 1)"
    by simp
  then have "set (assigned_seats c) = {0, 2}" by (auto simp add: g teamSlots_def duel_def)
  with c' d t0 t1 s show ?thesis by blast
qed

section \<open>What the queue and ready-check code leaves alone\<close>

text \<open>
  \<open>rooms_of\<close> is the part of the state that holds the rooms. The queue manager, the
  match finder and the cancellation of a ready-check never write it.
\<close>

definition rooms_of :: "server \<Rightarrow> room list \<times> (string \<times> nat) list" where
  "rooms_of s = (roomHeap s, activeRooms s)"

lemma rooms_of_updates [simp]:
  "rooms_of (queueByBucket_update f0 s) = rooms_of s"
  "rooms_of (queueEntryBySocket_update f1 s) = rooms_of s"
  "rooms_of (readyHeap_update f2 s) = rooms_of s"
  "rooms_of (pendingReadyById_update f3 s) = rooms_of s"
  "rooms_of (socketState_update f4 s) = rooms_of s"
  "rooms_of (playerSocket_update f5 s) = rooms_of s"
  "rooms_of (roomSequence_update f6 s) = rooms_of s"
  "rooms_of (readySequence_update f7 s) = rooms_of s"
  "rooms_of (sockets_update f8 s) = rooms_of s"
  "rooms_of (playersById_update f9 s) = rooms_of s"
  "rooms_of (playerIdByTokenHash_update f10 s) = rooms_of s"
  "rooms_of (matches_update f11 s) = rooms_of s"
  "rooms_of (emitted_update f12 s) = rooms_of s"
  "rooms_of (drawn_update f13 s) = rooms_of s"
  by (simp_all add: rooms_of_def)

lemma foldl_keeps:
  assumes "\<And>s x. g (f s x) = g s"
  shows "g (foldl f s xs) = g s"
  by (induction xs arbitrary: s) (simp_all add: assms)

lemma rooms_of_foldl:
  "(\<And>s x. rooms_of (f s x) = rooms_of s) \<Longrightarrow> rooms_of (foldl f s xs) = rooms_of s"
  by (rule foldl_keeps)

lemma rooms_of_emit_to [simp]: "rooms_of (emit_to sid ev s) = rooms_of s"
  by (simp add: emit_to_def)

lemma rooms_of_emit_room [simp]: "rooms_of (emit_room rid ev s) = rooms_of s"
  by (simp add: emit_room_def)

lemma rooms_of_update_state [simp]: "rooms_of (update_state sid f s) = rooms_of s"
  by (simp add: update_state_def split: option.splits)

lemma rooms_of_draw [simp]: "rooms_of (snd (draw rnd s)) = rooms_of s"
  by (simp add: draw_def)

lemma rooms_of_removeQueueEntry [simp]: "rooms_of (snd (removeQueueEntry sid s)) = rooms_of s"
  by (simp add: removeQueueEntry_def Let_def split: option.splits prod.splits)

lemma rooms_of_updateQueuePositions [simp]: "rooms_of (updateQueuePositions now key s) = rooms_of s"
proof (cases "map_of (queueByBucket s) key")
  case None
  then show ?thesis by (simp add: updateQueuePositions_def)
next
  case (Some unsorted)
  have f: "rooms_of (foldl (\<lambda>st (index, entry). emit_to (q_socketId entry) (QueueUpdate (index + 1) n) st) s1 xs)
        = rooms_of s1" for s1 n xs
    by (rule foldl_keeps) (simp add: split_beta)
  show ?thesis using Some by (simp add: updateQueuePositions_def Let_def rooms_of_foldl split_beta)
qed

lemma rooms_of_updateAllQueuePositions [simp]: "rooms_of (updateAllQueuePositions now s) = rooms_of s"
  unfolding updateAllQueuePositions_def by (rule foldl_keeps) simp

lemma rooms_of_updateNickname [simp]: "rooms_of (updateNickname now pid n s) = rooms_of s"
  by (simp add: updateNickname_def split: option.splits)

lemma rooms_of_enqueue [simp]:
  "rooms_of (enqueueFromSocketState rnd now sid payload priorityMs s) = rooms_of s"
  by (simp add: enqueueFromSocketState_def Let_def split_beta split: option.splits)

lemma rooms_of_clearPending [simp]: "rooms_of (clearPendingReadyAssociation ready s) = rooms_of s"
  unfolding clearPendingReadyAssociation_def by (rule foldl_keeps) simp

lemma rooms_of_requeueMember [simp]:
  "rooms_of (requeueMember rnd now ready acceptedOnly exclude s member) = rooms_of s"
  by (simp add: requeueMember_def split: option.splits)

lemma rooms_of_cancelReadyCheck [simp]:
  "rooms_of (cancelReadyCheck rnd now a reason acceptedOnly exclude s) = rooms_of s"
proof -
  have e: "rooms_of (foldl (\<lambda>st member. emit_to (rm_socketId member) ev st) s1 xs) = rooms_of s1" for ev s1 xs
    by (rule foldl_keeps) simp
  have r: "rooms_of (foldl (requeueMember rnd now ready acceptedOnly exclude) s1 xs) = rooms_of s1" for ready s1 xs
    by (rule foldl_keeps) simp
  show ?thesis by (simp add: cancelReadyCheck_def Let_def e r)
qed

lemma rooms_of_buildMembers [simp]: "rooms_of (snd (buildMembers rnd c entries s)) = rooms_of s"
proof (induction entries arbitrary: s)
  case Nil
  then show ?case by simp
next
  case (Cons entry rest)
  have d: "rooms_of (snd (buildMembers rnd c rest (snd (draw rnd s)))) = rooms_of s"
    using Cons[of "snd (draw rnd s)"] by simp
  show ?case using Cons d by (simp add: split_beta split: option.splits)
qed

lemma rooms_of_createReadyCheck [simp]: "rooms_of (createReadyCheck rnd now c selected s) = rooms_of s"
proof -
  have f: "rooms_of (foldl (\<lambda>st member. emit_to (rm_socketId member) (ev member)
             (update_state (rm_socketId member) (g member) st)) s1 xs) = rooms_of s1" for ev g s1 xs
    by (rule foldl_keeps) simp
  have b: "rooms_of (snd (buildMembers rnd c selected (snd (draw rnd s1)))) = rooms_of s1" for s1
    using rooms_of_buildMembers[of rnd c selected "snd (draw rnd s1)"] by simp
  show ?thesis
    by (simp add: createReadyCheck_def Let_def split_beta f b)
qed

lemma readyLoop_unfold:
  assumes "findBestCandidate list now playlistConfig = Some c"
    and "filter (\<lambda>entry. q_id entry \<in> set (map q_id (c_entries c))) (rev list) \<noteq> []"
  shows "readyLoop rnd now bucketKey playlistConfig list s =
     readyLoop rnd now bucketKey playlistConfig
       (filter (\<lambda>entry. q_id entry \<notin> set (map q_id (c_entries c))) list)
       (createReadyCheck rnd now c (filter (\<lambda>entry. q_id entry \<in> set (map q_id (c_entries c))) (rev list))
          (if filter (\<lambda>entry. q_id entry \<notin> set (map q_id (c_entries c))) list = []
           then (foldl (\<lambda>st entry. st\<lparr>queueEntryBySocket := (queueEntryBySocket st)(q_socketId entry := None)\<rparr>)
                   s (filter (\<lambda>entry. q_id entry \<in> set (map q_id (c_entries c))) (rev list)))
                \<lparr>queueByBucket := AList.delete bucketKey (queueByBucket
                   (foldl (\<lambda>st entry. st\<lparr>queueEntryBySocket := (queueEntryBySocket st)(q_socketId entry := None)\<rparr>)
                      s (filter (\<lambda>entry. q_id entry \<in> set (map q_id (c_entries c))) (rev list))))\<rparr>
           else (foldl (\<lambda>st entry. st\<lparr>queueEntryBySocket := (queueEntryBySocket st)(q_socketId entry := None)\<rparr>)
                   s (filter (\<lambda>entry. q_id entry \<in> set (map q_id (c_entries c))) (rev list)))
                \<lparr>queueByBucket := AList.update bucketKey
                   (filter (\<lambda>entry. q_id entry \<notin> set (map q_id (c_entries c))) list)
                   (queueByBucket
                   (foldl (\<lambda>st entry. st\<lparr>queueEntryBySocket := (queueEntryBySocket st)(q_socketId entry := None)\<rparr>)
                      s (filter (\<lambda>entry. q_id entry \<in> set (map q_id (c_entries c))) (rev list))))\<rparr>))"
  using assms by (subst readyLoop.simps) (simp only: option.case Let_def if_False)

lemma readyLoop_none:
  "findBestCandidate list now playlistConfig = None \<Longrightarrow>
     readyLoop rnd now bucketKey playlistConfig list s = s"
  by (subst readyLoop.simps) simp

lemma readyLoop_empty:
  "findBestCandidate list now playlistConfig = Some c \<Longrightarrow>
   filter (\<lambda>entry. q_id entry \<in> set (map q_id (c_entries c))) (rev list) = [] \<Longrightarrow>
     readyLoop rnd now bucketKey playlistConfig list s = s"
  by (subst readyLoop.simps) (simp add: Let_def)

text \<open>A property of the state that the splice of the selected entries and the creation
  of a ready-check keep is kept by the whole loop.\<close>

lemma readyLoop_keeps:
  assumes c: "\<And>rnd now c selected s. g (createReadyCheck rnd now c selected s) = g s"
    and q: "\<And>f s. g (queueEntryBySocket_update f s) = g s"
    and b: "\<And>f s. g (queueByBucket_update f s) = g s"
  shows "g (readyLoop rnd now key cfg list s) = g s"
proof (induction rnd now key cfg list s rule: readyLoop.induct)
  case (1 rnd' now' bucketKey playlistConfig list s)
  have fq: "g (foldl (\<lambda>st entry. st\<lparr>queueEntryBySocket := (queueEntryBySocket st)(q_socketId entry := None)\<rparr>) s1 xs)
           = g s1" for s1 xs
    by (rule foldl_keeps) (simp add: q)
  show ?case
  proof (cases "findBestCandidate list now' playlistConfig")
    case None
    then show ?thesis by (simp add: readyLoop_none)
  next
    case (Some c)
    show ?thesis
    proof (cases "filter (\<lambda>entry. q_id entry \<in> set (map q_id (c_entries c))) (rev list) = []")
      case True
      with Some show ?thesis by (simp add: readyLoop_empty)
    next
      case False
      note ih = 1[OF Some refl False refl refl refl]
      show ?thesis
        unfolding readyLoop_unfold[OF Some False] ih
        by (simp only: c q b fq if_distrib[of g] if_cancel)
    qed
  qed
qed

lemma rooms_of_readyLoop [simp]: "rooms_of (readyLoop rnd now key cfg list s) = rooms_of s"
  by (rule readyLoop_keeps) simp_all

lemma rooms_of_tryCreateReadyChecks [simp]: "rooms_of (tryCreateReadyChecks rnd now key s) = rooms_of s"
  by (simp add: tryCreateReadyChecks_def Let_def split: option.splits)

lemma rooms_of_tickQueueMatchmaking [simp]: "rooms_of (tickQueueMatchmaking rnd now s) = rooms_of s"
  unfolding tickQueueMatchmaking_def by (rule foldl_keeps) simp

section \<open>How an event may change the members of a room\<close>

text \<open>
  \<open>members_rel Q s s'\<close>: every room object of \<open>s\<close> is still there in \<open>s'\<close>, with
  the same players as members, and every member is related to its former self by
  \<open>Q\<close>. Room objects are never removed from the heap; an event can only add one.
\<close>

definition members_rel :: "(nat \<Rightarrow> string \<Rightarrow> member \<Rightarrow> member \<Rightarrow> bool) \<Rightarrow> server \<Rightarrow> server \<Rightarrow> bool" where
  "members_rel Q s s' =
     (length (roomHeap s) \<le> length (roomHeap s') \<and>
      (\<forall>a < length (roomHeap s). \<forall>pid.
         case room_member s a pid of
           None \<Rightarrow> room_member s' a pid = None
         | Some m \<Rightarrow> (\<exists>m'. room_member s' a pid = Some m' \<and> Q a pid m m')))"

lemma members_rel_refl: "(\<And>a pid m. Q a pid m m) \<Longrightarrow> members_rel Q s s"
  by (auto simp: members_rel_def split: option.splits)

lemma members_relD:
  "members_rel Q s s' \<Longrightarrow> a < length (roomHeap s) \<Longrightarrow>
     (case room_member s a pid of
        None \<Rightarrow> room_member s' a pid = None
      | Some m \<Rightarrow> (\<exists>m'. room_member s' a pid = Some m' \<and> Q a pid m m'))"
  by (simp add: members_rel_def)

lemma members_relD_None:
  "members_rel Q s s' \<Longrightarrow> a < length (roomHeap s) \<Longrightarrow> room_member s a pid = None \<Longrightarrow>
     room_member s' a pid = None"
  using members_relD[of Q s s' a pid] by simp

lemma members_relD_Some:
  "members_rel Q s s' \<Longrightarrow> a < length (roomHeap s) \<Longrightarrow> room_member s a pid = Some m \<Longrightarrow>
     \<exists>m'. room_member s' a pid = Some m' \<and> Q a pid m m'"
  using members_relD[of Q s s' a pid] by simp

lemma members_rel_length: "members_rel Q s s' \<Longrightarrow> length (roomHeap s) \<le> length (roomHeap s')"
  by (simp add: members_rel_def)

lemma members_relI:
  assumes "length (roomHeap s) \<le> length (roomHeap s')"
    and "\<And>a pid. a < length (roomHeap s) \<Longrightarrow> room_member s a pid = None \<Longrightarrow> room_member s' a pid = None"
    and "\<And>a pid m. a < length (roomHeap s) \<Longrightarrow> room_member s a pid = Some m \<Longrightarrow>
           \<exists>m'. room_member s' a pid = Some m' \<and> Q a pid m m'"
  shows "members_rel Q s s'"
  unfolding members_rel_def using assms by (simp split: option.split)

lemma members_rel_trans:
  assumes "members_rel Q1 s s'" and "members_rel Q2 s' s''"
    and "\<And>a pid m m' m''. Q1 a pid m m' \<Longrightarrow> Q2 a pid m' m'' \<Longrightarrow> Q3 a pid m m''"
  shows "members_rel Q3 s s''"
proof (rule members_relI)
  show "length (roomHeap s) \<le> length (roomHeap s'')"
    using members_rel_length[OF assms(1)] members_rel_length[OF assms(2)] by simp
next
  fix a pid assume a: "a < length (roomHeap s)" and n: "room_member s a pid = None"
  from a have a': "a < length (roomHeap s')" using members_rel_length[OF assms(1)] by simp
  from members_relD_None[OF assms(2) a' members_relD_None[OF assms(1) a n]]
  show "room_member s'' a pid = None" .
next
  fix a pid m assume a: "a < length (roomHeap s)" and n: "room_member s a pid = Some m"
  from a have a': "a < length (roomHeap s')" using members_rel_length[OF assms(1)] by simp
  from members_relD_Some[OF assms(1) a n] obtain m' where m': "room_member s' a pid = Some m'" "Q1 a pid m m'"
    by blast
  from members_relD_Some[OF assms(2) a' m'(1)] obtain m'' where m'': "room_member s'' a pid = Some m''" "Q2 a pid m' m''"
    by blast
  from assms(3)[OF m'(2) m''(2)] m''(1) show "\<exists>m'. room_member s'' a pid = Some m' \<and> Q3 a pid m m'" by blast
qed

lemma members_rel_mono:
  assumes "members_rel Q s s'" and "\<And>a pid m m'. Q a pid m m' \<Longrightarrow> Q' a pid m m'"
  shows "members_rel Q' s s'"
proof (rule members_relI)
  show "length (roomHeap s) \<le> length (roomHeap s')" using members_rel_length[OF assms(1)] .
next
  fix a pid assume "a < length (roomHeap s)" "room_member s a pid = None"
  then show "room_member s' a pid = None" using members_relD_None[OF assms(1)] by blast
next
  fix a pid m assume "a < length (roomHeap s)" "room_member s a pid = Some m"
  from members_relD_Some[OF assms(1) this] assms(2)
  show "\<exists>m'. room_member s' a pid = Some m' \<and> Q' a pid m m'" by blast
qed

lemma members_rel_same:
  "rooms_of s' = rooms_of s \<Longrightarrow> members_rel (\<lambda>a pid m m'. m' = m) s s'"
  by (rule members_relI) (simp_all add: rooms_of_def room_member_def)

lemma members_rel_heap:
  "roomHeap s' = roomHeap s \<Longrightarrow> members_rel (\<lambda>a pid m m'. m' = m) s s'"
  by (rule members_relI) (simp_all add: room_member_def)

lemma members_rel_append:
  "roomHeap s' = roomHeap s @ rs \<Longrightarrow> members_rel (\<lambda>a pid m m'. m' = m) s s'"
  by (rule members_relI) (simp_all add: room_member_def nth_append)

lemma members_rel_foldl:
  assumes r: "\<And>a pid m. Q a pid m m"
    and t: "\<And>a pid m m' m''. Q a pid m m' \<Longrightarrow> Q a pid m' m'' \<Longrightarrow> Q a pid m m''"
    and f: "\<And>s x. members_rel Q s (f s x)"
  shows "members_rel Q s (foldl f s xs)"
proof (induction xs arbitrary: s)
  case Nil
  then show ?case by (simp add: members_rel_refl r)
next
  case (Cons x xs)
  from members_rel_trans[OF f[of s x] Cons[of "f s x"]] t show ?case by simp
qed

lemma room_member_update_member:
  "a < length (roomHeap s) \<Longrightarrow>
     room_member (update_member a k f s) a' pid =
       (if a' = a \<and> pid = k then map_option f (room_member s a pid) else room_member s a' pid)"
  by (cases "a' = a")
     (auto simp: room_member_def update_member_def Let_def map_of_map_entry nth_list_update
           split: option.splits)

lemma length_heap_update_member [simp]: "length (roomHeap (update_member a k f s)) = length (roomHeap s)"
  by (simp add: update_member_def Let_def)

lemma members_rel_update_member:
  assumes "a < length (roomHeap s)" and "\<And>m. Q a k m (f m)" and "\<And>a pid m. Q a pid m m"
  shows "members_rel Q s (update_member a k f s)"
proof (rule members_relI)
  show "length (roomHeap s) \<le> length (roomHeap (update_member a k f s))" by simp
next
  fix a' pid assume "a' < length (roomHeap s)" "room_member s a' pid = None"
  then show "room_member (update_member a k f s) a' pid = None"
    using assms(1) by (auto simp: room_member_update_member)
next
  fix a' pid m assume "a' < length (roomHeap s)" "room_member s a' pid = Some m"
  then show "\<exists>m'. room_member (update_member a k f s) a' pid = Some m' \<and> Q a' pid m m'"
    using assms by (auto simp: room_member_update_member)
qed

lemma roomHeap_keeps: "rooms_of s' = rooms_of s \<Longrightarrow> roomHeap s' = roomHeap s"
  by (simp add: rooms_of_def)

lemma activeRooms_keeps: "rooms_of s' = rooms_of s \<Longrightarrow> activeRooms s' = activeRooms s"
  by (simp add: rooms_of_def)

lemma members_rel_update_member_any:
  assumes "\<And>m. Q a k m (f m)" and "\<And>a pid m. Q a pid m m"
  shows "members_rel Q s (update_member a k f s)"
proof (cases "a < length (roomHeap s)")
  case True
  then show ?thesis using assms by (rule members_rel_update_member)
next
  case False
  then have "roomHeap (update_member a k f s) = roomHeap s"
    by (simp add: update_member_def Let_def list_update_beyond)
  from members_rel_mono[OF members_rel_heap[OF this]] assms(2) show ?thesis by simp
qed

lemma members_rel_cong_heap:
  assumes h: "roomHeap s' = roomHeap s1" and r: "members_rel Q s s1"
  shows "members_rel Q s s'"
  using r unfolding members_rel_def room_member_def h .

lemma members_rel_cong_rooms:
  "rooms_of s' = rooms_of s1 \<Longrightarrow> members_rel Q s s1 \<Longrightarrow> members_rel Q s s'"
  using members_rel_cong_heap[OF roomHeap_keeps] by blast

lemma members_rel_eq_refl: "rooms_of s' = rooms_of s \<Longrightarrow> (\<And>a pid m. Q a pid m m) \<Longrightarrow> members_rel Q s s'"
  using members_rel_mono[OF members_rel_same] by blast

text \<open>A new room is a new object; the rooms that exist are not touched.\<close>

lemma roomHeap_createRoomFromReady:
  "\<exists>room. roomHeap (createRoomFromReady now ready s) = roomHeap s @ [room]"
proof -
  have e: "roomHeap (foldl (\<lambda>st member. emit_to (rm_socketId member) (ev2 member)
             (emit_to (rm_socketId member) (ev1 member) st)) s1 xs) = roomHeap s1" for ev1 ev2 s1 xs
    by (rule roomHeap_keeps, rule rooms_of_foldl) simp
  have u: "rooms_of (foldl (\<lambda>st member. update_state (rm_socketId member) (g member) st) s1 xs) = rooms_of s1"
    for g s1 xs by (rule rooms_of_foldl) simp
  have u': "roomHeap (foldl (\<lambda>st member. update_state (rm_socketId member) (g member) st) s1 xs) = roomHeap s1"
    for g s1 xs using u[of g s1 xs] by (rule roomHeap_keeps)
  show ?thesis by (simp add: createRoomFromReady_def Let_def e u')
qed

lemma members_rel_createRoomFromReady:
  "members_rel (\<lambda>a pid m m'. m' = m) s (createRoomFromReady now ready s)"
  using roomHeap_createRoomFromReady[of now ready s] members_rel_append by blast

lemma members_rel_acceptReady:
  "members_rel (\<lambda>a pid m m'. m' = m) s (acceptReady rnd now sid matchId accept s)"
proof -
  have same: "rooms_of s' = rooms_of s \<Longrightarrow> members_rel (\<lambda>a pid m m'. m' = m) s s'" for s'
    by (rule members_rel_same)
  have e: "rooms_of (foldl (\<lambda>st member. emit_to (rm_socketId member) ev st) s1 xs) = rooms_of s1" for ev s1 xs
    by (rule rooms_of_foldl) simp
  have cr: "members_rel (\<lambda>a pid m m'. m' = m) s (createRoomFromReady now ready s1)"
    if "rooms_of s1 = rooms_of s" for ready s1
  proof -
    from that have h: "roomHeap s1 = roomHeap s" by (rule roomHeap_keeps)
    from members_rel_createRoomFromReady[of s1 now ready] show ?thesis
      unfolding members_rel_def room_member_def h .
  qed
  show ?thesis
    unfolding acceptReady_def Let_def
    by (auto split: option.splits intro!: same cr simp: e)
qed

text \<open>
  Relations between a member before and after a step: the connection fields and the flag
  are unchanged (\<open>conn_same\<close>); the flag is unchanged (\<open>flag_same\<close>); what one
  evaluation of the end conditions at time \<open>now\<close> may do (\<open>tick_step\<close>); what
  \<open>leaveMatch\<close> on connection \<open>sid\<close> may do (\<open>leave_step\<close>).
\<close>

definition conn_same :: "nat \<Rightarrow> string \<Rightarrow> member \<Rightarrow> member \<Rightarrow> bool" where
  "conn_same a pid m m' =
     (m_socketId m' = m_socketId m \<and> m_disconnectedAt m' = m_disconnectedAt m \<and>
      m_abandoned m' = m_abandoned m)"

definition flag_same :: "nat \<Rightarrow> string \<Rightarrow> member \<Rightarrow> member \<Rightarrow> bool" where
  "flag_same a pid m m' = (m_abandoned m' = m_abandoned m)"

definition tick_step :: "int \<Rightarrow> nat \<Rightarrow> string \<Rightarrow> member \<Rightarrow> member \<Rightarrow> bool" where
  "tick_step now a pid m m' =
     (m_socketId m' = m_socketId m \<and> m_disconnectedAt m' = m_disconnectedAt m \<and>
      (m_abandoned m \<longrightarrow> m_abandoned m') \<and>
      (m_abandoned m' \<longrightarrow> m_abandoned m \<or> grace_expired now m))"

text \<open>The connection \<open>sid\<close> has a state whose player is \<open>pid\<close> and whose room is the active
  room object \<open>a\<close>: the member \<open>leaveMatch\<close> looks up.\<close>

definition leaving :: "server \<Rightarrow> string \<Rightarrow> nat \<Rightarrow> string \<Rightarrow> bool" where
  "leaving s sid a pid =
     (case socketState s sid of
        None \<Rightarrow> False
      | Some st \<Rightarrow>
          ss_playerId st = pid \<and>
          (case ss_roomId st of None \<Rightarrow> False | Some rid \<Rightarrow> map_of (activeRooms s) rid = Some a))"

definition leave_step :: "server \<Rightarrow> string \<Rightarrow> nat \<Rightarrow> string \<Rightarrow> member \<Rightarrow> member \<Rightarrow> bool" where
  "leave_step s sid a pid m m' =
     (m_abandoned m' = m_abandoned m \<or> (m_abandoned m' \<and> leaving s sid a pid))"

lemma markMemberDisconnected_rooms:
  "rooms_of (markMemberDisconnected now sid reason s) = rooms_of s \<or>
   (\<exists>a k. rooms_of (markMemberDisconnected now sid reason s) =
      rooms_of (update_member a k
          (\<lambda>m. m\<lparr>m_socketId := None,
                  m_disconnectedAt := (if truthy_time (m_disconnectedAt m) then m_disconnectedAt m else Some now)\<rparr>) s))"
  unfolding markMemberDisconnected_def Let_def
  by (simp split: option.splits) blast

lemma members_rel_markMemberDisconnected:
  "members_rel flag_same s (markMemberDisconnected now sid reason s)"
  using markMemberDisconnected_rooms[of now sid reason s]
proof (elim disjE exE)
  assume "rooms_of (markMemberDisconnected now sid reason s) = rooms_of s"
  then show ?thesis by (rule members_rel_eq_refl) (simp add: flag_same_def)
next
  fix a k
  assume "rooms_of (markMemberDisconnected now sid reason s) =
      rooms_of (update_member a k
          (\<lambda>m. m\<lparr>m_socketId := None,
                  m_disconnectedAt := (if truthy_time (m_disconnectedAt m) then m_disconnectedAt m else Some now)\<rparr>) s)"
  then show ?thesis
    by (rule members_rel_cong_rooms)
       (rule members_rel_update_member_any, simp_all add: flag_same_def)
qed

lemma members_rel_via:
  assumes "rooms_of s' = rooms_of (update_member a k f s1)" and "rooms_of s1 = rooms_of s"
    and "\<And>m. Q a k m (f m)" and "\<And>a pid m. Q a pid m m"
  shows "members_rel Q s s'"
proof -
  have "members_rel Q s1 (update_member a k f s1)"
    by (rule members_rel_update_member_any) (rule assms(3), rule assms(4))
  from members_rel_cong_rooms[OF assms(1) this] have "members_rel Q s1 s'" .
  then show ?thesis unfolding members_rel_def room_member_def roomHeap_keeps[OF assms(2)] .
qed

lemma members_rel_flag_same_refl: "members_rel flag_same s s"
  by (rule members_rel_refl) (simp add: flag_same_def)

lemma rooms_of_kick:
  "rooms_of (case x of Some old \<Rightarrow> if old \<noteq> [] \<and> old \<noteq> sid then emit_to old ForcedDisconnect s else s
                   | None \<Rightarrow> s) = rooms_of s"
  by (simp split: option.splits)

lemma members_rel_tryReconnectToRoom:
  "members_rel flag_same s (snd (tryReconnectToRoom now sid roomId token s))"
  unfolding tryReconnectToRoom_def Let_def
  apply (simp add: members_rel_flag_same_refl split: option.splits)
  apply (intro conjI impI allI)
  apply (rule members_rel_via, simp, simp, simp add: flag_same_def, simp add: flag_same_def)+
  done

lemma leaveMatch_rooms:
  "rooms_of (leaveMatch now sid s) = rooms_of s \<or>
   (\<exists>a st rid. socketState s sid = Some st \<and> ss_roomId st = Some rid \<and> map_of (activeRooms s) rid = Some a \<and>
      rooms_of (leaveMatch now sid s) =
      rooms_of (update_member a (ss_playerId st)
          (\<lambda>m. m\<lparr>m_socketId := None, m_disconnectedAt := Some now, m_abandoned := True\<rparr>) s))"
  unfolding leaveMatch_def Let_def
  by (simp split: option.splits)

lemma members_rel_leaveMatch:
  "members_rel (leave_step s sid) s (leaveMatch now sid s)"
  using leaveMatch_rooms[of now sid s]
proof (elim disjE exE conjE)
  assume "rooms_of (leaveMatch now sid s) = rooms_of s"
  then show ?thesis by (rule members_rel_eq_refl) (simp add: leave_step_def)
next
  fix a st rid
  assume st: "socketState s sid = Some st" "ss_roomId st = Some rid" "map_of (activeRooms s) rid = Some a"
    and r: "rooms_of (leaveMatch now sid s) =
      rooms_of (update_member a (ss_playerId st)
          (\<lambda>m. m\<lparr>m_socketId := None, m_disconnectedAt := Some now, m_abandoned := True\<rparr>) s)"
  have "members_rel (leave_step s sid) s (update_member a (ss_playerId st)
          (\<lambda>m. m\<lparr>m_socketId := None, m_disconnectedAt := Some now, m_abandoned := True\<rparr>) s)"
    by (rule members_rel_update_member_any) (use st in \<open>auto simp: leave_step_def leaving_def\<close>)
  from members_rel_cong_rooms[OF r this] show ?thesis .
qed


lemma rooms_of_createSessionToken [simp]: "rooms_of (snd (createSessionToken rnd s)) = rooms_of s"
  by (simp add: createSessionToken_def draw_def Let_def split_beta)

lemma rooms_of_createPlayer [simp]: "rooms_of (snd (createPlayer rnd now n h p s)) = rooms_of s"
  by (simp add: createPlayer_def draw_def Let_def split_beta split: option.splits)

lemma rooms_of_applyPlayerResult [simp]: "rooms_of (applyPlayerResult e now s entry) = rooms_of s"
  by (simp add: applyPlayerResult_def Let_def split_beta split: option.splits)

lemma rooms_of_applyMatchResult [simp]: "rooms_of (applyMatchResult e now mr s) = rooms_of s"
  by (simp add: applyMatchResult_def Let_def rooms_of_foldl)

lemma rooms_of_touchPlayer [simp]: "rooms_of (snd (touchPlayer now key n p s)) = rooms_of s"
  by (simp add: touchPlayer_def Let_def)

lemma rooms_of_getOrCreatePlayer [simp]:
  "rooms_of (snd (getOrCreatePlayer e now playerId playerToken nickname s)) = rooms_of s"
  by (simp add: getOrCreatePlayer_def Let_def split_beta split: option.splits)

lemma rooms_of_finishRoomForSockets [simp]: "rooms_of (finishRoomForSockets a payload s) = rooms_of s"
  by (simp add: finishRoomForSockets_def rooms_of_foldl split_beta split: option.splits)

lemma map_of_map_members:
  "map_of (map (\<lambda>(k, m). (k, g k m)) xs) k = map_option (g k) (map_of xs k)"
  by (induction xs) auto

lemma members_rel_room_map:
  assumes q: "\<And>k m. Q a k m (g k m)" and r: "\<And>a pid m. Q a pid m m"
    and h: "roomHeap s' = (roomHeap s)[a := room']"
    and m: "r_members room' = map (\<lambda>(k, m). (k, g k m)) (r_members (roomHeap s ! a))"
  shows "members_rel Q s s'"
proof (rule members_relI)
  show "length (roomHeap s) \<le> length (roomHeap s')" by (simp add: h)
next
  fix a' pid assume "a' < length (roomHeap s)" "room_member s a' pid = None"
  then show "room_member s' a' pid = None"
    by (cases "a' = a") (simp_all add: room_member_def h m map_of_map_members)
next
  fix a' pid x assume "a' < length (roomHeap s)" "room_member s a' pid = Some x"
  then show "\<exists>m'. room_member s' a' pid = Some m' \<and> Q a' pid x m'"
    by (cases "a' = a") (simp_all add: room_member_def h m map_of_map_members q r)
qed

lemma members_rel_cong_left:
  "roomHeap s1 = roomHeap s \<Longrightarrow> members_rel Q s1 s' \<Longrightarrow> members_rel Q s s'"
  unfolding members_rel_def room_member_def by simp

lemma rooms_of_rating_fold:
  "rooms_of (foldl (\<lambda>st member.
                           (case byPlayerId (m_playerId member) of
                              None \<Rightarrow> st
                            | Some change \<Rightarrow>
                                (case playerSocket st (m_playerId member) of
                                   None \<Rightarrow> st
                                 | Some socketId \<Rightarrow>
                                     if socketId = [] then st
                                     else update_state socketId
                                            (\<lambda>state. state\<lparr>ss_rating := rc_ratingAfter change\<rparr>) st)))
                    s xs) = rooms_of s"
  by (rule rooms_of_foldl) (simp split: option.splits)

lemma endRoomStart_ended:
  "r_ended (roomHeap s ! a) \<Longrightarrow> endRoomStart e now a reason w s = (None, s)"
  by (simp add: endRoomStart_def Let_def)

lemma rooms_of_endRoomStart:
  "\<not> r_ended (roomHeap s ! a) \<Longrightarrow>
   \<exists>g. rooms_of (snd (endRoomStart e now a reason w s)) =
         ((roomHeap s)[a := (roomHeap s ! a)\<lparr>r_ended := True,
               r_members := map (\<lambda>(k, m). (k, g k m)) (r_members (roomHeap s ! a))\<rparr>],
          AList.delete (r_id (roomHeap s ! a)) (activeRooms s)) \<and>
        (\<forall>k m. g k m = m \<or> (\<exists>r. g k m = m\<lparr>m_ratingAfter := r\<rparr>))"
proof -
  assume n: "\<not> r_ended (roomHeap s ! a)"
  define byId where "byId = map_of (rev (map (\<lambda>c. (rc_playerId c, c))
           (buildRatingChanges (map snd (r_members (roomHeap s ! a)))
              (case w of None \<Rightarrow> if fst (r_score (roomHeap s ! a)) = snd (r_score (roomHeap s ! a)) then None
                                  else if fst (r_score (roomHeap s ! a)) > snd (r_score (roomHeap s ! a)) then Some 0 else Some 1
                 | Some w \<Rightarrow> Some w))))"
  define g where "g = (\<lambda>(k::string) (member::member). case byId (m_playerId member) of
                                     None \<Rightarrow> member
                                   | Some change \<Rightarrow> member\<lparr>m_ratingAfter := rc_ratingAfter change\<rparr>)"
  have "rooms_of (snd (endRoomStart e now a reason w s)) =
          rooms_of (s\<lparr>roomHeap := (roomHeap s)[a := (roomHeap s ! a)\<lparr>r_ended := True,
               r_members := map (\<lambda>(k, m). (k, g k m)) (r_members (roomHeap s ! a))\<rparr>],
            activeRooms := AList.delete (r_id (roomHeap s ! a)) (activeRooms s)\<rparr>)"
    using n unfolding g_def byId_def
    by (simp add: endRoomStart_def Let_def rooms_of_rating_fold)
  then have 1: "rooms_of (snd (endRoomStart e now a reason w s)) =
         ((roomHeap s)[a := (roomHeap s ! a)\<lparr>r_ended := True,
               r_members := map (\<lambda>(k, m). (k, g k m)) (r_members (roomHeap s ! a))\<rparr>],
          AList.delete (r_id (roomHeap s ! a)) (activeRooms s))"
    by (simp add: rooms_of_def)
  have 2: "\<forall>k m. g k m = m \<or> (\<exists>r. g k m = m\<lparr>m_ratingAfter := r\<rparr>)"
    by (auto simp: g_def split: option.splits)
  from 1 2 show ?thesis by (intro exI[of _ g] conjI)
qed

lemma conn_same_refl: "conn_same a pid m m"
  by (simp add: conn_same_def)

lemma conn_same_trans: "conn_same a pid m m' \<Longrightarrow> conn_same a pid m' m'' \<Longrightarrow> conn_same a pid m m''"
  by (simp add: conn_same_def)

lemma members_rel_endRoomStart:
  "members_rel conn_same s (snd (endRoomStart e now a reason w s))"
proof (cases "r_ended (roomHeap s ! a)")
  case True
  then show ?thesis by (simp add: endRoomStart_ended members_rel_refl conn_same_refl)
next
  case False
  from rooms_of_endRoomStart[OF False, of e now reason w] obtain g where
    g: "rooms_of (snd (endRoomStart e now a reason w s)) =
         ((roomHeap s)[a := (roomHeap s ! a)\<lparr>r_ended := True,
               r_members := map (\<lambda>(k, m). (k, g k m)) (r_members (roomHeap s ! a))\<rparr>],
          AList.delete (r_id (roomHeap s ! a)) (activeRooms s))"
    and c: "\<forall>k m. g k m = m \<or> (\<exists>r. g k m = m\<lparr>m_ratingAfter := r\<rparr>)" by blast
  have q: "conn_same a k m (g k m)" for k m
    using c[rule_format, of k m] by (auto simp: conn_same_def)
  from g have h: "roomHeap (snd (endRoomStart e now a reason w s)) =
      (roomHeap s)[a := (roomHeap s ! a)\<lparr>r_ended := True,
               r_members := map (\<lambda>(k, m). (k, g k m)) (r_members (roomHeap s ! a))\<rparr>]"
    by (simp add: rooms_of_def)
  show ?thesis
    by (rule members_rel_room_map[where Q = conn_same and g = g and a = a, OF _ _ h])
       (simp_all add: q conn_same_refl)
qed

lemma members_rel_endRoom:
  "members_rel conn_same s (endRoom e now a reason w s)"
proof -
  have "rooms_of (endRoom e now a reason w s) = rooms_of (snd (endRoomStart e now a reason w s))"
    by (simp add: endRoom_def split: prod.splits option.splits)
  from members_rel_cong_rooms[OF this members_rel_endRoomStart] show ?thesis .
qed

lemma members_rel_shutdown:
  "members_rel conn_same s (shutdown e now s)"
proof -
  have "members_rel conn_same (s\<lparr>pendingReadyById := []\<rparr>) (shutdown e now s)"
    unfolding shutdown_def
    by (rule members_rel_foldl) (rule conn_same_refl, erule (1) conn_same_trans, rule members_rel_endRoom)
  then show ?thesis by (rule members_rel_cong_left[rotated]) simp
qed


lemma tick_step_refl: "tick_step now a pid m m"
  by (simp add: tick_step_def)

lemma grace_expired_cong:
  "m_socketId m' = m_socketId m \<Longrightarrow> m_disconnectedAt m' = m_disconnectedAt m \<Longrightarrow>
     grace_expired now m' = grace_expired now m"
  by (simp add: grace_expired_def)

lemma tick_step_trans:
  "tick_step now a pid m m' \<Longrightarrow> tick_step now a pid m' m'' \<Longrightarrow> tick_step now a pid m m''"
  unfolding tick_step_def using grace_expired_cong[of m' m now] by auto

lemma tick_step_markAbandoned: "tick_step now a pid m (markAbandoned now m)"
  by (auto simp: tick_step_def markAbandoned_flag) (auto simp: markAbandoned_def split: option.splits)

lemma conn_same_tick_step: "conn_same a pid m m' \<Longrightarrow> tick_step now a pid m m'"
  by (simp add: conn_same_def tick_step_def)

lemma shouldEndRoom_members:
  "r_members (snd (shouldEndRoom L room now)) = r_members room \<or>
   r_members (snd (shouldEndRoom L room now)) = map (\<lambda>(k, m). (k, markAbandoned now m)) (r_members room)"
  by (simp add: shouldEndRoom_def Let_def)

lemma members_rel_tick_update:
  "members_rel (tick_step now) s
     (s\<lparr>roomHeap := (roomHeap s)[a := snd (shouldEndRoom L ((roomHeap s ! a)\<lparr>r_score := sc\<rparr>) now)]\<rparr>)"
proof -
  from shouldEndRoom_members[of L "(roomHeap s ! a)\<lparr>r_score := sc\<rparr>" now]
  show ?thesis
  proof
    assume "r_members (snd (shouldEndRoom L ((roomHeap s ! a)\<lparr>r_score := sc\<rparr>) now)) =
              r_members ((roomHeap s ! a)\<lparr>r_score := sc\<rparr>)"
    then show ?thesis
      by (intro members_rel_room_map[where g = "\<lambda>k m. m" and a = a
              and room' = "snd (shouldEndRoom L ((roomHeap s ! a)\<lparr>r_score := sc\<rparr>) now)"])
         (simp_all add: tick_step_refl)
  next
    assume "r_members (snd (shouldEndRoom L ((roomHeap s ! a)\<lparr>r_score := sc\<rparr>) now)) =
              map (\<lambda>(k, m). (k, markAbandoned now m)) (r_members ((roomHeap s ! a)\<lparr>r_score := sc\<rparr>))"
    then show ?thesis
      by (intro members_rel_room_map[where g = "\<lambda>k m. markAbandoned now m" and a = a
              and room' = "snd (shouldEndRoom L ((roomHeap s ! a)\<lparr>r_score := sc\<rparr>) now)"])
         (simp_all add: tick_step_refl tick_step_markAbandoned)
  qed
qed

lemma members_rel_tickRoom:
  "members_rel (tick_step now) (fst acc) (fst (tickRoom e now engine acc a))"
proof (cases "r_ended (roomHeap (fst acc) ! a)")
  case True
  then show ?thesis by (simp add: tickRoom_def Let_def members_rel_refl tick_step_refl)
next
  case False
  let ?s = "fst acc"
  let ?s1 = "?s\<lparr>roomHeap := (roomHeap ?s)[a := snd (shouldEndRoom (env_SCORE_LIMIT e)
                ((roomHeap ?s ! a)\<lparr>r_score := engine (r_id (roomHeap ?s ! a))\<rparr>) now)]\<rparr>"
  have 1: "members_rel (tick_step now) ?s ?s1" by (rule members_rel_tick_update)
  have "fst (tickRoom e now engine acc a) = ?s1 \<or>
        (\<exists>reason winner. fst (tickRoom e now engine acc a) = snd (endRoomStart e now a reason winner ?s1))"
    using False by (auto simp: tickRoom_def Let_def split_beta split: option.splits prod.splits)
  then show ?thesis
  proof (elim disjE exE)
    assume "fst (tickRoom e now engine acc a) = ?s1"
    with 1 show ?thesis by simp
  next
    fix reason winner
    assume e: "fst (tickRoom e now engine acc a) = snd (endRoomStart e now a reason winner ?s1)"
    have "members_rel (tick_step now) ?s1 (snd (endRoomStart e now a reason winner ?s1))"
      by (rule members_rel_mono[OF members_rel_endRoomStart]) (rule conn_same_tick_step)
    from members_rel_trans[OF 1 this] tick_step_trans show ?thesis unfolding e by blast
  qed
qed

lemma members_rel_tickRoom_fold:
  "members_rel (tick_step now) (fst acc) (fst (foldl (tickRoom e now engine) acc xs))"
proof (induction xs arbitrary: acc)
  case Nil
  then show ?case by (simp add: members_rel_refl tick_step_refl)
next
  case (Cons x xs)
  from members_rel_trans[OF members_rel_tickRoom[of now acc e engine x] Cons[of "tickRoom e now engine acc x"]]
    tick_step_trans
  show ?case by simp
qed

lemma members_rel_tickRooms:
  "members_rel (tick_step now) s (tickRooms e now engine s)"
proof -
  have "rooms_of (tickRooms e now engine s) =
          rooms_of (fst (foldl (tickRoom e now engine) (s, []) (map snd (activeRooms s))))"
    by (simp add: tickRooms_def Let_def split_beta rooms_of_foldl)
  from members_rel_cong_rooms[OF this members_rel_tickRoom_fold[of now "(s, [])" e engine]]
  show ?thesis by simp
qed


lemma members_rel_rooms_eq:
  "rooms_of s' = rooms_of s'' \<Longrightarrow> members_rel Q s s' = members_rel Q s s''"
proof -
  assume "rooms_of s' = rooms_of s''"
  then have h: "roomHeap s' = roomHeap s''" by (rule roomHeap_keeps)
  show ?thesis unfolding members_rel_def room_member_def h ..
qed

lemma members_rel_from:
  "rooms_of s1 = rooms_of s \<Longrightarrow> members_rel Q s1 s' \<Longrightarrow> members_rel Q s s'"
  by (rule members_rel_cong_left[OF roomHeap_keeps])

lemma flag_same_refl: "flag_same a pid m m"
  by (simp add: flag_same_def)

lemma members_rel_through [simp]:
  "members_rel Q s (emit_to x ev s') = members_rel Q s s'"
  "members_rel Q s (updateAllQueuePositions now s') = members_rel Q s s'"
  "members_rel Q s (socketState_update f1 s') = members_rel Q s s'"
  "members_rel Q s (playerSocket_update f2 s') = members_rel Q s s'"
  "members_rel Q s (sockets_update f3 s') = members_rel Q s s'"
  by (rule members_rel_rooms_eq, simp)+

lemma members_rel_tryReconnectToRoom_from:
  "rooms_of s4 = rooms_of s \<Longrightarrow> members_rel flag_same s (snd (tryReconnectToRoom now sid r t s4))"
  by (rule members_rel_from) (assumption, rule members_rel_tryReconnectToRoom)

lemma members_rel_markMemberDisconnected_from:
  "rooms_of s2 = rooms_of s \<Longrightarrow> members_rel flag_same s (markMemberDisconnected now sid reason s2)"
  by (rule members_rel_from) (assumption, rule members_rel_markMemberDisconnected)

lemma members_rel_connection:
  "members_rel flag_same s (connection e now sid au s)"
  unfolding connection_def Let_def split_beta
  apply (simp only: if_distrib[where f = "members_rel flag_same s"] members_rel_through if_cancel)
  apply (rule members_rel_tryReconnectToRoom_from)
  apply (simp split: option.splits)
  done

lemma members_rel_disconnect:
  "members_rel flag_same s (disconnect e now sid s)"
  unfolding disconnect_def Let_def
  by (auto simp: members_rel_refl flag_same_refl split: option.splits
           intro!: members_rel_markMemberDisconnected_from)

lemma rooms_of_joinQueue [simp]: "rooms_of (joinQueue e now sid payload s) = rooms_of s"
  by (simp add: joinQueue_def Let_def split: option.splits)

lemma rooms_of_leaveQueue [simp]: "rooms_of (leaveQueue now sid s) = rooms_of s"
proof -
  have "rooms_of (snd (removeQueueEntry sid s)) = rooms_of s" by simp
  then show ?thesis
    by (cases "removeQueueEntry sid s") (auto simp: leaveQueue_def split: option.splits)
qed

lemma rooms_of_pingPong [simp]: "rooms_of (pingPong now sid sentAt s) = rooms_of s"
  by (simp add: pingPong_def split: jsnum.splits)

lemma rooms_of_readyTimeout [simp]: "rooms_of (readyTimeout e now a s) = rooms_of s"
  by (simp add: readyTimeout_def split: option.splits)


text \<open>
  What one event may do to a member of a room: a set flag stays set, and a flag is newly
  set only by the room tick on a member past the grace window, or by \<open>leaveMatch\<close> on
  the member's own connection.
\<close>

definition event_step :: "int \<Rightarrow> server \<Rightarrow> event \<Rightarrow> nat \<Rightarrow> string \<Rightarrow> member \<Rightarrow> member \<Rightarrow> bool" where
  "event_step now s ev a pid m m' =
     ((m_abandoned m \<longrightarrow> m_abandoned m') \<and>
      (m_abandoned m' \<and> \<not> m_abandoned m \<longrightarrow>
         (case ev of
            RoomTick engine \<Rightarrow> grace_expired now m
          | LeaveMatch sid \<Rightarrow> leaving s sid a pid
          | _ \<Rightarrow> False)))"

lemma event_step_refl: "event_step now s ev a pid m m"
  by (simp add: event_step_def)

lemma event_step_flag_same: "flag_same a pid m m' \<Longrightarrow> event_step now s ev a pid m m'"
  by (simp add: event_step_def flag_same_def)

lemma event_step_same: "m' = m \<Longrightarrow> event_step now s ev a pid m m'"
  by (simp add: event_step_def)

lemma event_step_conn_same: "conn_same a pid m m' \<Longrightarrow> event_step now s ev a pid m m'"
  by (simp add: event_step_def conn_same_def)

lemma members_rel_handle: "members_rel (event_step now s ev) s (handle e now ev s)"
proof (cases ev)
  case (Connection sid au)
  show ?thesis unfolding Connection handle.simps
    by (rule members_rel_mono[OF members_rel_connection]) (rule event_step_flag_same)
next
  case (JoinQueue sid payload)
  show ?thesis unfolding JoinQueue handle.simps
    by (rule members_rel_eq_refl) (simp, rule event_step_refl)
next
  case (LeaveQueue sid)
  show ?thesis unfolding LeaveQueue handle.simps
    by (rule members_rel_eq_refl) (simp, rule event_step_refl)
next
  case (ReadyCheckResponse sid matchId accept)
  show ?thesis unfolding ReadyCheckResponse handle.simps
    by (rule members_rel_mono[OF members_rel_acceptReady]) (rule event_step_same)
next
  case (LeaveMatch sid)
  show ?thesis unfolding LeaveMatch handle.simps
    by (rule members_rel_mono[OF members_rel_leaveMatch]) (auto simp: event_step_def leave_step_def)
next
  case (PlayerInput sid)
  show ?thesis unfolding PlayerInput handle.simps
    by (rule members_rel_refl) (rule event_step_refl)
next
  case (PingPong sid sentAt)
  show ?thesis unfolding PingPong handle.simps
    by (rule members_rel_eq_refl) (simp, rule event_step_refl)
next
  case (Disconnect sid)
  show ?thesis unfolding Disconnect handle.simps
    by (rule members_rel_mono[OF members_rel_disconnect]) (rule event_step_flag_same)
next
  case QueueScan
  show ?thesis unfolding QueueScan handle.simps
    by (rule members_rel_eq_refl) (simp, rule event_step_refl)
next
  case (RoomTick engine)
  show ?thesis unfolding RoomTick handle.simps
    by (rule members_rel_mono[OF members_rel_tickRooms]) (auto simp: event_step_def tick_step_def)
next
  case (ReadyTimer a)
  show ?thesis unfolding ReadyTimer handle.simps
    by (rule members_rel_eq_refl) (simp, rule event_step_refl)
next
  case Shutdown
  show ?thesis unfolding Shutdown handle.simps
    by (rule members_rel_mono[OF members_rel_shutdown]) (rule event_step_conn_same)
qed

text \<open>Evaluation of the example: \<open>pA\<close> leaves, then rejoins on a new connection.\<close>

lemmas ex_defs = exServer_def exStateA_def exStateB_def exA_def exB_def exEnv_def exAuth_def

lemma exLeft:
  "room_member (handle exEnv 6000 (LeaveMatch ''sA'') exServer) 0 ''pA'' =
     Some (exA\<lparr>m_socketId := None, m_disconnectedAt := Some 6000, m_abandoned := True\<rparr>)"
  by (simp add: leaveMatch_def ex_defs room_member_def update_member_def emit_room_def update_state_def
        clearRoomOfState_def Let_def)

lemma exBack:
  "room_member (handle exEnv 7000 (Connection ''sA2'' exAuth) (handle exEnv 6000 (LeaveMatch ''sA'') exServer)) 0 ''pA'' =
     Some (exA\<lparr>m_socketId := Some ''sA2'', m_disconnectedAt := None, m_reconnectCount := 1, m_abandoned := True\<rparr>)"
  by (simp add: leaveMatch_def ex_defs room_member_def update_member_def emit_room_def update_state_def
        clearRoomOfState_def Let_def connection_def getOrCreatePlayer_def sanitizeNickname_def js_trim_def
        is_space_def createSessionToken_def createPlayer_def draw_def emit_to_def tryReconnectToRoom_def
        RECONNECT_GRACE_MS_def)


section \<open>The abandoned flag is never cleared\<close>

lemma room_member_rooms: "rooms_of s' = rooms_of s \<Longrightarrow> room_member s' a pid = room_member s a pid"
  using roomHeap_keeps[of s' s] by (simp add: room_member_def)

lemma room_member_through [simp]:
  "room_member (emit_to x ev s) = room_member s"
  "room_member (emit_room rid ev s) = room_member s"
  "room_member (update_state sid f s) = room_member s"
  by (intro ext room_member_rooms, simp)+

lemma roomHeap_emit_to: "roomHeap (emit_to x ev s) = roomHeap s"
  by (simp add: emit_to_def)

lemma tryReconnectToRoom_member:
  assumes st: "socketState s sid = Some st" and a: "map_of (activeRooms s) rid = Some a"
    and l: "a < length (roomHeap s)" and m: "room_member s a (ss_playerId st) = Some m"
    and ok: "fst (tryReconnectToRoom now sid (Some rid) tok s)"
  shows "room_member (snd (tryReconnectToRoom now sid (Some rid) tok s)) a (ss_playerId st) =
           Some (m\<lparr>m_socketId := Some sid, m_disconnectedAt := None,
                   m_reconnectCount := m_reconnectCount m + 1\<rparr>)"
proof (cases tok)
  case None
  with ok st show ?thesis by (simp add: tryReconnectToRoom_def)
next
  case (Some t)
  define s1 where "s1 = (case m_socketId m of
                           Some old \<Rightarrow> if old \<noteq> [] \<and> old \<noteq> sid then emit_to old ForcedDisconnect s else s
                         | None \<Rightarrow> s)"
  have h: "roomHeap s1 = roomHeap s" by (simp add: s1_def roomHeap_emit_to split: option.splits)
  have l1: "a < length (roomHeap s1)" using l h by simp
  have m1: "room_member s1 a (ss_playerId st) = Some m" using m h by (simp add: room_member_def)
  have "snd (tryReconnectToRoom now sid (Some rid) tok s) = s \<and> \<not> fst (tryReconnectToRoom now sid (Some rid) tok s) \<or>
        room_member (snd (tryReconnectToRoom now sid (Some rid) tok s)) a (ss_playerId st) =
          room_member (update_member a (ss_playerId st)
             (\<lambda>m. m\<lparr>m_socketId := Some sid, m_disconnectedAt := None,
                     m_reconnectCount := m_reconnectCount m + 1\<rparr>) s1) a (ss_playerId st)"
    unfolding tryReconnectToRoom_def Let_def s1_def
    by (simp add: st a m Some)
  with ok show ?thesis by (auto simp: room_member_update_member[OF l1] m1)
qed

lemma teamActive_skips_abandoned:
  "m_abandoned m \<Longrightarrow> teamActive (xs @ (k, m) # ys) t = teamActive (xs @ ys) t"
  by (simp add: teamActive_def)

lemma memberChange_abandoned:
  "m_abandoned m \<Longrightarrow>
     rc_abandoned (memberChange d w m) \<and>
     rc_delta (memberChange d w m) = js_sub (if m_team m = 0 then d else js_neg d) (Num ABANDON_PENALTY)"
  by (simp add: memberChange_def Let_def)

text \<open>
  C10. Once the abandoned flag of a member of a room is set, no event clears it: after
  any event the member is still in the room and still flagged. In particular a
  reconnection that succeeds re-attaches the member (the new socket, no disconnect
  timestamp, the reconnect counter plus one) and leaves the flag as it was; a flagged
  member does not count when \<open>teamActive\<close> looks for an active member of a team, and
  its rating change carries the flag and the abandon penalty.
\<close>

theorem abandoned_flag_never_cleared:
  assumes "a < length (roomHeap s)" and "room_member s a pid = Some m" and "m_abandoned m"
  shows "(\<exists>m'. room_member (handle e now ev s) a pid = Some m' \<and> m_abandoned m') \<and>
         (socketState s sid = Some st \<and> ss_playerId st = pid \<and> map_of (activeRooms s) rid = Some a \<and>
          fst (tryReconnectToRoom now sid (Some rid) tok s) \<longrightarrow>
            room_member (snd (tryReconnectToRoom now sid (Some rid) tok s)) a pid =
              Some (m\<lparr>m_socketId := Some sid, m_disconnectedAt := None,
                      m_reconnectCount := m_reconnectCount m + 1\<rparr>)) \<and>
         teamActive (xs @ (pid, m) # ys) t = teamActive (xs @ ys) t \<and>
         rc_abandoned (memberChange d w m) \<and>
         rc_delta (memberChange d w m) = js_sub (if m_team m = 0 then d else js_neg d) (Num ABANDON_PENALTY)"
proof (intro conjI impI)
  from members_relD_Some[OF members_rel_handle[of now s ev e] assms(1,2)] assms(3)
  show "\<exists>m'. room_member (handle e now ev s) a pid = Some m' \<and> m_abandoned m'"
    by (auto simp: event_step_def)
next
  assume h: "socketState s sid = Some st \<and> ss_playerId st = pid \<and> map_of (activeRooms s) rid = Some a \<and>
          fst (tryReconnectToRoom now sid (Some rid) tok s)"
  then have "room_member s a (ss_playerId st) = Some m" using assms(2) by simp
  from tryReconnectToRoom_member[OF _ _ assms(1) this, of sid rid now tok] h
  show "room_member (snd (tryReconnectToRoom now sid (Some rid) tok s)) a pid =
              Some (m\<lparr>m_socketId := Some sid, m_disconnectedAt := None,
                      m_reconnectCount := m_reconnectCount m + 1\<rparr>)" by simp
next
  show "teamActive (xs @ (pid, m) # ys) t = teamActive (xs @ ys) t"
    using assms(3) by (rule teamActive_skips_abandoned)
next
  show "rc_abandoned (memberChange d w m)" using memberChange_abandoned[OF assms(3)] by simp
next
  show "rc_delta (memberChange d w m) = js_sub (if m_team m = 0 then d else js_neg d) (Num ABANDON_PENALTY)"
    using memberChange_abandoned[OF assms(3)] by simp
qed


lemma ex_leave_heap: "length (roomHeap (handle exEnv 6000 (LeaveMatch ''sA'') exServer)) = 1"
  by (simp add: leaveMatch_def ex_defs room_member_def update_member_def emit_room_def update_state_def
        clearRoomOfState_def Let_def)

text \<open>
  Player \<open>pA\<close> leaves \<open>match-2\<close> at time 6000 and a new connection of \<open>pA\<close> rejoins it
  at time 7000 with the reconnect token: the member has the new socket, no disconnect
  timestamp and one reconnection, and is still flagged.
\<close>

theorem abandoned_flag_never_cleared_witness:
  "room_member (handle exEnv 6000 (LeaveMatch ''sA'') exServer) 0 ''pA'' =
     Some (exA\<lparr>m_socketId := None, m_disconnectedAt := Some 6000, m_abandoned := True\<rparr>) \<and>
   (\<exists>m'. room_member (handle exEnv 7000 (Connection ''sA2'' exAuth)
                        (handle exEnv 6000 (LeaveMatch ''sA'') exServer)) 0 ''pA'' = Some m' \<and>
         m_abandoned m') \<and>
   room_member (handle exEnv 7000 (Connection ''sA2'' exAuth)
                  (handle exEnv 6000 (LeaveMatch ''sA'') exServer)) 0 ''pA'' =
     Some (exA\<lparr>m_socketId := Some ''sA2'', m_disconnectedAt := None, m_reconnectCount := 1,
               m_abandoned := True\<rparr>) \<and>
   fst (tryReconnectToRoom 7000 ''sA2'' (Some ''match-2'') (Some ''rc_A'') exServerRejoining) \<and>
   room_member (snd (tryReconnectToRoom 7000 ''sA2'' (Some ''match-2'') (Some ''rc_A'') exServerRejoining))
      0 ''pA'' =
     Some (exA\<lparr>m_socketId := Some ''sA2'', m_disconnectedAt := None, m_reconnectCount := 1,
               m_abandoned := True\<rparr>)"
proof -
  let ?m = "exA\<lparr>m_socketId := None, m_disconnectedAt := Some 6000, m_abandoned := True\<rparr>"
  have f: "m_abandoned ?m" by simp
  have l: "0 < length (roomHeap (handle exEnv 6000 (LeaveMatch ''sA'') exServer))"
    unfolding ex_leave_heap by simp
  from abandoned_flag_never_cleared[where e = exEnv and now = 7000 and ev = "Connection ''sA2'' exAuth",
      OF l exLeft f]
  have 1: "\<exists>m'. room_member (handle exEnv 7000 (Connection ''sA2'' exAuth)
                        (handle exEnv 6000 (LeaveMatch ''sA'') exServer)) 0 ''pA'' = Some m' \<and>
         m_abandoned m'" by simp
  have h2: "roomHeap exServerRejoining = roomHeap (handle exEnv 6000 (LeaveMatch ''sA'') exServer)"
    by (simp add: exServerRejoining_def Let_def)
  have l2: "0 < length (roomHeap exServerRejoining)"
    unfolding h2 ex_leave_heap by simp
  have m2: "room_member exServerRejoining 0 ''pA'' = Some ?m"
    using exLeft unfolding room_member_def h2 .
  have st: "socketState exServerRejoining ''sA2'' =
              Some (exStateA\<lparr>ss_socketId := ''sA2'', ss_roomId := None, ss_slots := [], ss_reconnect := None\<rparr>)"
    by (simp add: exServerRejoining_def Let_def)
  have ar: "map_of (activeRooms exServerRejoining) ''match-2'' = Some 0"
    by (simp add: exServerRejoining_def leaveMatch_def ex_defs room_member_def update_member_def
          emit_room_def update_state_def clearRoomOfState_def Let_def)
  have ok: "fst (tryReconnectToRoom 7000 ''sA2'' (Some ''match-2'') (Some ''rc_A'') exServerRejoining)"
    by (simp add: tryReconnectToRoom_def st ar m2 exStateA_def exA_def Let_def RECONNECT_GRACE_MS_def)
  from abandoned_flag_never_cleared[where sid = "''sA2''" and rid = "''match-2''" and now = 7000
      and tok = "Some ''rc_A''"
      and st = "exStateA\<lparr>ss_socketId := ''sA2'', ss_roomId := None, ss_slots := [], ss_reconnect := None\<rparr>",
      OF l2 m2 f]
    st ar ok
  have 2: "room_member (snd (tryReconnectToRoom 7000 ''sA2'' (Some ''match-2'') (Some ''rc_A'') exServerRejoining))
      0 ''pA'' =
     Some (exA\<lparr>m_socketId := Some ''sA2'', m_disconnectedAt := None, m_reconnectCount := 1,
               m_abandoned := True\<rparr>)"
    by (simp add: exStateA_def exA_def)
  from exLeft 1 exBack ok 2 show ?thesis by (intro conjI)
qed

section \<open>What sets the abandoned flag\<close>




section \<open>Reconnection\<close>

lemma tryReconnectToRoom_rejected_unchanged:
  "\<not> fst (tryReconnectToRoom now sid roomId token s) \<Longrightarrow> snd (tryReconnectToRoom now sid roomId token s) = s"
  unfolding tryReconnectToRoom_def Let_def by (auto split: option.splits if_splits)

lemma tryReconnectToRoom_accepted:
  assumes ok: "fst (tryReconnectToRoom now sid roomId token s)"
  shows "\<exists>rid tok a st m.
           roomId = Some rid \<and> token = Some tok \<and> map_of (activeRooms s) rid = Some a \<and>
           socketState s sid = Some st \<and> room_member s a (ss_playerId st) = Some m \<and>
           m_reconnectToken m = tok \<and>
           (case m_disconnectedAt m of None \<Rightarrow> True | Some t \<Rightarrow> t = 0 \<or> now - t \<le> RECONNECT_GRACE_MS)"
proof -
  from ok obtain st where st: "socketState s sid = Some st"
    by (cases "socketState s sid") (simp_all add: tryReconnectToRoom_def)
  from ok st obtain rid where rid: "roomId = Some rid"
    by (cases roomId) (simp_all add: tryReconnectToRoom_def)
  from ok st rid obtain tok where tok: "token = Some tok"
    by (cases token) (simp_all add: tryReconnectToRoom_def)
  from ok st rid tok obtain a where a: "map_of (activeRooms s) rid = Some a"
    by (cases "map_of (activeRooms s) rid") (simp_all add: tryReconnectToRoom_def split: if_splits)
  from ok st rid tok a obtain m where m: "room_member s a (ss_playerId st) = Some m"
    by (cases "room_member s a (ss_playerId st)") (simp_all add: tryReconnectToRoom_def split: if_splits)
  from ok have "m_reconnectToken m = tok \<and>
           (case m_disconnectedAt m of None \<Rightarrow> True | Some t \<Rightarrow> t = 0 \<or> now - t \<le> RECONNECT_GRACE_MS)"
    by (auto simp: tryReconnectToRoom_def st rid tok a m Let_def split: if_splits option.splits)
  with st rid tok a m show ?thesis by simp
qed

text \<open>
  C6. A reconnection attempt with \<open>(roomId, token)\<close> on connection \<open>sid\<close> succeeds only
  when \<open>activeRooms\<close> has a room with that id, the member of that room for the
  connection's player holds exactly that token, and the member is not disconnected or
  was disconnected at most \<open>RECONNECT_GRACE_MS\<close> ago. A rejected attempt changes nothing.
  In particular the attempt is rejected when no active room has the id, when the
  connection's player is no member of the room, when the member's token is another
  one, and when the grace window has elapsed, whatever the token.
\<close>

theorem tryReconnectToRoom_rejects_unless:
  "(fst (tryReconnectToRoom now sid roomId token s) \<longrightarrow>
      (\<exists>rid tok a st m.
           roomId = Some rid \<and> token = Some tok \<and> map_of (activeRooms s) rid = Some a \<and>
           socketState s sid = Some st \<and> room_member s a (ss_playerId st) = Some m \<and>
           m_reconnectToken m = tok \<and>
           (case m_disconnectedAt m of None \<Rightarrow> True | Some t \<Rightarrow> t = 0 \<or> now - t \<le> RECONNECT_GRACE_MS))) \<and>
   (\<not> fst (tryReconnectToRoom now sid roomId token s) \<longrightarrow>
      snd (tryReconnectToRoom now sid roomId token s) = s) \<and>
   (map_of (activeRooms s) rid = None \<longrightarrow>
      tryReconnectToRoom now sid (Some rid) token s = (False, s)) \<and>
   (socketState s sid = Some st \<and> map_of (activeRooms s) rid = Some a \<and>
    room_member s a (ss_playerId st) = None \<longrightarrow>
      tryReconnectToRoom now sid (Some rid) token s = (False, s)) \<and>
   (socketState s sid = Some st \<and> map_of (activeRooms s) rid = Some a \<and>
    room_member s a (ss_playerId st) = Some m \<and> token \<noteq> Some (m_reconnectToken m) \<longrightarrow>
      tryReconnectToRoom now sid (Some rid) token s = (False, s)) \<and>
   (socketState s sid = Some st \<and> map_of (activeRooms s) rid = Some a \<and>
    room_member s a (ss_playerId st) = Some m \<and>
    m_disconnectedAt m = Some t \<and> t \<noteq> 0 \<and> now - t > RECONNECT_GRACE_MS \<longrightarrow>
      tryReconnectToRoom now sid (Some rid) token s = (False, s))"
proof (intro conjI impI)
  assume "fst (tryReconnectToRoom now sid roomId token s)"
  then show "\<exists>rid tok a st m.
           roomId = Some rid \<and> token = Some tok \<and> map_of (activeRooms s) rid = Some a \<and>
           socketState s sid = Some st \<and> room_member s a (ss_playerId st) = Some m \<and>
           m_reconnectToken m = tok \<and>
           (case m_disconnectedAt m of None \<Rightarrow> True | Some t \<Rightarrow> t = 0 \<or> now - t \<le> RECONNECT_GRACE_MS)"
    by (rule tryReconnectToRoom_accepted)
next
  assume "\<not> fst (tryReconnectToRoom now sid roomId token s)"
  then show "snd (tryReconnectToRoom now sid roomId token s) = s"
    by (rule tryReconnectToRoom_rejected_unchanged)
next
  assume "map_of (activeRooms s) rid = None"
  then show "tryReconnectToRoom now sid (Some rid) token s = (False, s)"
    by (simp add: tryReconnectToRoom_def split: option.splits)
next
  assume "socketState s sid = Some st \<and> map_of (activeRooms s) rid = Some a \<and>
    room_member s a (ss_playerId st) = None"
  then show "tryReconnectToRoom now sid (Some rid) token s = (False, s)"
    by (simp add: tryReconnectToRoom_def split: option.splits)
next
  assume "socketState s sid = Some st \<and> map_of (activeRooms s) rid = Some a \<and>
    room_member s a (ss_playerId st) = Some m \<and> token \<noteq> Some (m_reconnectToken m)"
  then show "tryReconnectToRoom now sid (Some rid) token s = (False, s)"
    by (simp add: tryReconnectToRoom_def split: option.splits)
next
  assume "socketState s sid = Some st \<and> map_of (activeRooms s) rid = Some a \<and>
    room_member s a (ss_playerId st) = Some m \<and>
    m_disconnectedAt m = Some t \<and> t \<noteq> 0 \<and> now - t > RECONNECT_GRACE_MS"
  then show "tryReconnectToRoom now sid (Some rid) token s = (False, s)"
    by (simp add: tryReconnectToRoom_def split: option.splits)
qed

text \<open>
  The new connection \<open>sA2\<close> of \<open>pA\<close>, who left \<open>match-2\<close> at time 6000: accepted at
  time 7000 with the token of \<open>pA\<close>; rejected with the token of \<open>pB\<close>, for a room id that
  is not active, and at time 60000 with the token of \<open>pA\<close>.
\<close>

theorem tryReconnectToRoom_rejects_unless_witness:
  "fst (tryReconnectToRoom 7000 ''sA2'' (Some ''match-2'') (Some ''rc_A'') exServerRejoining) \<and>
   (\<exists>a st m. map_of (activeRooms exServerRejoining) ''match-2'' = Some a \<and>
        socketState exServerRejoining ''sA2'' = Some st \<and>
        room_member exServerRejoining a (ss_playerId st) = Some m \<and> m_reconnectToken m = ''rc_A'') \<and>
   tryReconnectToRoom 7000 ''sA2'' (Some ''match-2'') (Some ''rc_B'') exServerRejoining
     = (False, exServerRejoining) \<and>
   tryReconnectToRoom 7000 ''sA2'' (Some ''match-9'') (Some ''rc_A'') exServerRejoining
     = (False, exServerRejoining) \<and>
   tryReconnectToRoom 60000 ''sA2'' (Some ''match-2'') (Some ''rc_A'') exServerRejoining
     = (False, exServerRejoining)"
proof -
  let ?m = "exA\<lparr>m_socketId := None, m_disconnectedAt := Some 6000, m_abandoned := True\<rparr>"
  let ?st = "exStateA\<lparr>ss_socketId := ''sA2'', ss_roomId := None, ss_slots := [], ss_reconnect := None\<rparr>"
  have h2: "roomHeap exServerRejoining = roomHeap (handle exEnv 6000 (LeaveMatch ''sA'') exServer)"
    by (simp add: exServerRejoining_def Let_def)
  have m2: "room_member exServerRejoining 0 ''pA'' = Some ?m"
    using exLeft unfolding room_member_def h2 .
  have st: "socketState exServerRejoining ''sA2'' = Some ?st"
    by (simp add: exServerRejoining_def Let_def)
  have ar: "map_of (activeRooms exServerRejoining) ''match-2'' = Some 0"
    by (simp add: exServerRejoining_def leaveMatch_def ex_defs room_member_def update_member_def
          emit_room_def update_state_def clearRoomOfState_def Let_def)
  have ar9: "map_of (activeRooms exServerRejoining) ''match-9'' = None"
    by (simp add: exServerRejoining_def leaveMatch_def ex_defs room_member_def update_member_def
          emit_room_def update_state_def clearRoomOfState_def Let_def)
  have pid: "ss_playerId ?st = ''pA''" by (simp add: exStateA_def)
  have ok: "fst (tryReconnectToRoom 7000 ''sA2'' (Some ''match-2'') (Some ''rc_A'') exServerRejoining)"
    by (simp add: tryReconnectToRoom_def st ar m2 exStateA_def exA_def Let_def RECONNECT_GRACE_MS_def)
  note T = tryReconnectToRoom_rejects_unless[where s = exServerRejoining and sid = "''sA2''"
      and st = ?st and a = 0 and m = ?m and t = 6000]
  from T[where now = 7000 and roomId = "Some ''match-2''" and token = "Some ''rc_A''"]
  have "fst (tryReconnectToRoom 7000 ''sA2'' (Some ''match-2'') (Some ''rc_A'') exServerRejoining) \<longrightarrow>
      (\<exists>rid tok a st m.
           Some ''match-2'' = Some rid \<and> Some ''rc_A'' = Some tok \<and>
           map_of (activeRooms exServerRejoining) rid = Some a \<and>
           socketState exServerRejoining ''sA2'' = Some st \<and>
           room_member exServerRejoining a (ss_playerId st) = Some m \<and>
           m_reconnectToken m = tok \<and>
           (case m_disconnectedAt m of None \<Rightarrow> True | Some t \<Rightarrow> t = 0 \<or> 7000 - t \<le> RECONNECT_GRACE_MS))"
    by (rule conjunct1)
  with ok have 1: "\<exists>a st m. map_of (activeRooms exServerRejoining) ''match-2'' = Some a \<and>
        socketState exServerRejoining ''sA2'' = Some st \<and>
        room_member exServerRejoining a (ss_playerId st) = Some m \<and> m_reconnectToken m = ''rc_A''"
    by auto
  from T[where now = 7000 and rid = "''match-2''" and token = "Some ''rc_B''"] st ar m2 pid
  have 2: "tryReconnectToRoom 7000 ''sA2'' (Some ''match-2'') (Some ''rc_B'') exServerRejoining
     = (False, exServerRejoining)" by (simp add: exA_def)
  from T[where now = 7000 and rid = "''match-9''" and token = "Some ''rc_A''"] ar9
  have 3: "tryReconnectToRoom 7000 ''sA2'' (Some ''match-9'') (Some ''rc_A'') exServerRejoining
     = (False, exServerRejoining)" by simp
  from T[where now = 60000 and rid = "''match-2''" and token = "Some ''rc_A''"] st ar m2 pid
  have 4: "tryReconnectToRoom 60000 ''sA2'' (Some ''match-2'') (Some ''rc_A'') exServerRejoining
     = (False, exServerRejoining)" by (simp add: exA_def RECONNECT_GRACE_MS_def)
  from ok 1 2 3 4 show ?thesis by (intro conjI)
qed

section \<open>Re-queue after a cancelled ready-check\<close>

text \<open>
  C7. Player \<open>pA\<close> queued with the region \<open>us east 1\<close>: \<open>normalizeRegion\<close> cuts it to
  eight characters, the last a space, and the entry is in the bucket \<open>duel|us east \<close>
  (with the space). The ready-check of that bucket, accepted by \<open>pA\<close>, is rejected by
  \<open>pB\<close> at time 4000. \<open>cancelReadyCheck\<close> re-enqueues \<open>pA\<close> with the region of the
  ready-check, which \<open>enqueueFromSocketState\<close> normalises again: the trailing space is
  trimmed, and the new entry is in the bucket \<open>duel|us east\<close>, not in the original one.
  Its join time is 4000 - 12000, and \<open>pB\<close>, who rejected, has no entry.
\<close>

theorem requeue_leaves_original_bucket:
  "normalizeRegion (Some ''us east 1'') = ''us east '' \<and>
   normalizeRegion (Some ''us east '') = ''us east'' \<and>
   map_option fst
     (queueEntryBySocket (enqueueFromSocketState (env_rnd exEnv) 1500 ''sA'' exJoin 0 exConnected) ''sA'')
     = Some ''duel|us east '' \<and>
   map fst (queueByBucket (handle exEnv 4000 (ReadyCheckResponse ''sB'' None False) exPending))
     = [''duel|us east''] \<and>
   map_option (\<lambda>(k, e). (k, q_joinedAt e))
     (queueEntryBySocket (handle exEnv 4000 (ReadyCheckResponse ''sB'' None False) exPending) ''sA'')
     = Some (''duel|us east'', - 8000) \<and>
   queueEntryBySocket (handle exEnv 4000 (ReadyCheckResponse ''sB'' None False) exPending) ''sB'' = None"
  by code_simp

section \<open>Ending a room once\<close>

text \<open>The connections \<open>finishRoomForSockets\<close> notifies: for each member in order, its
  socket id when it has one and the socket is connected.\<close>

definition notified :: "string set \<Rightarrow> (string \<times> member) list \<Rightarrow> string list" where
  "notified S ms =
     concat (map (\<lambda>(k, m). case m_socketId m of
                               None \<Rightarrow> []
                             | Some sid \<Rightarrow> if sid \<noteq> [] \<and> sid \<in> S then [sid] else []) ms)"

text \<open>The stored matches, the messages sent and the connected sockets.\<close>

definition out_of :: "server \<Rightarrow> match_record list \<times> (target \<times> out_event) list \<times> string set" where
  "out_of s = (matches s, emitted s, sockets s)"

lemma out_of_update_state [simp]: "out_of (update_state sid f s) = out_of s"
  by (simp add: out_of_def update_state_def split: option.splits)

lemma out_of_draw [simp]: "out_of (snd (draw rnd s)) = out_of s"
  by (simp add: out_of_def draw_def)

lemma out_of_createSessionToken [simp]: "out_of (snd (createSessionToken rnd s)) = out_of s"
  by (simp add: out_of_def createSessionToken_def draw_def Let_def split_beta)

lemma out_of_createPlayer [simp]: "out_of (snd (createPlayer rnd now n h p s)) = out_of s"
  by (simp add: out_of_def createPlayer_def draw_def Let_def split_beta split: option.splits)

lemma out_of_applyPlayerResult [simp]: "out_of (applyPlayerResult e now s entry) = out_of s"
proof -
  have u: "out_of (playersById_update f s') = out_of s'" for f s' by (simp add: out_of_def)
  show ?thesis
    by (simp add: applyPlayerResult_def Let_def split_beta u split: option.splits)
qed

lemma out_of_applyMatchResult:
  "out_of (applyMatchResult e now mr s) = (matches s @ [mr\<lparr>mr_storedAt := now\<rparr>], emitted s, sockets s)"
proof -
  have "out_of (foldl (applyPlayerResult e now) s (mr_players mr)) = out_of s"
    by (rule foldl_keeps) simp
  then show ?thesis by (simp add: applyMatchResult_def Let_def out_of_def)
qed

lemma out_of_rating_fold:
  "out_of (foldl (\<lambda>st member.
                           (case byPlayerId (m_playerId member) of
                              None \<Rightarrow> st
                            | Some change \<Rightarrow>
                                (case playerSocket st (m_playerId member) of
                                   None \<Rightarrow> st
                                 | Some socketId \<Rightarrow>
                                     if socketId = [] then st
                                     else update_state socketId
                                            (\<lambda>state. state\<lparr>ss_rating := rc_ratingAfter change\<rparr>) st)))
                    s xs) = out_of s"
  by (rule foldl_keeps) (simp split: option.splits)

definition winnerOf :: "room \<Rightarrow> nat option \<Rightarrow> nat option" where
  "winnerOf room explicitWinner =
     (case explicitWinner of
        None \<Rightarrow> if fst (r_score room) = snd (r_score room) then None
                else if fst (r_score room) > snd (r_score room) then Some 0 else Some 1
      | Some w \<Rightarrow> Some w)"

lemma endRoomStart_result:
  assumes "\<not> r_ended (roomHeap s ! a)"
  shows "fst (endRoomStart e now a reason w s) =
           Some (MatchEnded (r_id (roomHeap s ! a)) reason (winnerOf (roomHeap s ! a) w)
                  (r_score (roomHeap s ! a))
                  (buildRatingChanges (map snd (r_members (roomHeap s ! a))) (winnerOf (roomHeap s ! a) w)))"
    and "out_of (snd (endRoomStart e now a reason w s)) =
           (matches s @
              [\<lparr> mr_matchId = r_id (roomHeap s ! a), mr_playlist = r_playlist (roomHeap s ! a),
                 mr_seed = r_seed (roomHeap s ! a), mr_team0Score = fst (r_score (roomHeap s ! a)),
                 mr_team1Score = snd (r_score (roomHeap s ! a)),
                 mr_winnerTeam = winnerOf (roomHeap s ! a) w,
                 mr_startedAt = r_startedAt (roomHeap s ! a), mr_endedAt = now,
                 mr_players = buildRatingChanges (map snd (r_members (roomHeap s ! a)))
                                (winnerOf (roomHeap s ! a) w),
                 mr_storedAt = now \<rparr>],
            emitted s, sockets s)"
proof -
  show "fst (endRoomStart e now a reason w s) =
           Some (MatchEnded (r_id (roomHeap s ! a)) reason (winnerOf (roomHeap s ! a) w)
                  (r_score (roomHeap s ! a))
                  (buildRatingChanges (map snd (r_members (roomHeap s ! a))) (winnerOf (roomHeap s ! a) w)))"
    using assms by (simp add: endRoomStart_def Let_def winnerOf_def)
  have o: "matches s' = fst (out_of s') \<and> emitted s' = fst (snd (out_of s')) \<and> sockets s' = snd (snd (out_of s'))" for s'
    by (simp add: out_of_def)
  show "out_of (snd (endRoomStart e now a reason w s)) =
           (matches s @
              [\<lparr> mr_matchId = r_id (roomHeap s ! a), mr_playlist = r_playlist (roomHeap s ! a),
                 mr_seed = r_seed (roomHeap s ! a), mr_team0Score = fst (r_score (roomHeap s ! a)),
                 mr_team1Score = snd (r_score (roomHeap s ! a)),
                 mr_winnerTeam = winnerOf (roomHeap s ! a) w,
                 mr_startedAt = r_startedAt (roomHeap s ! a), mr_endedAt = now,
                 mr_players = buildRatingChanges (map snd (r_members (roomHeap s ! a)))
                                (winnerOf (roomHeap s ! a) w),
                 mr_storedAt = now \<rparr>],
            emitted s, sockets s)"
    using assms
    apply (simp add: endRoomStart_def Let_def winnerOf_def out_of_applyMatchResult)
    apply (simp add: o out_of_rating_fold)
    apply (simp add: out_of_def)
    done
qed

lemma finish_step:
  "out_of (foldl (\<lambda>st (k, member).
              (case m_socketId member of
                 None \<Rightarrow> st
               | Some socketId \<Rightarrow>
                   if socketId = [] then st
                   else emit_to socketId payload (update_state socketId clearRoomOfState st)))
       s ms) =
   (matches s, emitted s @ map (\<lambda>sid. (ToSocket sid, payload)) (notified (sockets s) ms), sockets s)"
proof (induction ms arbitrary: s)
  case Nil
  then show ?case by (simp add: out_of_def notified_def)
next
  case (Cons x ms)
  obtain k m where x: "x = (k, m)" by (cases x)
  have u1: "matches (update_state sid f s') = matches s'" for sid f s'
    using out_of_update_state[of sid f s'] by (simp add: out_of_def)
  have u2: "emitted (update_state sid f s') = emitted s'" for sid f s'
    using out_of_update_state[of sid f s'] by (simp add: out_of_def)
  have u3: "sockets (update_state sid f s') = sockets s'" for sid f s'
    using out_of_update_state[of sid f s'] by (simp add: out_of_def)
  have v1: "sockets (emit_to sid ev s') = sockets s'" for sid ev s'
    by (simp add: emit_to_def)
  have v2: "matches (emit_to sid ev s') = matches s'" for sid ev s'
    by (simp add: emit_to_def)
  have v3: "emitted (emit_to sid ev s') = (if sid \<in> sockets s' then emitted s' @ [(ToSocket sid, ev)] else emitted s')"
    for sid ev s'
    by (simp add: emit_to_def)
  show ?case
    unfolding x foldl_Cons Cons.IH
    by (simp add: u1 u2 u3 v1 v2 v3 split: option.splits) (simp add: notified_def)
qed

lemma out_of_finishRoomForSockets:
  "out_of (finishRoomForSockets a payload s) =
     (matches s,
      emitted s @ map (\<lambda>sid. (ToSocket sid, payload)) (notified (sockets s) (r_members (roomHeap s ! a))),
      sockets s)"
  unfolding finishRoomForSockets_def by (rule finish_step)


lemma notified_map:
  assumes "\<And>k m. m_socketId (g k m) = m_socketId m"
  shows "notified S (map (\<lambda>(k, m). (k, g k m)) ms) = notified S ms"
  by (induction ms) (auto simp: notified_def assms)

lemma endRoom_ended: "r_ended (roomHeap s ! a) \<Longrightarrow> endRoom e now a reason w s = s"
  by (simp add: endRoom_def endRoomStart_ended)

lemma tickRoom_ended: "r_ended (roomHeap (fst acc) ! a) \<Longrightarrow> tickRoom e now engine acc a = acc"
  by (simp add: tickRoom_def Let_def)

text \<open>
  C1. Ending a room that has not ended marks it ended, stores exactly one match record,
  sends exactly one \<open>matchEnded\<close> message to each member whose socket is connected, and
  removes the room from \<open>activeRooms\<close>. Any further call of \<open>endRoom\<close> on the room,
  with any reason and winner, changes nothing, and the tick skips the room.
\<close>

theorem endRoom_idempotent:
  assumes "a < length (roomHeap s)" and "\<not> r_ended (roomHeap s ! a)"
    and "s1 = endRoom e now a reason w s"
  shows "r_ended (roomHeap s1 ! a) \<and>
         (\<exists>stored. matches s1 = matches s @ [stored] \<and> mr_matchId stored = r_id (roomHeap s ! a)) \<and>
         (\<exists>payload. fst (endRoomStart e now a reason w s) = Some payload \<and>
            emitted s1 = emitted s @
              map (\<lambda>sid. (ToSocket sid, payload)) (notified (sockets s) (r_members (roomHeap s ! a)))) \<and>
         activeRooms s1 = AList.delete (r_id (roomHeap s ! a)) (activeRooms s) \<and>
         endRoom e' now' a reason' w' s1 = s1 \<and>
         tickRoom e' now' engine (s1, pending) a = (s1, pending)"
proof -
  let ?room = "roomHeap s ! a"
  obtain r s' where st: "endRoomStart e now a reason w s = (r, s')"
    by (cases "endRoomStart e now a reason w s")
  from endRoomStart_result(1)[OF assms(2), of e now reason w] st
  obtain payload where p: "r = Some payload" by simp
  have s1: "s1 = finishRoomForSockets a payload s'"
    by (simp add: assms(3) endRoom_def st p)
  from rooms_of_endRoomStart[OF assms(2), of e now reason w] st
  obtain g where g: "rooms_of s' =
         ((roomHeap s)[a := ?room\<lparr>r_ended := True,
               r_members := map (\<lambda>(k, m). (k, g k m)) (r_members ?room)\<rparr>],
          AList.delete (r_id ?room) (activeRooms s))"
    and c: "\<forall>k m. g k m = m \<or> (\<exists>r. g k m = m\<lparr>m_ratingAfter := r\<rparr>)" by auto
  have gs: "m_socketId (g k m) = m_socketId m" for k m
    using c[rule_format, of k m] by auto
  from g have h': "roomHeap s' = (roomHeap s)[a := ?room\<lparr>r_ended := True,
               r_members := map (\<lambda>(k, m). (k, g k m)) (r_members ?room)\<rparr>]"
    and a': "activeRooms s' = AList.delete (r_id ?room) (activeRooms s)"
    by (simp_all add: rooms_of_def)
  have r1: "rooms_of s1 = rooms_of s'" by (simp add: s1)
  then have h1: "roomHeap s1 = roomHeap s'" and a1: "activeRooms s1 = activeRooms s'"
    by (simp_all add: rooms_of_def)
  have e1: "r_ended (roomHeap s1 ! a)" by (simp add: h1 h' assms(1))
  have m': "r_members (roomHeap s' ! a) = map (\<lambda>(k, m). (k, g k m)) (r_members ?room)"
    by (simp add: h' assms(1))
  from endRoomStart_result(2)[OF assms(2), of e now reason w] st
  obtain stored where o': "out_of s' = (matches s @ [stored], emitted s, sockets s)"
    and id: "mr_matchId stored = r_id ?room" by simp
  have o1: "out_of s1 = (matches s', emitted s' @ map (\<lambda>sid. (ToSocket sid, payload))
               (notified (sockets s') (r_members (roomHeap s' ! a))), sockets s')"
    unfolding s1 by (rule out_of_finishRoomForSockets)
  from o' have ms': "matches s' = matches s @ [stored]" and es': "emitted s' = emitted s"
    and ss': "sockets s' = sockets s" by (simp_all add: out_of_def)
  from o1 have ms1: "matches s1 = matches s @ [stored]"
    and es1: "emitted s1 = emitted s @ map (\<lambda>sid. (ToSocket sid, payload))
               (notified (sockets s) (r_members ?room))"
    by (simp_all add: out_of_def ms' es' ss' m' notified_map[of g, OF gs])
  have f: "fst (endRoomStart e now a reason w s) = Some payload" by (simp add: st p)
  show ?thesis
  proof (intro conjI)
    show "r_ended (roomHeap s1 ! a)" by (rule e1)
    show "\<exists>stored. matches s1 = matches s @ [stored] \<and> mr_matchId stored = r_id ?room"
      using ms1 id by blast
    show "\<exists>payload. fst (endRoomStart e now a reason w s) = Some payload \<and>
            emitted s1 = emitted s @
              map (\<lambda>sid. (ToSocket sid, payload)) (notified (sockets s) (r_members ?room))"
      using f es1 by blast
    show "activeRooms s1 = AList.delete (r_id ?room) (activeRooms s)" by (simp add: a1 a')
    show "endRoom e' now' a reason' w' s1 = s1" using e1 by (rule endRoom_ended)
    show "tickRoom e' now' engine (s1, pending) a = (s1, pending)"
      using e1 by (simp add: tickRoom_ended)
  qed
qed

text \<open>
  The room \<open>match-2\<close> with both players connected, ended at time 9000: one match is
  stored, \<open>sA\<close> and \<open>sB\<close> each get one message, no room is active, and a second call
  changes nothing.
\<close>

theorem endRoom_idempotent_witness:
  "\<not> r_ended (roomHeap exServer ! 0) \<and>
   r_ended (roomHeap (endRoom exEnv 9000 0 ScoreLimitReached None exServer) ! 0) \<and>
   length (matches (endRoom exEnv 9000 0 ScoreLimitReached None exServer)) = 1 \<and>
   map fst (emitted (endRoom exEnv 9000 0 ScoreLimitReached None exServer)) = [ToSocket ''sA'', ToSocket ''sB''] \<and>
   activeRooms (endRoom exEnv 9000 0 ScoreLimitReached None exServer) = [] \<and>
   endRoom exEnv 9500 0 ServerShutdown (Some 1) (endRoom exEnv 9000 0 ScoreLimitReached None exServer)
     = endRoom exEnv 9000 0 ScoreLimitReached None exServer"
proof -
  have l: "0 < length (roomHeap exServer)" by (simp add: exServer_def)
  have n: "\<not> r_ended (roomHeap exServer ! 0)" by (simp add: exServer_def)
  have nt: "notified (sockets exServer) (r_members (roomHeap exServer ! 0)) = [''sA'', ''sB'']"
    by (simp add: notified_def exServer_def exA_def exB_def)
  have m0: "matches exServer = []" and e0: "emitted exServer = []"
    and a0: "AList.delete (r_id (roomHeap exServer ! 0)) (activeRooms exServer) = []"
    by (simp_all add: exServer_def)
  note T = endRoom_idempotent[where e = exEnv and now = 9000 and reason = ScoreLimitReached and w = None
      and e' = exEnv and now' = 9500 and reason' = ServerShutdown and w' = "Some 1"
      and engine = "\<lambda>rid. (0, 0)" and pending = "[]", OF l n refl]
  from T have 1: "r_ended (roomHeap (endRoom exEnv 9000 0 ScoreLimitReached None exServer) ! 0)" by simp
  from T have 2: "length (matches (endRoom exEnv 9000 0 ScoreLimitReached None exServer)) = 1"
    by (auto simp: m0)
  from T have 3: "map fst (emitted (endRoom exEnv 9000 0 ScoreLimitReached None exServer)) = [ToSocket ''sA'', ToSocket ''sB'']"
    by (auto simp: e0 nt)
  from T have 4: "activeRooms (endRoom exEnv 9000 0 ScoreLimitReached None exServer) = []"
    by (simp add: a0)
  from T have 5: "endRoom exEnv 9500 0 ServerShutdown (Some 1) (endRoom exEnv 9000 0 ScoreLimitReached None exServer)
     = endRoom exEnv 9000 0 ScoreLimitReached None exServer" by simp
  from n 1 2 3 4 5 show ?thesis by (intro conjI)
qed

section \<open>Ready-checks that are closed\<close>

text \<open>
  \<open>readies_of\<close> is the part of the state that holds the ready-checks. A ready-check
  object is closed when it exists and \<open>pendingReadyById\<close> does not hold it: it was
  confirmed or cancelled. \<open>ready_rel\<close> relates two states when every closed ready-check
  of the first is the same object, still closed, in the second.
\<close>

definition readies_of :: "server \<Rightarrow> ready_check list \<times> (string \<times> nat) list" where
  "readies_of s = (readyHeap s, pendingReadyById s)"

definition closed_ready :: "server \<Rightarrow> nat \<Rightarrow> bool" where
  "closed_ready s a = (a < length (readyHeap s) \<and> a \<notin> snd ` set (pendingReadyById s))"

definition ready_rel :: "server \<Rightarrow> server \<Rightarrow> bool" where
  "ready_rel s s' =
     (length (readyHeap s) \<le> length (readyHeap s') \<and>
      (\<forall>a. closed_ready s a \<longrightarrow> readyHeap s' ! a = readyHeap s ! a \<and> closed_ready s' a))"

lemma readies_of_updates [simp]:
  "readies_of (queueByBucket_update f0 s) = readies_of s"
  "readies_of (queueEntryBySocket_update f1 s) = readies_of s"
  "readies_of (roomHeap_update f2 s) = readies_of s"
  "readies_of (activeRooms_update f3 s) = readies_of s"
  "readies_of (socketState_update f4 s) = readies_of s"
  "readies_of (playerSocket_update f5 s) = readies_of s"
  "readies_of (roomSequence_update f6 s) = readies_of s"
  "readies_of (readySequence_update f7 s) = readies_of s"
  "readies_of (sockets_update f8 s) = readies_of s"
  "readies_of (playersById_update f9 s) = readies_of s"
  "readies_of (playerIdByTokenHash_update f10 s) = readies_of s"
  "readies_of (matches_update f11 s) = readies_of s"
  "readies_of (emitted_update f12 s) = readies_of s"
  "readies_of (drawn_update f13 s) = readies_of s"
  by (simp_all add: readies_of_def)

lemma readies_ofD:
  "readies_of s' = readies_of s \<Longrightarrow> readyHeap s' = readyHeap s \<and> pendingReadyById s' = pendingReadyById s"
  by (simp add: readies_of_def)

lemma ready_rel_refl: "ready_rel s s"
  by (simp add: ready_rel_def)

lemma ready_rel_trans: "ready_rel s s' \<Longrightarrow> ready_rel s' s'' \<Longrightarrow> ready_rel s s''"
  unfolding ready_rel_def by (metis le_trans)

lemma ready_rel_right: "readies_of s' = readies_of s1 \<Longrightarrow> ready_rel s s1 \<Longrightarrow> ready_rel s s'"
  by (drule readies_ofD) (simp add: ready_rel_def closed_ready_def)

lemma ready_rel_left: "readies_of s1 = readies_of s \<Longrightarrow> ready_rel s1 s' \<Longrightarrow> ready_rel s s'"
  by (drule readies_ofD) (simp add: ready_rel_def closed_ready_def)

lemma ready_rel_same: "readies_of s' = readies_of s \<Longrightarrow> ready_rel s s'"
  by (rule ready_rel_right[OF _ ready_rel_refl])

lemma ready_rel_foldl:
  assumes "\<And>s x. ready_rel s (f s x)"
  shows "ready_rel s (foldl f s xs)"
proof (induction xs arbitrary: s)
  case Nil
  show ?case by (simp add: ready_rel_refl)
next
  case (Cons x xs)
  from ready_rel_trans[OF assms[of s x] Cons[of "f s x"]] show ?case by simp
qed

lemma values_delete: "snd ` set (AList.delete k xs) \<subseteq> snd ` set xs"
  by (auto simp: AList.delete_eq)

lemma values_update: "snd ` set (AList.update k v xs) \<subseteq> insert v (snd ` set xs)"
  by (induction xs) auto

lemma ready_rel_delete:
  assumes "readyHeap s' = readyHeap s" and "pendingReadyById s' = AList.delete k (pendingReadyById s)"
  shows "ready_rel s s'"
  using values_delete[of k "pendingReadyById s"]
  by (auto simp: ready_rel_def closed_ready_def assms)

lemma ready_rel_create:
  assumes "readyHeap s' = readyHeap s @ [r]"
    and "pendingReadyById s' = AList.update k (length (readyHeap s)) (pendingReadyById s)"
  shows "ready_rel s s'"
  using values_update[of k "length (readyHeap s)" "pendingReadyById s"]
  by (auto simp: ready_rel_def closed_ready_def assms nth_append)

lemma ready_rel_write:
  assumes "readyHeap s' = (readyHeap s)[wa := r]" and "wa \<in> snd ` set (pendingReadyById s)"
    and "snd ` set (pendingReadyById s') \<subseteq> snd ` set (pendingReadyById s)"
  shows "ready_rel s s'"
proof -
  have n: "(readyHeap s)[wa := r] ! a = readyHeap s ! a" if "a \<notin> snd ` set (pendingReadyById s)" for a
    using that assms(2) by (cases "a = wa") auto
  show ?thesis
    using assms(3) by (auto simp: ready_rel_def closed_ready_def assms(1) n)
qed

lemma readies_of_foldl:
  "(\<And>s x. readies_of (f s x) = readies_of s) \<Longrightarrow> readies_of (foldl f s xs) = readies_of s"
  by (rule foldl_keeps)

lemma readies_of_emit_to [simp]: "readies_of (emit_to sid ev s) = readies_of s"
  by (simp add: emit_to_def)

lemma readies_of_emit_room [simp]: "readies_of (emit_room rid ev s) = readies_of s"
  by (simp add: emit_room_def)

lemma readies_of_update_state [simp]: "readies_of (update_state sid f s) = readies_of s"
  by (simp add: update_state_def split: option.splits)

lemma readies_of_draw [simp]: "readies_of (snd (draw rnd s)) = readies_of s"
  by (simp add: draw_def)

lemma readies_of_removeQueueEntry [simp]: "readies_of (snd (removeQueueEntry sid s)) = readies_of s"
  by (simp add: removeQueueEntry_def Let_def split: option.splits prod.splits)

lemma readies_of_updateQueuePositions [simp]: "readies_of (updateQueuePositions now key s) = readies_of s"
proof (cases "map_of (queueByBucket s) key")
  case None
  then show ?thesis by (simp add: updateQueuePositions_def)
next
  case (Some unsorted)
  have f: "readies_of (foldl (\<lambda>st (index, entry). emit_to (q_socketId entry) (QueueUpdate (index + 1) n) st) s1 xs)
        = readies_of s1" for s1 n xs
    by (rule foldl_keeps) (simp add: split_beta)
  show ?thesis using Some by (simp add: updateQueuePositions_def Let_def readies_of_foldl split_beta)
qed

lemma readies_of_updateAllQueuePositions [simp]: "readies_of (updateAllQueuePositions now s) = readies_of s"
  unfolding updateAllQueuePositions_def by (rule foldl_keeps) simp

lemma readies_of_updateNickname [simp]: "readies_of (updateNickname now pid n s) = readies_of s"
  by (simp add: updateNickname_def split: option.splits)

lemma readies_of_enqueue [simp]:
  "readies_of (enqueueFromSocketState rnd now sid payload priorityMs s) = readies_of s"
  by (simp add: enqueueFromSocketState_def Let_def split_beta split: option.splits)

lemma readies_of_clearPending [simp]: "readies_of (clearPendingReadyAssociation ready s) = readies_of s"
  unfolding clearPendingReadyAssociation_def by (rule foldl_keeps) simp

lemma readies_of_requeueMember [simp]:
  "readies_of (requeueMember rnd now ready acceptedOnly exclude s member) = readies_of s"
  by (simp add: requeueMember_def split: option.splits)

lemma readies_of_buildMembers [simp]: "readies_of (snd (buildMembers rnd c entries s)) = readies_of s"
proof (induction entries arbitrary: s)
  case Nil
  then show ?case by simp
next
  case (Cons entry rest)
  have d: "readies_of (snd (buildMembers rnd c rest (snd (draw rnd s)))) = readies_of s"
    using Cons[of "snd (draw rnd s)"] by simp
  show ?case using Cons d by (simp add: split_beta split: option.splits)
qed


lemma readies_of_emit_fold [simp]:
  "readies_of (foldl (\<lambda>st member. emit_to (rm_socketId member) ev st) s1 xs) = readies_of s1"
  by (rule foldl_keeps) simp

lemma readies_of_requeue_fold [simp]:
  "readies_of (foldl (requeueMember rnd now ready acceptedOnly exclude) s1 xs) = readies_of s1"
  by (rule foldl_keeps) simp

lemma ready_rel_cancelReadyCheck:
  "ready_rel s (cancelReadyCheck rnd now a reason acceptedOnly exclude s)"
proof (cases "map_of (pendingReadyById s) (rd_id (readyHeap s ! a)) = None")
  case True
  then show ?thesis by (simp add: cancelReadyCheck_def Let_def ready_rel_refl)
next
  case False
  have "readies_of (cancelReadyCheck rnd now a reason acceptedOnly exclude s) =
        readies_of (s\<lparr>pendingReadyById := AList.delete (rd_id (readyHeap s ! a)) (pendingReadyById s)\<rparr>)"
    by (simp add: cancelReadyCheck_def Let_def False)
  moreover have "ready_rel s (s\<lparr>pendingReadyById := AList.delete (rd_id (readyHeap s ! a)) (pendingReadyById s)\<rparr>)"
    by (rule ready_rel_delete) simp_all
  ultimately show ?thesis by (rule ready_rel_right)
qed

lemma ready_rel_createReadyCheck:
  "ready_rel s (createReadyCheck rnd now c selected s)"
proof -
  let ?s3 = "snd (buildMembers rnd c selected (snd (draw rnd (s\<lparr>readySequence := readySequence s + 1\<rparr>))))"
  have f: "readies_of (foldl (\<lambda>st member. emit_to (rm_socketId member) (ev member)
             (update_state (rm_socketId member) (g member) st)) s1 xs) = readies_of s1" for ev g s1 xs
    by (rule foldl_keeps) simp
  have b: "readies_of ?s3 = readies_of s"
    using readies_of_buildMembers[of rnd c selected "snd (draw rnd (s\<lparr>readySequence := readySequence s + 1\<rparr>))"]
    by simp
  have "readies_of (createReadyCheck rnd now c selected s) = readies_of s \<or>
        (\<exists>r k. readies_of (createReadyCheck rnd now c selected s) =
           readies_of (?s3\<lparr>readyHeap := readyHeap ?s3 @ [r],
                          pendingReadyById := AList.update k (length (readyHeap ?s3)) (pendingReadyById ?s3)\<rparr>))"
    by (simp add: createReadyCheck_def Let_def split_beta f b) blast
  then show ?thesis
  proof (elim disjE exE)
    assume "readies_of (createReadyCheck rnd now c selected s) = readies_of s"
    then show ?thesis by (rule ready_rel_same)
  next
    fix r k
    assume e: "readies_of (createReadyCheck rnd now c selected s) =
           readies_of (?s3\<lparr>readyHeap := readyHeap ?s3 @ [r],
                          pendingReadyById := AList.update k (length (readyHeap ?s3)) (pendingReadyById ?s3)\<rparr>)"
    have "ready_rel ?s3 (?s3\<lparr>readyHeap := readyHeap ?s3 @ [r],
                          pendingReadyById := AList.update k (length (readyHeap ?s3)) (pendingReadyById ?s3)\<rparr>)"
      by (rule ready_rel_create) simp_all
    from ready_rel_left[OF b ready_rel_right[OF e this]] show ?thesis .
  qed
qed

lemma ready_rel_readyLoop:
  "ready_rel s (readyLoop rnd now key cfg list s)"
proof (induction rnd now key cfg list s rule: readyLoop.induct)
  case (1 rnd' now' bucketKey playlistConfig list s)
  have fq: "readies_of (foldl (\<lambda>st entry. st\<lparr>queueEntryBySocket := (queueEntryBySocket st)(q_socketId entry := None)\<rparr>) s1 xs)
           = readies_of s1" for s1 xs
    by (rule foldl_keeps) simp
  show ?case
  proof (cases "findBestCandidate list now' playlistConfig")
    case None
    then show ?thesis by (simp add: readyLoop_none ready_rel_refl)
  next
    case (Some c)
    show ?thesis
    proof (cases "filter (\<lambda>entry. q_id entry \<in> set (map q_id (c_entries c))) (rev list) = []")
      case True
      with Some show ?thesis by (simp add: readyLoop_empty ready_rel_refl)
    next
      case False
      note ih = 1[OF Some refl False refl refl refl]
      show ?thesis
        unfolding readyLoop_unfold[OF Some False]
        apply (rule ready_rel_trans[OF _ ih])
        apply (rule ready_rel_left[OF _ ready_rel_createReadyCheck])
        apply (simp add: fq)
        done
    qed
  qed
qed

lemma ready_rel_tryCreateReadyChecks: "ready_rel s (tryCreateReadyChecks rnd now key s)"
proof -
  have "readies_of (tryCreateReadyChecks rnd now key s) = readies_of s \<or>
        (\<exists>cfg list. readies_of (tryCreateReadyChecks rnd now key s) = readies_of (readyLoop rnd now key cfg list s))"
    by (simp add: tryCreateReadyChecks_def Let_def split: option.splits) blast
  then show ?thesis
    using ready_rel_same ready_rel_right[OF _ ready_rel_readyLoop] by blast
qed

lemma ready_rel_tickQueueMatchmaking: "ready_rel s (tickQueueMatchmaking rnd now s)"
  unfolding tickQueueMatchmaking_def by (rule ready_rel_foldl) (rule ready_rel_tryCreateReadyChecks)

lemma readies_of_createRoomFromReady [simp]:
  "readies_of (createRoomFromReady now ready s) = readies_of s"
proof -
  have e: "readies_of (foldl (\<lambda>st member. emit_to (rm_socketId member) (ev2 member)
             (emit_to (rm_socketId member) (ev1 member) st)) s1 xs) = readies_of s1" for ev1 ev2 s1 xs
    by (rule readies_of_foldl) simp
  have u: "readies_of (foldl (\<lambda>st member. update_state (rm_socketId member) (g member) st) s1 xs) = readies_of s1"
    for g s1 xs by (rule readies_of_foldl) simp
  show ?thesis by (simp add: createRoomFromReady_def Let_def e u)
qed

lemma readies_of_update_member [simp]: "readies_of (update_member a k f s) = readies_of s"
  by (simp add: update_member_def Let_def)

lemma readies_of_markMemberDisconnected [simp]:
  "readies_of (markMemberDisconnected now sid reason s) = readies_of s"
  by (simp add: markMemberDisconnected_def Let_def split: option.splits)

lemma readies_of_tryReconnectToRoom [simp]:
  "readies_of (snd (tryReconnectToRoom now sid roomId token s)) = readies_of s"
  by (simp add: tryReconnectToRoom_def Let_def split: option.splits)

lemma readies_of_leaveMatch [simp]: "readies_of (leaveMatch now sid s) = readies_of s"
  by (simp add: leaveMatch_def Let_def split: option.splits)

lemma readies_of_createSessionToken [simp]: "readies_of (snd (createSessionToken rnd s)) = readies_of s"
  by (simp add: createSessionToken_def draw_def Let_def split_beta)

lemma readies_of_createPlayer [simp]: "readies_of (snd (createPlayer rnd now n h p s)) = readies_of s"
  by (simp add: createPlayer_def draw_def Let_def split_beta split: option.splits)

lemma readies_of_applyPlayerResult [simp]: "readies_of (applyPlayerResult e now s entry) = readies_of s"
  by (simp add: applyPlayerResult_def Let_def split_beta split: option.splits)

lemma readies_of_applyMatchResult [simp]: "readies_of (applyMatchResult e now mr s) = readies_of s"
  by (simp add: applyMatchResult_def Let_def readies_of_foldl)

lemma readies_of_touchPlayer [simp]: "readies_of (snd (touchPlayer now key n p s)) = readies_of s"
  by (simp add: touchPlayer_def Let_def)

lemma readies_of_getOrCreatePlayer [simp]:
  "readies_of (snd (getOrCreatePlayer e now playerId playerToken nickname s)) = readies_of s"
  by (simp add: getOrCreatePlayer_def Let_def split_beta split: option.splits)

lemma readies_of_finishRoomForSockets [simp]: "readies_of (finishRoomForSockets a payload s) = readies_of s"
  by (simp add: finishRoomForSockets_def readies_of_foldl split_beta split: option.splits)

lemma readies_of_rating_fold:
  "readies_of (foldl (\<lambda>st member.
                           (case byPlayerId (m_playerId member) of
                              None \<Rightarrow> st
                            | Some change \<Rightarrow>
                                (case playerSocket st (m_playerId member) of
                                   None \<Rightarrow> st
                                 | Some socketId \<Rightarrow>
                                     if socketId = [] then st
                                     else update_state socketId
                                            (\<lambda>state. state\<lparr>ss_rating := rc_ratingAfter change\<rparr>) st)))
                    s xs) = readies_of s"
  by (rule readies_of_foldl) (simp split: option.splits)

lemma readies_of_endRoomStart [simp]:
  "readies_of (snd (endRoomStart e now a reason w s)) = readies_of s"
  by (simp add: endRoomStart_def Let_def readies_of_rating_fold)

lemma readies_of_endRoom [simp]: "readies_of (endRoom e now a reason w s) = readies_of s"
  using readies_of_endRoomStart[of e now a reason w s]
  by (cases "endRoomStart e now a reason w s") (auto simp: endRoom_def split: option.splits)

lemma readies_of_tickRoom: "readies_of (fst (tickRoom e now engine acc a)) = readies_of (fst acc)"
proof (cases "r_ended (roomHeap (fst acc) ! a)")
  case True
  then show ?thesis by (simp add: tickRoom_def Let_def)
next
  case False
  let ?s = "fst acc"
  let ?s1 = "?s\<lparr>roomHeap := (roomHeap ?s)[a := snd (shouldEndRoom (env_SCORE_LIMIT e)
                ((roomHeap ?s ! a)\<lparr>r_score := engine (r_id (roomHeap ?s ! a))\<rparr>) now)]\<rparr>"
  have "fst (tickRoom e now engine acc a) = ?s1 \<or>
        (\<exists>reason winner. fst (tickRoom e now engine acc a) = snd (endRoomStart e now a reason winner ?s1))"
    using False by (auto simp: tickRoom_def Let_def split_beta split: option.splits prod.splits)
  then show ?thesis by auto
qed

lemma readies_of_tickRooms [simp]: "readies_of (tickRooms e now engine s) = readies_of s"
proof -
  have f: "readies_of (fst (foldl (tickRoom e now engine) acc xs)) = readies_of (fst acc)" for acc xs
    by (induction xs arbitrary: acc) (simp_all add: readies_of_tickRoom)
  have "readies_of (tickRooms e now engine s) =
          readies_of (fst (foldl (tickRoom e now engine) (s, []) (map snd (activeRooms s))))"
    by (simp add: tickRooms_def Let_def split_beta readies_of_foldl)
  then show ?thesis by (simp add: f)
qed

lemma readies_of_connection [simp]: "readies_of (connection e now sid au s) = readies_of s"
  by (simp add: connection_def Let_def split_beta split: option.splits)

lemma readies_of_leaveQueue [simp]: "readies_of (leaveQueue now sid s) = readies_of s"
proof -
  have "readies_of (snd (removeQueueEntry sid s)) = readies_of s" by simp
  then show ?thesis
    by (cases "removeQueueEntry sid s") (auto simp: leaveQueue_def split: option.splits)
qed

lemma readies_of_pingPong [simp]: "readies_of (pingPong now sid sentAt s) = readies_of s"
  by (simp add: pingPong_def split: jsnum.splits)

lemma ready_rel_eq: "readies_of s' = readies_of s'' \<Longrightarrow> ready_rel s s' = ready_rel s s''"
  by (drule readies_ofD) (simp add: ready_rel_def closed_ready_def)

lemma ready_rel_through [simp]:
  "ready_rel s (emit_to x ev s') = ready_rel s s'"
  "ready_rel s (update_state x f s') = ready_rel s s'"
  "ready_rel s (updateAllQueuePositions now s') = ready_rel s s'"
  "ready_rel s (socketState_update f1 s') = ready_rel s s'"
  "ready_rel s (playerSocket_update f2 s') = ready_rel s s'"
  "ready_rel s (sockets_update f3 s') = ready_rel s s'"
  "ready_rel s (markMemberDisconnected now sid reason s') = ready_rel s s'"
  by (rule ready_rel_eq, simp)+

lemma ready_rel_from: "readies_of s1 = readies_of s \<Longrightarrow> ready_rel s1 s' \<Longrightarrow> ready_rel s s'"
  by (rule ready_rel_left)

lemma ready_rel_cancel_from:
  "readies_of s1 = readies_of s \<Longrightarrow> ready_rel s (cancelReadyCheck rnd now a reason acceptedOnly exclude s1)"
  by (rule ready_rel_left) (assumption, rule ready_rel_cancelReadyCheck)

lemma ready_rel_readyTimeout: "ready_rel s (readyTimeout e now a s)"
  by (simp add: readyTimeout_def ready_rel_refl ready_rel_cancelReadyCheck split: option.splits)

lemma ready_rel_disconnect: "ready_rel s (disconnect e now sid s)"
  unfolding disconnect_def Let_def
  by (auto simp: ready_rel_refl ready_rel_same split: option.splits intro!: ready_rel_cancel_from)

lemma ready_rel_joinQueue: "ready_rel s (joinQueue e now sid payload s)"
proof -
  have "ready_rel s (tickQueueMatchmaking rnd now s1)" if "readies_of s1 = readies_of s" for rnd s1
    by (rule ready_rel_left[OF that]) (rule ready_rel_tickQueueMatchmaking)
  then show ?thesis
    by (simp add: joinQueue_def ready_rel_refl split: option.splits)
qed

lemma ready_rel_shutdown: "ready_rel s (shutdown e now s)"
proof -
  have "readies_of (shutdown e now s) = readies_of (s\<lparr>pendingReadyById := []\<rparr>)"
    unfolding shutdown_def by (rule readies_of_foldl) simp
  moreover have "ready_rel s (s\<lparr>pendingReadyById := []\<rparr>)"
    by (simp add: ready_rel_def closed_ready_def)
  ultimately show ?thesis by (rule ready_rel_right)
qed

lemma ready_rel_through2 [simp]:
  "ready_rel s (createRoomFromReady now r s') = ready_rel s s'"
  "ready_rel s (clearPendingReadyAssociation r s') = ready_rel s s'"
  "ready_rel s (foldl (\<lambda>st member. emit_to (rm_socketId member) ev st) s' xs) = ready_rel s s'"
  by (rule ready_rel_eq, simp)+

lemma in_values: "map_of xs k = Some a \<Longrightarrow> a \<in> snd ` set xs"
  by (metis map_of_SomeD image_eqI snd_conv)

lemma ready_rel_acceptReady: "ready_rel s (acceptReady rnd now sid matchId accept s)"
proof -
  have fe: "pendingReadyById (foldl (\<lambda>st member. emit_to (rm_socketId member) ev st) s1 xs) = pendingReadyById s1"
    for ev s1 xs
    using readies_ofD[OF readies_of_emit_fold[of ev s1 xs]] by simp
  have W: "ready_rel s (s\<lparr>readyHeap := (readyHeap s)[a := r]\<rparr>)"
    if "map_of (pendingReadyById s) k = Some a" for a r k
    by (rule ready_rel_write[where wa = a and r = r]) (use in_values[OF that] in simp_all)
  have WD: "ready_rel s (s\<lparr>readyHeap := (readyHeap s)[a := r],
                             pendingReadyById := AList.delete k' (pendingReadyById s)\<rparr>)"
    if "map_of (pendingReadyById s) k = Some a" for a r k k'
    by (rule ready_rel_write[where wa = a and r = r])
       (use in_values[OF that] values_delete[of k' "pendingReadyById s"] in simp_all)
  have fh: "readyHeap (foldl (\<lambda>st member. emit_to (rm_socketId member) ev st) s1 xs) = readyHeap s1"
    for ev s1 xs
    using readies_ofD[OF readies_of_emit_fold[of ev s1 xs]] by simp
  have WF: "ready_rel s ((foldl (\<lambda>st member. emit_to (rm_socketId member) ev st)
                            (s\<lparr>readyHeap := (readyHeap s)[a := r]\<rparr>) xs)
                         \<lparr>pendingReadyById := AList.delete k' (pendingReadyById s)\<rparr>)"
    if "map_of (pendingReadyById s) k = Some a" for a r k k' ev xs
    by (rule ready_rel_right[OF _ WD[OF that]]) (simp add: readies_of_def fh)
  show ?thesis
    unfolding acceptReady_def Let_def
    by (auto split: option.splits simp: ready_rel_refl ready_rel_cancelReadyCheck fe intro!: W WD WF)
qed

lemma ready_rel_handle: "ready_rel s (handle e now ev s)"
proof (cases ev)
  case (Connection sid au)
  show ?thesis unfolding Connection handle.simps by (rule ready_rel_same) simp
next
  case (JoinQueue sid payload)
  show ?thesis unfolding JoinQueue handle.simps by (rule ready_rel_joinQueue)
next
  case (LeaveQueue sid)
  show ?thesis unfolding LeaveQueue handle.simps by (rule ready_rel_same) simp
next
  case (ReadyCheckResponse sid matchId accept)
  show ?thesis unfolding ReadyCheckResponse handle.simps by (rule ready_rel_acceptReady)
next
  case (LeaveMatch sid)
  show ?thesis unfolding LeaveMatch handle.simps by (rule ready_rel_same) simp
next
  case (PlayerInput sid)
  show ?thesis unfolding PlayerInput handle.simps by (rule ready_rel_refl)
next
  case (PingPong sid sentAt)
  show ?thesis unfolding PingPong handle.simps by (rule ready_rel_same) simp
next
  case (Disconnect sid)
  show ?thesis unfolding Disconnect handle.simps by (rule ready_rel_disconnect)
next
  case QueueScan
  show ?thesis unfolding QueueScan handle.simps by (rule ready_rel_tickQueueMatchmaking)
next
  case (RoomTick engine)
  show ?thesis unfolding RoomTick handle.simps by (rule ready_rel_same) simp
next
  case (ReadyTimer a)
  show ?thesis unfolding ReadyTimer handle.simps by (rule ready_rel_readyTimeout)
next
  case Shutdown
  show ?thesis unfolding Shutdown handle.simps by (rule ready_rel_shutdown)
qed

lemma readyTimeout_cancels:
  assumes l: "a < length (readyHeap s)"
    and p: "map_of (pendingReadyById s) (rd_id (readyHeap s ! a)) = Some a"
    and u: "\<forall>(k, b) \<in> set (pendingReadyById s). b = a \<longrightarrow> k = rd_id (readyHeap s ! a)"
    and t: "rd_timerDueAt (readyHeap s ! a) \<le> now"
  shows "readies_of (readyTimeout e now a s) =
           (readyHeap s, AList.delete (rd_id (readyHeap s ! a)) (pendingReadyById s))"
    and "closed_ready (readyTimeout e now a s) a"
proof -
  have c: "readies_of (cancelReadyCheck rnd now a reason acceptedOnly exclude s) =
        readies_of (s\<lparr>pendingReadyById := AList.delete (rd_id (readyHeap s ! a)) (pendingReadyById s)\<rparr>)"
    for rnd reason acceptedOnly exclude
    by (simp add: cancelReadyCheck_def Let_def p)
  show r: "readies_of (readyTimeout e now a s) =
           (readyHeap s, AList.delete (rd_id (readyHeap s ! a)) (pendingReadyById s))"
    by (simp add: readyTimeout_def l t p c) (simp add: readies_of_def)
  have "a \<notin> snd ` set (AList.delete (rd_id (readyHeap s ! a)) (pendingReadyById s))"
    using u by (auto simp: AList.delete_eq)
  with l r show "closed_ready (readyTimeout e now a s) a"
    by (simp add: closed_ready_def readies_of_def)
qed




end
